theory Spec2Isabelle
  imports
    Main
    "HOL-Library.AList"
    "HOL-Library.Char_ord"
    "HOL-Library.List_Lexorder"
    "HOL-Library.Sublist"
    "HOL-Library.Word"
begin

unbundle bit_operations_syntax

section \<open>Values and documents\<close>

text \<open>
  The backend (\<^verbatim>\<open>backend/server.py\<close>) keeps three MongoDB collections of documents.
  A document is a Python dict from field names to values; the values that occur are
  \<^verbatim>\<open>None\<close>, strings, booleans, lists, nested dicts (the embedded doctor), the
  \<^verbatim>\<open>datetime.date\<close> objects that \<^verbatim>\<open>prepare_for_mongo\<close> looks for, and the
  \<^verbatim>\<open>ObjectId\<close> the driver stores under \<^verbatim>\<open>_id\<close>. A dict is an association list
  with distinct keys in insertion order; \<open>map_of\<close> is the lookup and \<open>AList.update\<close> the
  assignment \<^verbatim>\<open>d[k] = v\<close> (in place for an old key, appended for a new one).
  Strings are byte strings; comparison is bytewise lexicographic, which is how the store
  orders strings without a collation.
\<close>

record date =
  year :: nat
  month :: nat
  day :: nat

datatype val =
    VNull
  | VStr string
  | VBool bool
  | VList "val list"
  | VDoc "(string \<times> val) list"
  | VDate date
  | VObjectId nat

type_synonym doc = "(string \<times> val) list"

datatype error =
    HTTPException nat string
  | ValidationError
  | OverflowError
  | TypeError
  | PatternNotModelled

text \<open>Sequencing of fallible steps: the first error raised ends the request.\<close>

definition bnd :: "error + 'a \<Rightarrow> ('a \<Rightarrow> error + 'b) \<Rightarrow> error + 'b" where
  "bnd m f = (case m of Inl e \<Rightarrow> Inl e | Inr x \<Rightarrow> f x)"

fun map_all :: "('a \<Rightarrow> error + 'b) \<Rightarrow> 'a list \<Rightarrow> error + 'b list" where
  "map_all f [] = Inr []"
| "map_all f (x # xs) = bnd (f x) (\<lambda>y. bnd (map_all f xs) (\<lambda>ys. Inr (y # ys)))"

section \<open>Clock, calendar and ISO-8601 text\<close>

text \<open>
  \<^verbatim>\<open>datetime.now(timezone.utc)\<close> and \<^verbatim>\<open>datetime.now()\<close> read the clock; the
  readings are inputs of each request. A \<^verbatim>\<open>datetime\<close> holds a calendar date
  (years 1 to 9999) and a time of day. \<^verbatim>\<open>isoformat()\<close> prints fixed-width decimal
  fields; the digit functions below print a field modulo its width, which is the field
  itself for every value a \<^verbatim>\<open>datetime\<close> can hold.
\<close>

record datetime =
  dt_date :: date
  hour :: nat
  minute :: nat
  second :: nat
  microsecond :: nat

definition digit :: "nat \<Rightarrow> char" where
  "digit n = ''0123456789abcdef'' ! (n mod 16)"

definition pad2 :: "nat \<Rightarrow> string" where
  "pad2 n = [digit (n div 10 mod 10), digit (n mod 10)]"

definition pad4 :: "nat \<Rightarrow> string" where
  "pad4 n = [digit (n div 1000 mod 10), digit (n div 100 mod 10),
             digit (n div 10 mod 10), digit (n mod 10)]"

definition pad6 :: "nat \<Rightarrow> string" where
  "pad6 n = [digit (n div 100000 mod 10), digit (n div 10000 mod 10)] @ pad4 n"

definition is_leap :: "nat \<Rightarrow> bool" where
  "is_leap y = (y mod 4 = 0 \<and> (y mod 100 \<noteq> 0 \<or> y mod 400 = 0))"

definition days_in_month :: "nat \<Rightarrow> nat \<Rightarrow> nat" where
  "days_in_month y m =
     (if m = 2 then (if is_leap y then 29 else 28)
      else if m = 4 \<or> m = 6 \<or> m = 9 \<or> m = 11 then 30 else 31)"

definition valid_date :: "date \<Rightarrow> bool" where
  "valid_date d =
     (1 \<le> year d \<and> year d \<le> 9999 \<and> 1 \<le> month d \<and> month d \<le> 12 \<and>
      1 \<le> day d \<and> day d \<le> days_in_month (year d) (month d))"

definition date_le :: "date \<Rightarrow> date \<Rightarrow> bool" where
  "date_le a b =
     (year a < year b \<or>
      (year a = year b \<and> (month a < month b \<or> (month a = month b \<and> day a \<le> day b))))"

definition next_day :: "date \<Rightarrow> date" where
  "next_day d =
     (if day d < days_in_month (year d) (month d) then d\<lparr>day := day d + 1\<rparr>
      else if month d < 12 then d\<lparr>month := month d + 1, day := 1\<rparr>
      else \<lparr>year = year d + 1, month = 1, day = 1\<rparr>)"

text \<open>
  \<^verbatim>\<open>d + timedelta(days=n)\<close>: the date \<open>n\<close> calendar days later; Python raises
  \<^verbatim>\<open>OverflowError\<close> when the result leaves the years a date can hold.
\<close>

definition add_days :: "nat \<Rightarrow> date \<Rightarrow> error + date" where
  "add_days n d =
     (let r = (next_day ^^ n) d in if year r \<le> 9999 then Inr r else Inl OverflowError)"

definition date_isoformat :: "date \<Rightarrow> string" where
  "date_isoformat d = pad4 (year d) @ ''-'' @ pad2 (month d) @ ''-'' @ pad2 (day d)"

definition time_isoformat :: "datetime \<Rightarrow> string" where
  "time_isoformat t =
     pad2 (hour t) @ '':'' @ pad2 (minute t) @ '':'' @ pad2 (second t) @
     (if microsecond t = 0 then [] else ''.'' @ pad6 (microsecond t))"

text \<open>\<^verbatim>\<open>datetime.now().isoformat()\<close>: a naive local time, no offset.\<close>

definition isoformat :: "datetime \<Rightarrow> string" where
  "isoformat t = date_isoformat (dt_date t) @ ''T'' @ time_isoformat t"

text \<open>\<^verbatim>\<open>datetime.now(timezone.utc).isoformat()\<close>.\<close>

definition isoformat_utc :: "datetime \<Rightarrow> string" where
  "isoformat_utc t = isoformat t @ ''+00:00''"

text \<open>\<^verbatim>\<open>strftime("%Y-%m")\<close>, with the year zero-padded to four digits.\<close>

definition strftime_Ym :: "datetime \<Rightarrow> string" where
  "strftime_Ym t = pad4 (year (dt_date t)) @ ''-'' @ pad2 (month (dt_date t))"

section \<open>Generated identifiers\<close>

text \<open>
  \<^verbatim>\<open>str(uuid.uuid4())\<close>: sixteen random bytes with the variant and version bits set,
  printed as 32 hexadecimal digits in groups of 8-4-4-4-12.
\<close>

definition uuid4_int :: "128 word \<Rightarrow> 128 word" where
  "uuid4_int r =
     (let a = r AND NOT (push_bit 48 0xc000);
          b = a OR push_bit 48 0x8000;
          c = b AND NOT (push_bit 64 0xf000)
      in c OR push_bit 76 4)"

definition hex32 :: "128 word \<Rightarrow> string" where
  "hex32 w = map (\<lambda>i. digit (unat (drop_bit (4 * (31 - i)) w AND 15))) [0..<32]"

definition uuid_str :: "128 word \<Rightarrow> string" where
  "uuid_str w =
     (let h = hex32 w
      in take 8 h @ ''-'' @ take 4 (drop 8 h) @ ''-'' @ take 4 (drop 12 h) @ ''-'' @
         take 4 (drop 16 h) @ ''-'' @ drop 20 h)"

definition uuid4 :: "128 word \<Rightarrow> string" where
  "uuid4 r = uuid_str (uuid4_int r)"

text \<open>What one request draws from its environment.\<close>

record env =
  utc_now :: datetime
  local_now :: datetime
  rand :: "128 word"
  object_id :: nat

section \<open>The store's pattern matcher\<close>

text \<open>
  The \<^verbatim>\<open>$regex\<close> operator hands its pattern to the store's Perl-compatible matcher.
  The model covers the patterns built from literal ASCII characters, \<^verbatim>\<open>.\<close> (any
  character but a newline), a postfix \<^verbatim>\<open>*\<close> on a single character or \<^verbatim>\<open>.\<close>, a
  leading \<^verbatim>\<open>^\<close> and a trailing \<^verbatim>\<open>$\<close>. \<open>rx_compile\<close> returns \<open>None\<close> for every
  other pattern (one that uses another metacharacter or a character outside ASCII, or
  is malformed); what the store does with those is outside the model, and a query
  holding one ends in \<open>PatternNotModelled\<close>. The option \<^verbatim>\<open>i\<close> folds the case of
  the ASCII letters; the subject is matched byte by byte, so the matcher's treatment of
  characters outside ASCII in a stored string (Unicode case folding, \<^verbatim>\<open>.\<close> on a
  multi-byte character) is outside the model too.
\<close>

datatype rx_item = RChar char | RAny

datatype rx_piece = Once rx_item | Star rx_item

record rx =
  anchored_start :: bool
  pieces :: "rx_piece list"
  anchored_end :: bool

definition is_meta :: "char \<Rightarrow> bool" where
  "is_meta c = (c = CHR 0x5C \<or> c \<in> set ''^$.|?*+()[]{}'')"

text \<open>A character that is a pattern for itself: ASCII and no metacharacter.\<close>

definition plain_char :: "char \<Rightarrow> bool" where
  "plain_char c = (\<not> is_meta c \<and> c < CHR 0x80)"

definition rx_atom :: "char \<Rightarrow> rx_item option" where
  "rx_atom c = (if c = CHR ''.'' then Some RAny else if plain_char c then Some (RChar c) else None)"

fun parse_pieces :: "string \<Rightarrow> rx_piece list option" where
  "parse_pieces [] = Some []"
| "parse_pieces [c] = map_option (\<lambda>a. [Once a]) (rx_atom c)"
| "parse_pieces (c # d # cs) =
     (case rx_atom c of
        None \<Rightarrow> None
      | Some a \<Rightarrow>
          if d = CHR ''*'' then map_option (Cons (Star a)) (parse_pieces cs)
          else map_option (Cons (Once a)) (parse_pieces (d # cs)))"

definition rx_compile :: "string \<Rightarrow> rx option" where
  "rx_compile pat =
     (let s = (pat \<noteq> [] \<and> hd pat = CHR ''^'');
          body = (if s then tl pat else pat);
          e = (body \<noteq> [] \<and> last body = CHR ''$'');
          body' = (if e then butlast body else body)
      in map_option (\<lambda>ps. \<lparr>anchored_start = s, pieces = ps, anchored_end = e\<rparr>)
           (parse_pieces body'))"

definition to_lower :: "char \<Rightarrow> char" where
  "to_lower c =
     (case map_of (zip ''ABCDEFGHIJKLMNOPQRSTUVWXYZ'' ''abcdefghijklmnopqrstuvwxyz'') c of
        None \<Rightarrow> c
      | Some l \<Rightarrow> l)"

definition lower :: "string \<Rightarrow> string" where
  "lower s = map to_lower s"

fun item_matches :: "bool \<Rightarrow> rx_item \<Rightarrow> char \<Rightarrow> bool" where
  "item_matches ci RAny x = (x \<noteq> CHR 0x0A)"
| "item_matches ci (RChar c) x = (if ci then to_lower x = to_lower c else x = c)"

text \<open>
  Does the piece list match a prefix of the subject (up to its end, when the pattern is
  anchored there: \<^verbatim>\<open>$\<close> also matches before a final newline)?
\<close>

fun match_here :: "bool \<Rightarrow> bool \<Rightarrow> rx_piece list \<Rightarrow> string \<Rightarrow> bool" where
  "match_here ci ae [] s = (\<not> ae \<or> s = [] \<or> s = [CHR 0x0A])"
| "match_here ci ae (Once a # ps) [] = False"
| "match_here ci ae (Once a # ps) (x # xs) = (item_matches ci a x \<and> match_here ci ae ps xs)"
| "match_here ci ae (Star a # ps) [] = match_here ci ae ps []"
| "match_here ci ae (Star a # ps) (x # xs) =
     (match_here ci ae ps (x # xs) \<or> (item_matches ci a x \<and> match_here ci ae (Star a # ps) xs))"

fun match_from :: "bool \<Rightarrow> bool \<Rightarrow> rx_piece list \<Rightarrow> string \<Rightarrow> bool" where
  "match_from ci ae ps [] = match_here ci ae ps []"
| "match_from ci ae ps (x # xs) = (match_here ci ae ps (x # xs) \<or> match_from ci ae ps xs)"

definition rx_exec :: "rx \<Rightarrow> bool \<Rightarrow> string \<Rightarrow> bool" where
  "rx_exec r ci s =
     (if anchored_start r then match_here ci (anchored_end r) (pieces r) s
      else match_from ci (anchored_end r) (pieces r) s)"

text \<open>
  \<^verbatim>\<open>{"$regex": pat, "$options": opts}\<close> against one string: an unanchored search.
\<close>

definition regex_search :: "string \<Rightarrow> string \<Rightarrow> string \<Rightarrow> bool" where
  "regex_search pat opts s =
     (case rx_compile pat of None \<Rightarrow> False | Some r \<Rightarrow> rx_exec r (CHR ''i'' \<in> set opts) s)"

definition regex_ok :: "string \<Rightarrow> string \<Rightarrow> bool" where
  "regex_ok pat opts = (rx_compile pat \<noteq> None \<and> (opts = [] \<or> opts = ''i''))"

section \<open>Queries and collections\<close>

text \<open>
  A filter document maps field names to conditions, all of which must hold; the key
  \<^verbatim>\<open>$or\<close> holds a list of filter documents, one of which must hold. The conditions
  are the ones \<^verbatim>\<open>server.py\<close> writes: a plain value (equality), \<^verbatim>\<open>$ne\<close>,
  \<^verbatim>\<open>$lte\<close> with a string bound, \<^verbatim>\<open>$regex\<close> with \<^verbatim>\<open>$options\<close>, and \<^verbatim>\<open>$in\<close>.
  Field names are top-level keys. A condition on a field that holds an array is tested
  on the array and on each of its elements; a comparison only sees values of the
  bound's own type, so \<^verbatim>\<open>$lte\<close> and \<^verbatim>\<open>$regex\<close> see strings only; a missing field
  equals \<^verbatim>\<open>null\<close>.
\<close>

datatype cond =
    Equals val
  | Ne val
  | Lte string
  | Regex string string
  | In "val list"

datatype clause = Key string cond | Or "(string \<times> cond) list list"

type_synonym query = "clause list"

fun eq_matches :: "val \<Rightarrow> val option \<Rightarrow> bool" where
  "eq_matches v None = (v = VNull)"
| "eq_matches v (Some (VList xs)) = (v = VList xs \<or> v \<in> set xs)"
| "eq_matches v (Some w) = (w = v)"

fun strings_of :: "val option \<Rightarrow> string list" where
  "strings_of (Some (VStr s)) = [s]"
| "strings_of (Some (VList xs)) = concat (map (\<lambda>x. case x of VStr s \<Rightarrow> [s] | _ \<Rightarrow> []) xs)"
| "strings_of _ = []"

fun cond_matches :: "cond \<Rightarrow> val option \<Rightarrow> bool" where
  "cond_matches (Equals v) fv = eq_matches v fv"
| "cond_matches (Ne v) fv = (\<not> eq_matches v fv)"
| "cond_matches (Lte b) fv = list_ex (\<lambda>s. s \<le> b) (strings_of fv)"
| "cond_matches (Regex pat opts) fv = list_ex (regex_search pat opts) (strings_of fv)"
| "cond_matches (In vs) fv = list_ex (\<lambda>v. eq_matches v fv) vs"

definition fields_match :: "(string \<times> cond) list \<Rightarrow> doc \<Rightarrow> bool" where
  "fields_match q d = list_all (\<lambda>(k, c). cond_matches c (map_of d k)) q"

fun clause_matches :: "clause \<Rightarrow> doc \<Rightarrow> bool" where
  "clause_matches (Key k c) d = cond_matches c (map_of d k)"
| "clause_matches (Or qs) d = list_ex (\<lambda>q. fields_match q d) qs"

definition matches :: "query \<Rightarrow> doc \<Rightarrow> bool" where
  "matches q d = list_all (\<lambda>cl. clause_matches cl d) q"

fun cond_ok :: "cond \<Rightarrow> bool" where
  "cond_ok (Regex pat opts) = regex_ok pat opts"
| "cond_ok _ = True"

fun clause_ok :: "clause \<Rightarrow> bool" where
  "clause_ok (Key k c) = cond_ok c"
| "clause_ok (Or qs) = list_all (list_all (\<lambda>(k, c). cond_ok c)) qs"

definition query_ok :: "query \<Rightarrow> bool" where
  "query_ok q = list_all clause_ok q"

text \<open>
  A collection is the list of its documents in natural order. \<open>find_docs\<close> is
  \<^verbatim>\<open>collection.find(query)\<close>, the whole cursor; \<^verbatim>\<open>.to_list(n)\<close> reads its first
  \<open>n\<close> documents.
\<close>

definition find_docs :: "query \<Rightarrow> doc list \<Rightarrow> error + doc list" where
  "find_docs q c = (if query_ok q then Inr (filter (matches q) c) else Inl PatternNotModelled)"

definition to_list :: "nat \<Rightarrow> doc list \<Rightarrow> doc list" where
  "to_list n ds = take n ds"

definition find_one :: "query \<Rightarrow> doc list \<Rightarrow> error + doc option" where
  "find_one q c = bnd (find_docs q c) (\<lambda>ds. Inr (case ds of [] \<Rightarrow> None | d # _ \<Rightarrow> Some d))"

definition count_documents :: "query \<Rightarrow> doc list \<Rightarrow> error + nat" where
  "count_documents q c = bnd (find_docs q c) (\<lambda>ds. Inr (length ds))"

text \<open>
  \<^verbatim>\<open>insert_one\<close>: the document is stored at the end, with the driver's
  \<^verbatim>\<open>ObjectId\<close> under \<^verbatim>\<open>_id\<close> when it brings none. No collection has a unique index
  on \<^verbatim>\<open>id\<close>.
\<close>

definition insert_one :: "doc \<Rightarrow> nat \<Rightarrow> doc list \<Rightarrow> doc list" where
  "insert_one d oid c =
     (if map_of d ''_id'' = None then c @ [(''_id'', VObjectId oid) # d] else c @ [d])"

text \<open>
  \<^verbatim>\<open>update_one(filter, {"$set": fields})\<close>: the first matching document gets the
  fields assigned. \<^verbatim>\<open>matched_count\<close> counts the document found,
  \<^verbatim>\<open>modified_count\<close> counts it only when the assignment changed it.
\<close>

definition apply_set :: "doc \<Rightarrow> doc \<Rightarrow> doc" where
  "apply_set d upd = fold (\<lambda>(k, v). AList.update k v) upd d"

record update_result =
  matched_count :: nat
  modified_count :: nat

fun update_first :: "query \<Rightarrow> doc \<Rightarrow> doc list \<Rightarrow> doc list \<times> update_result" where
  "update_first q upd [] = ([], \<lparr>matched_count = 0, modified_count = 0\<rparr>)"
| "update_first q upd (d # ds) =
     (if matches q d
      then (apply_set d upd # ds,
            \<lparr>matched_count = 1, modified_count = (if apply_set d upd = d then 0 else 1)\<rparr>)
      else (case update_first q upd ds of (ds', r) \<Rightarrow> (d # ds', r)))"

definition update_one :: "query \<Rightarrow> doc \<Rightarrow> doc list \<Rightarrow> error + doc list \<times> update_result" where
  "update_one q upd c = (if query_ok q then Inr (update_first q upd c) else Inl PatternNotModelled)"

text \<open>\<^verbatim>\<open>delete_one\<close>: the first matching document is removed.\<close>

fun delete_first :: "query \<Rightarrow> doc list \<Rightarrow> doc list \<times> nat" where
  "delete_first q [] = ([], 0)"
| "delete_first q (d # ds) =
     (if matches q d then (ds, 1)
      else (case delete_first q ds of (ds', n) \<Rightarrow> (d # ds', n)))"

definition delete_one :: "query \<Rightarrow> doc list \<Rightarrow> error + doc list \<times> nat" where
  "delete_one q c = (if query_ok q then Inr (delete_first q c) else Inl PatternNotModelled)"

record store =
  patients :: "doc list"
  tasks :: "doc list"
  contact_logs :: "doc list"

section \<open>The pydantic models\<close>

text \<open>
  Each model is a record; its fields carry a prefix (\<open>p_\<close> Patient, \<open>pc_\<close>
  PatientCreate, \<open>pu_\<close> PatientUpdate, \<open>d_\<close> Doctor, \<open>t_\<close> Task, \<open>cl_\<close>
  ContactLog), since the models share field names. \<open>X_dict\<close> is \<^verbatim>\<open>x.dict()\<close>, with
  the fields in declaration order; \<open>X_init env d\<close> is \<^verbatim>\<open>X(**d)\<close>: a missing key
  takes the field's default (drawn from the environment for a \<^verbatim>\<open>default_factory\<close>),
  keys that are no field are ignored, and \<^verbatim>\<open>ValidationError\<close> is raised for a missing
  required field. A value of a type that \<^verbatim>\<open>dict()\<close> never gives a field is refused
  as well; pydantic's coercions of such values are not modelled.
\<close>

datatype TaskStatus = PENDING | IN_PROGRESS | COMPLETED | FAILED

datatype TaskType =
  CALL_PATIENT | REQUEST_PAPERWORK | TAN_RENEWAL | BILLING_FOLLOW_UP | MEDICAID_VERIFICATION

datatype ContactOutcome = CONTACTED | NO_ANSWER | BUSY | DISCONNECTED | LEFT_MESSAGE

fun TaskStatus_value :: "TaskStatus \<Rightarrow> string" where
  "TaskStatus_value PENDING = ''pending''"
| "TaskStatus_value IN_PROGRESS = ''in_progress''"
| "TaskStatus_value COMPLETED = ''completed''"
| "TaskStatus_value FAILED = ''failed''"

fun TaskType_value :: "TaskType \<Rightarrow> string" where
  "TaskType_value CALL_PATIENT = ''call_patient''"
| "TaskType_value REQUEST_PAPERWORK = ''request_paperwork''"
| "TaskType_value TAN_RENEWAL = ''tan_renewal''"
| "TaskType_value BILLING_FOLLOW_UP = ''billing_follow_up''"
| "TaskType_value MEDICAID_VERIFICATION = ''medicaid_verification''"

fun ContactOutcome_value :: "ContactOutcome \<Rightarrow> string" where
  "ContactOutcome_value CONTACTED = ''contacted''"
| "ContactOutcome_value NO_ANSWER = ''no_answer''"
| "ContactOutcome_value BUSY = ''busy''"
| "ContactOutcome_value DISCONNECTED = ''disconnected''"
| "ContactOutcome_value LEFT_MESSAGE = ''left_message''"

text \<open>The member of an enumeration with a given value, as \<^verbatim>\<open>TaskStatus(v)\<close> finds it.\<close>

definition enum_of :: "('a \<Rightarrow> string) \<Rightarrow> 'a list \<Rightarrow> string \<Rightarrow> 'a option" where
  "enum_of value_of members v = List.find (\<lambda>m. value_of m = v) members"

definition TaskStatus_of :: "string \<Rightarrow> TaskStatus option" where
  "TaskStatus_of = enum_of TaskStatus_value [PENDING, IN_PROGRESS, COMPLETED, FAILED]"

definition TaskType_of :: "string \<Rightarrow> TaskType option" where
  "TaskType_of =
     enum_of TaskType_value
       [CALL_PATIENT, REQUEST_PAPERWORK, TAN_RENEWAL, BILLING_FOLLOW_UP, MEDICAID_VERIFICATION]"

definition ContactOutcome_of :: "string \<Rightarrow> ContactOutcome option" where
  "ContactOutcome_of =
     enum_of ContactOutcome_value [CONTACTED, NO_ANSWER, BUSY, DISCONNECTED, LEFT_MESSAGE]"

subsection \<open>Field validators\<close>

definition ostr :: "string option \<Rightarrow> val" where
  "ostr x = (case x of None \<Rightarrow> VNull | Some s \<Rightarrow> VStr s)"

definition strs :: "string list \<Rightarrow> val" where
  "strs xs = VList (map VStr xs)"

definition req_str :: "doc \<Rightarrow> string \<Rightarrow> error + string" where
  "req_str d k = (case map_of d k of Some (VStr s) \<Rightarrow> Inr s | _ \<Rightarrow> Inl ValidationError)"

definition def_str :: "doc \<Rightarrow> string \<Rightarrow> string \<Rightarrow> error + string" where
  "def_str d k dflt =
     (case map_of d k of None \<Rightarrow> Inr dflt | Some (VStr s) \<Rightarrow> Inr s | _ \<Rightarrow> Inl ValidationError)"

definition opt_str :: "doc \<Rightarrow> string \<Rightarrow> error + string option" where
  "opt_str d k =
     (case map_of d k of
        None \<Rightarrow> Inr None
      | Some VNull \<Rightarrow> Inr None
      | Some (VStr s) \<Rightarrow> Inr (Some s)
      | _ \<Rightarrow> Inl ValidationError)"

definition def_bool :: "doc \<Rightarrow> string \<Rightarrow> bool \<Rightarrow> error + bool" where
  "def_bool d k dflt =
     (case map_of d k of None \<Rightarrow> Inr dflt | Some (VBool b) \<Rightarrow> Inr b | _ \<Rightarrow> Inl ValidationError)"

definition str_item :: "val \<Rightarrow> error + string" where
  "str_item x = (case x of VStr s \<Rightarrow> Inr s | _ \<Rightarrow> Inl ValidationError)"

definition def_str_list :: "doc \<Rightarrow> string \<Rightarrow> string list \<Rightarrow> error + string list" where
  "def_str_list d k dflt =
     (case map_of d k of
        None \<Rightarrow> Inr dflt
      | Some (VList xs) \<Rightarrow> map_all str_item xs
      | _ \<Rightarrow> Inl ValidationError)"

definition req_enum :: "(string \<Rightarrow> 'a option) \<Rightarrow> doc \<Rightarrow> string \<Rightarrow> error + 'a" where
  "req_enum of_value d k =
     (case map_of d k of
        Some (VStr s) \<Rightarrow> (case of_value s of None \<Rightarrow> Inl ValidationError | Some m \<Rightarrow> Inr m)
      | _ \<Rightarrow> Inl ValidationError)"

definition def_enum :: "(string \<Rightarrow> 'a option) \<Rightarrow> doc \<Rightarrow> string \<Rightarrow> 'a \<Rightarrow> error + 'a" where
  "def_enum of_value d k dflt =
     (case map_of d k of None \<Rightarrow> Inr dflt | Some _ \<Rightarrow> req_enum of_value d k)"

subsection \<open>Doctor and Patient\<close>

record Doctor =
  d_name :: string
  d_phone :: string
  d_fax :: string
  d_address :: "string option"

definition Doctor_dict :: "Doctor \<Rightarrow> doc" where
  "Doctor_dict x =
     [(''name'', VStr (d_name x)), (''phone'', VStr (d_phone x)), (''fax'', VStr (d_fax x)),
      (''address'', ostr (d_address x))]"

definition Doctor_init :: "doc \<Rightarrow> error + Doctor" where
  "Doctor_init d =
     bnd (req_str d ''name'') (\<lambda>n.
     bnd (req_str d ''phone'') (\<lambda>p.
     bnd (req_str d ''fax'') (\<lambda>f.
     bnd (opt_str d ''address'') (\<lambda>a.
     Inr \<lparr>d_name = n, d_phone = p, d_fax = f, d_address = a\<rparr>))))"

definition req_doctor :: "doc \<Rightarrow> string \<Rightarrow> error + Doctor" where
  "req_doctor d k = (case map_of d k of Some (VDoc x) \<Rightarrow> Doctor_init x | _ \<Rightarrow> Inl ValidationError)"

record Patient =
  p_id :: string
  p_first_name :: string
  p_last_name :: string
  p_phone :: string
  p_address :: string
  p_height :: "string option"
  p_weight :: "string option"
  p_icd10_codes :: "string list"
  p_doctor :: Doctor
  p_current_tan :: string
  p_tan_expiry_date :: string
  p_medicaid_id :: string
  p_medicaid_eligible :: bool
  p_last_billing_date :: "string option"
  p_products :: "string list"
  p_notes :: string
  p_created_at :: string
  p_updated_at :: string

definition Patient_dict :: "Patient \<Rightarrow> doc" where
  "Patient_dict x =
     [(''id'', VStr (p_id x)),
      (''first_name'', VStr (p_first_name x)),
      (''last_name'', VStr (p_last_name x)),
      (''phone'', VStr (p_phone x)),
      (''address'', VStr (p_address x)),
      (''height'', ostr (p_height x)),
      (''weight'', ostr (p_weight x)),
      (''icd10_codes'', strs (p_icd10_codes x)),
      (''doctor'', VDoc (Doctor_dict (p_doctor x))),
      (''current_tan'', VStr (p_current_tan x)),
      (''tan_expiry_date'', VStr (p_tan_expiry_date x)),
      (''medicaid_id'', VStr (p_medicaid_id x)),
      (''medicaid_eligible'', VBool (p_medicaid_eligible x)),
      (''last_billing_date'', ostr (p_last_billing_date x)),
      (''products'', strs (p_products x)),
      (''notes'', VStr (p_notes x)),
      (''created_at'', VStr (p_created_at x)),
      (''updated_at'', VStr (p_updated_at x))]"

definition Patient_init :: "env \<Rightarrow> doc \<Rightarrow> error + Patient" where
  "Patient_init e d =
     bnd (def_str d ''id'' (uuid4 (rand e))) (\<lambda>i.
     bnd (req_str d ''first_name'') (\<lambda>fn.
     bnd (req_str d ''last_name'') (\<lambda>ln.
     bnd (req_str d ''phone'') (\<lambda>ph.
     bnd (req_str d ''address'') (\<lambda>ad.
     bnd (opt_str d ''height'') (\<lambda>he.
     bnd (opt_str d ''weight'') (\<lambda>we.
     bnd (def_str_list d ''icd10_codes'' []) (\<lambda>ic.
     bnd (req_doctor d ''doctor'') (\<lambda>dr.
     bnd (req_str d ''current_tan'') (\<lambda>ct.
     bnd (req_str d ''tan_expiry_date'') (\<lambda>te.
     bnd (req_str d ''medicaid_id'') (\<lambda>mi.
     bnd (def_bool d ''medicaid_eligible'' True) (\<lambda>me.
     bnd (opt_str d ''last_billing_date'') (\<lambda>lb.
     bnd (def_str_list d ''products'' []) (\<lambda>pr.
     bnd (def_str d ''notes'' []) (\<lambda>no.
     bnd (def_str d ''created_at'' (isoformat_utc (utc_now e))) (\<lambda>ca.
     bnd (def_str d ''updated_at'' (isoformat_utc (utc_now e))) (\<lambda>ua.
     Inr \<lparr>p_id = i, p_first_name = fn, p_last_name = ln, p_phone = ph, p_address = ad,
          p_height = he, p_weight = we, p_icd10_codes = ic, p_doctor = dr,
          p_current_tan = ct, p_tan_expiry_date = te, p_medicaid_id = mi,
          p_medicaid_eligible = me, p_last_billing_date = lb, p_products = pr,
          p_notes = no, p_created_at = ca, p_updated_at = ua\<rparr>))))))))))))))))))"

record PatientCreate =
  pc_first_name :: string
  pc_last_name :: string
  pc_phone :: string
  pc_address :: string
  pc_height :: "string option"
  pc_weight :: "string option"
  pc_icd10_codes :: "string list"
  pc_doctor :: Doctor
  pc_current_tan :: string
  pc_tan_expiry_date :: string
  pc_medicaid_id :: string
  pc_medicaid_eligible :: bool
  pc_products :: "string list"
  pc_notes :: string

definition PatientCreate_dict :: "PatientCreate \<Rightarrow> doc" where
  "PatientCreate_dict x =
     [(''first_name'', VStr (pc_first_name x)),
      (''last_name'', VStr (pc_last_name x)),
      (''phone'', VStr (pc_phone x)),
      (''address'', VStr (pc_address x)),
      (''height'', ostr (pc_height x)),
      (''weight'', ostr (pc_weight x)),
      (''icd10_codes'', strs (pc_icd10_codes x)),
      (''doctor'', VDoc (Doctor_dict (pc_doctor x))),
      (''current_tan'', VStr (pc_current_tan x)),
      (''tan_expiry_date'', VStr (pc_tan_expiry_date x)),
      (''medicaid_id'', VStr (pc_medicaid_id x)),
      (''medicaid_eligible'', VBool (pc_medicaid_eligible x)),
      (''products'', strs (pc_products x)),
      (''notes'', VStr (pc_notes x))]"

record PatientUpdate =
  pu_first_name :: "string option"
  pu_last_name :: "string option"
  pu_phone :: "string option"
  pu_address :: "string option"
  pu_height :: "string option"
  pu_weight :: "string option"
  pu_icd10_codes :: "string list option"
  pu_doctor :: "Doctor option"
  pu_current_tan :: "string option"
  pu_tan_expiry_date :: "string option"
  pu_medicaid_id :: "string option"
  pu_medicaid_eligible :: "bool option"
  pu_last_billing_date :: "string option"
  pu_products :: "string list option"
  pu_notes :: "string option"

definition oval :: "('a \<Rightarrow> val) \<Rightarrow> 'a option \<Rightarrow> val" where
  "oval f x = (case x of None \<Rightarrow> VNull | Some y \<Rightarrow> f y)"

definition PatientUpdate_dict :: "PatientUpdate \<Rightarrow> doc" where
  "PatientUpdate_dict x =
     [(''first_name'', ostr (pu_first_name x)),
      (''last_name'', ostr (pu_last_name x)),
      (''phone'', ostr (pu_phone x)),
      (''address'', ostr (pu_address x)),
      (''height'', ostr (pu_height x)),
      (''weight'', ostr (pu_weight x)),
      (''icd10_codes'', oval strs (pu_icd10_codes x)),
      (''doctor'', oval (\<lambda>y. VDoc (Doctor_dict y)) (pu_doctor x)),
      (''current_tan'', ostr (pu_current_tan x)),
      (''tan_expiry_date'', ostr (pu_tan_expiry_date x)),
      (''medicaid_id'', ostr (pu_medicaid_id x)),
      (''medicaid_eligible'', oval VBool (pu_medicaid_eligible x)),
      (''last_billing_date'', ostr (pu_last_billing_date x)),
      (''products'', oval strs (pu_products x)),
      (''notes'', ostr (pu_notes x))]"

subsection \<open>Task and ContactLog\<close>

record Task =
  t_id :: string
  t_patient_id :: string
  t_task_type :: TaskType
  t_title :: string
  t_description :: string
  t_assigned_to :: string
  t_status :: TaskStatus
  t_due_date :: "string option"
  t_created_at :: string
  t_completed_at :: "string option"

definition Task_dict :: "Task \<Rightarrow> doc" where
  "Task_dict x =
     [(''id'', VStr (t_id x)),
      (''patient_id'', VStr (t_patient_id x)),
      (''task_type'', VStr (TaskType_value (t_task_type x))),
      (''title'', VStr (t_title x)),
      (''description'', VStr (t_description x)),
      (''assigned_to'', VStr (t_assigned_to x)),
      (''status'', VStr (TaskStatus_value (t_status x))),
      (''due_date'', ostr (t_due_date x)),
      (''created_at'', VStr (t_created_at x)),
      (''completed_at'', ostr (t_completed_at x))]"

definition Task_init :: "env \<Rightarrow> doc \<Rightarrow> error + Task" where
  "Task_init e d =
     bnd (def_str d ''id'' (uuid4 (rand e))) (\<lambda>i.
     bnd (req_str d ''patient_id'') (\<lambda>pid.
     bnd (req_enum TaskType_of d ''task_type'') (\<lambda>ty.
     bnd (req_str d ''title'') (\<lambda>ti.
     bnd (def_str d ''description'' []) (\<lambda>de.
     bnd (def_str d ''assigned_to'' ''admin'') (\<lambda>asg.
     bnd (def_enum TaskStatus_of d ''status'' PENDING) (\<lambda>st.
     bnd (opt_str d ''due_date'') (\<lambda>du.
     bnd (def_str d ''created_at'' (isoformat_utc (utc_now e))) (\<lambda>ca.
     bnd (opt_str d ''completed_at'') (\<lambda>co.
     Inr \<lparr>t_id = i, t_patient_id = pid, t_task_type = ty, t_title = ti, t_description = de,
          t_assigned_to = asg, t_status = st, t_due_date = du, t_created_at = ca,
          t_completed_at = co\<rparr>))))))))))"

record ContactLog =
  cl_id :: string
  cl_patient_id :: string
  cl_contact_date :: string
  cl_outcome :: ContactOutcome
  cl_notes :: string
  cl_follow_up_needed :: bool
  cl_follow_up_date :: "string option"

definition ContactLog_dict :: "ContactLog \<Rightarrow> doc" where
  "ContactLog_dict x =
     [(''id'', VStr (cl_id x)),
      (''patient_id'', VStr (cl_patient_id x)),
      (''contact_date'', VStr (cl_contact_date x)),
      (''outcome'', VStr (ContactOutcome_value (cl_outcome x))),
      (''notes'', VStr (cl_notes x)),
      (''follow_up_needed'', VBool (cl_follow_up_needed x)),
      (''follow_up_date'', ostr (cl_follow_up_date x))]"

definition ContactLog_init :: "env \<Rightarrow> doc \<Rightarrow> error + ContactLog" where
  "ContactLog_init e d =
     bnd (def_str d ''id'' (uuid4 (rand e))) (\<lambda>i.
     bnd (req_str d ''patient_id'') (\<lambda>pid.
     bnd (def_str d ''contact_date'' (isoformat_utc (utc_now e))) (\<lambda>cd.
     bnd (req_enum ContactOutcome_of d ''outcome'') (\<lambda>oc.
     bnd (def_str d ''notes'' []) (\<lambda>no.
     bnd (def_bool d ''follow_up_needed'' False) (\<lambda>fu.
     bnd (opt_str d ''follow_up_date'') (\<lambda>fd.
     Inr \<lparr>cl_id = i, cl_patient_id = pid, cl_contact_date = cd, cl_outcome = oc,
          cl_notes = no, cl_follow_up_needed = fu, cl_follow_up_date = fd\<rparr>)))))))"

subsection \<open>The inputs of the other create endpoints\<close>

record TaskCreate =
  tc_patient_id :: string
  tc_task_type :: TaskType
  tc_title :: string
  tc_description :: string
  tc_due_date :: "string option"

definition TaskCreate_dict :: "TaskCreate \<Rightarrow> doc" where
  "TaskCreate_dict x =
     [(''patient_id'', VStr (tc_patient_id x)),
      (''task_type'', VStr (TaskType_value (tc_task_type x))),
      (''title'', VStr (tc_title x)),
      (''description'', VStr (tc_description x)),
      (''due_date'', ostr (tc_due_date x))]"

record ContactLogCreate =
  lc_patient_id :: string
  lc_outcome :: ContactOutcome
  lc_notes :: string
  lc_follow_up_needed :: bool
  lc_follow_up_date :: "string option"

definition ContactLogCreate_dict :: "ContactLogCreate \<Rightarrow> doc" where
  "ContactLogCreate_dict x =
     [(''patient_id'', VStr (lc_patient_id x)),
      (''outcome'', VStr (ContactOutcome_value (lc_outcome x))),
      (''notes'', VStr (lc_notes x)),
      (''follow_up_needed'', VBool (lc_follow_up_needed x)),
      (''follow_up_date'', ostr (lc_follow_up_date x))]"

section \<open>The endpoints\<close>

text \<open>
  An endpoint takes the request's environment, its parameters and the store. One that
  writes returns its outcome with the store it leaves behind; one that only reads
  returns its outcome. A raised exception is an \<open>Inl\<close>.
\<close>

text \<open>
  \<^verbatim>\<open>prepare_for_mongo\<close> replaces each top-level value that is a date object by its
  ISO text.
\<close>

definition mongo_value :: "val \<Rightarrow> val" where
  "mongo_value v = (case v of VDate x \<Rightarrow> VStr (date_isoformat x) | _ \<Rightarrow> v)"

definition prepare_for_mongo :: "doc \<Rightarrow> doc" where
  "prepare_for_mongo data = map (\<lambda>(k, v). (k, mongo_value v)) data"

text \<open>Python's truth value of an optional string, an optional flag, a looked-up document.\<close>

definition truthy_str :: "string option \<Rightarrow> bool" where
  "truthy_str x = (case x of None \<Rightarrow> False | Some t \<Rightarrow> t \<noteq> [])"

definition truthy_bool :: "bool option \<Rightarrow> bool" where
  "truthy_bool x = (case x of None \<Rightarrow> False | Some b \<Rightarrow> b)"

definition truthy_doc :: "doc option \<Rightarrow> bool" where
  "truthy_doc x = (case x of None \<Rightarrow> False | Some d \<Rightarrow> d \<noteq> [])"

text \<open>\<^verbatim>\<open>t + timedelta(days=n)\<close> on a \<^verbatim>\<open>datetime\<close>: the time of day stays.\<close>

definition plus_days :: "datetime \<Rightarrow> nat \<Rightarrow> error + datetime" where
  "plus_days t n = bnd (add_days n (dt_date t)) (\<lambda>d. Inr (t\<lparr>dt_date := d\<rparr>))"

text \<open>
  \<^verbatim>\<open>POST /patients\<close> (lines 156 to 163): the input's dict is loaded as a Patient,
  which draws the id and the two timestamps, and the Patient's dict is inserted.
\<close>

definition create_patient :: "env \<Rightarrow> PatientCreate \<Rightarrow> store \<Rightarrow> (error + Patient) \<times> store" where
  "create_patient e patient_data s =
     (let patient_dict = PatientCreate_dict patient_data;
          patient_dict = prepare_for_mongo patient_dict
      in case Patient_init e patient_dict of
           Inl err \<Rightarrow> (Inl err, s)
         | Inr patient_obj \<Rightarrow>
             (let patient_dict = Patient_dict patient_obj
              in (Inr patient_obj,
                  s\<lparr>patients := insert_one patient_dict (object_id e) (patients s)\<rparr>)))"

text \<open>
  \<^verbatim>\<open>GET /patients\<close> (lines 165 to 186). The query starts empty; a truthy
  \<^verbatim>\<open>search\<close> adds the \<^verbatim>\<open>$or\<close> of three \<^verbatim>\<open>$regex\<close> conditions on the text as
  given, a truthy \<^verbatim>\<open>tan_expiring\<close> adds the \<^verbatim>\<open>$lte\<close> bound; the first 1000
  documents found are loaded.
\<close>

definition get_patients :: "env \<Rightarrow> string option \<Rightarrow> bool option \<Rightarrow> store \<Rightarrow> error + Patient list" where
  "get_patients e search tan_expiring s =
     (let query = [];
          query =
            (case search of
               None \<Rightarrow> query
             | Some text \<Rightarrow>
                 if text \<noteq> [] then
                   query @
                   [Or [[(''first_name'', Regex text ''i'')],
                        [(''last_name'', Regex text ''i'')],
                        [(''phone'', Regex text ''i'')]]]
                 else query)
      in bnd (if truthy_bool tan_expiring
              then bnd (plus_days (local_now e) 30) (\<lambda>t.
                   let thirty_days = isoformat t
                   in Inr (query @ [Key ''tan_expiry_date'' (Lte thirty_days)]))
              else Inr query) (\<lambda>query.
         bnd (find_docs query (patients s)) (\<lambda>cursor.
         map_all (Patient_init e) (to_list 1000 cursor))))"

text \<open>\<^verbatim>\<open>GET /patients/{patient_id}\<close> (lines 188 to 193).\<close>

definition get_patient :: "env \<Rightarrow> string \<Rightarrow> store \<Rightarrow> error + Patient" where
  "get_patient e patient_id s =
     bnd (find_one [Key ''id'' (Equals (VStr patient_id))] (patients s)) (\<lambda>patient.
     case patient of
       None \<Rightarrow> Inl (HTTPException 404 ''Patient not found'')
     | Some d \<Rightarrow>
         if d = [] then Inl (HTTPException 404 ''Patient not found'') else Patient_init e d)"

text \<open>
  \<^verbatim>\<open>PUT /patients/{patient_id}\<close> (lines 195 to 211): look the patient up, keep the
  items of the update's dict that are not \<^verbatim>\<open>None\<close>, add \<^verbatim>\<open>updated_at\<close>,
  \<^verbatim>\<open>$set\<close> them on the first document with the id, read that document again and
  load it.
\<close>

definition update_patient ::
  "env \<Rightarrow> string \<Rightarrow> PatientUpdate \<Rightarrow> store \<Rightarrow> (error + Patient) \<times> store" where
  "update_patient e patient_id patient_update s =
     (case find_one [Key ''id'' (Equals (VStr patient_id))] (patients s) of
        Inl err \<Rightarrow> (Inl err, s)
      | Inr existing_patient \<Rightarrow>
          if \<not> truthy_doc existing_patient
          then (Inl (HTTPException 404 ''Patient not found''), s)
          else
            (let update_dict = filter (\<lambda>(k, v). v \<noteq> VNull) (PatientUpdate_dict patient_update);
                 update_dict =
                   AList.update ''updated_at'' (VStr (isoformat_utc (utc_now e))) update_dict;
                 update_dict = prepare_for_mongo update_dict
             in case update_one [Key ''id'' (Equals (VStr patient_id))] update_dict
                       (patients s) of
                  Inl err \<Rightarrow> (Inl err, s)
                | Inr (ps, r) \<Rightarrow>
                    (let s' = s\<lparr>patients := ps\<rparr>
                     in case find_one [Key ''id'' (Equals (VStr patient_id))] ps of
                          Inl err \<Rightarrow> (Inl err, s')
                        | Inr None \<Rightarrow> (Inl TypeError, s')
                        | Inr (Some updated_patient) \<Rightarrow>
                            (Patient_init e updated_patient, s'))))"

text \<open>\<^verbatim>\<open>DELETE /patients/{patient_id}\<close> (lines 213 to 218).\<close>

definition delete_patient :: "env \<Rightarrow> string \<Rightarrow> store \<Rightarrow> (error + string) \<times> store" where
  "delete_patient e patient_id s =
     (case delete_one [Key ''id'' (Equals (VStr patient_id))] (patients s) of
        Inl err \<Rightarrow> (Inl err, s)
      | Inr (ps, deleted_count) \<Rightarrow>
          if deleted_count = 0
          then (Inl (HTTPException 404 ''Patient not found''), s\<lparr>patients := ps\<rparr>)
          else (Inr ''Patient deleted successfully'', s\<lparr>patients := ps\<rparr>))"

text \<open>\<^verbatim>\<open>POST /tasks\<close> (lines 221 to 228).\<close>

definition create_task :: "env \<Rightarrow> TaskCreate \<Rightarrow> store \<Rightarrow> (error + Task) \<times> store" where
  "create_task e task_data s =
     (let task_dict = TaskCreate_dict task_data;
          task_dict = prepare_for_mongo task_dict
      in case Task_init e task_dict of
           Inl err \<Rightarrow> (Inl err, s)
         | Inr task_obj \<Rightarrow>
             (let task_dict = Task_dict task_obj
              in (Inr task_obj, s\<lparr>tasks := insert_one task_dict (object_id e) (tasks s)\<rparr>)))"

text \<open>\<^verbatim>\<open>GET /tasks\<close> (lines 230 to 249).\<close>

definition get_tasks ::
  "env \<Rightarrow> string option \<Rightarrow> TaskStatus option \<Rightarrow> bool option \<Rightarrow> store \<Rightarrow> error + Task list" where
  "get_tasks e patient_id status due_today s =
     (let query = [];
          query =
            (if truthy_str patient_id
             then query @ [Key ''patient_id'' (Equals (oval VStr patient_id))]
             else query);
          query =
            (case status of
               None \<Rightarrow> query
             | Some st \<Rightarrow>
                 if TaskStatus_value st \<noteq> []
                 then query @ [Key ''status'' (Equals (VStr (TaskStatus_value st)))]
                 else query);
          query =
            (if truthy_bool due_today
             then (let today = date_isoformat (dt_date (utc_now e))
                   in query @ [Key ''due_date'' (Equals (VStr today))])
             else query)
      in bnd (find_docs query (tasks s)) (\<lambda>cursor.
         map_all (Task_init e) (to_list 1000 cursor)))"

text \<open>
  \<^verbatim>\<open>PUT /tasks/{task_id}/complete\<close> (lines 251 to 264): 404 when
  \<^verbatim>\<open>modified_count\<close> is 0.
\<close>

definition complete_task :: "env \<Rightarrow> string \<Rightarrow> store \<Rightarrow> (error + string) \<times> store" where
  "complete_task e task_id s =
     (case update_one [Key ''id'' (Equals (VStr task_id))]
             [(''status'', VStr (TaskStatus_value COMPLETED)),
              (''completed_at'', VStr (isoformat_utc (utc_now e)))]
             (tasks s) of
        Inl err \<Rightarrow> (Inl err, s)
      | Inr (ts, result) \<Rightarrow>
          if modified_count result = 0
          then (Inl (HTTPException 404 ''Task not found''), s\<lparr>tasks := ts\<rparr>)
          else (Inr ''Task completed successfully'', s\<lparr>tasks := ts\<rparr>))"

text \<open>\<^verbatim>\<open>POST /contact-logs\<close> (lines 267 to 274).\<close>

definition create_contact_log ::
  "env \<Rightarrow> ContactLogCreate \<Rightarrow> store \<Rightarrow> (error + ContactLog) \<times> store" where
  "create_contact_log e contact_data s =
     (let contact_dict = ContactLogCreate_dict contact_data;
          contact_dict = prepare_for_mongo contact_dict
      in case ContactLog_init e contact_dict of
           Inl err \<Rightarrow> (Inl err, s)
         | Inr contact_obj \<Rightarrow>
             (let contact_dict = ContactLog_dict contact_obj
              in (Inr contact_obj,
                  s\<lparr>contact_logs := insert_one contact_dict (object_id e) (contact_logs s)\<rparr>)))"

text \<open>
  \<^verbatim>\<open>GET /reports/daily-calls\<close> (lines 282 to 310). \<^verbatim>\<open>today\<close> is the UTC date,
  \<^verbatim>\<open>thirty_days\<close> the local time plus 30 days; \<^verbatim>\<open>total_items\<close> adds the lengths
  of the three lists read from the store.
\<close>

record daily_call_report =
  daily_tasks :: "Task list"
  callbacks_needed :: "ContactLog list"
  expiring_tans :: "Patient list"
  total_items :: nat

definition get_daily_call_report :: "env \<Rightarrow> store \<Rightarrow> error + daily_call_report" where
  "get_daily_call_report e s =
     (let today = date_isoformat (dt_date (utc_now e))
      in bnd (find_docs [Key ''due_date'' (Equals (VStr today)),
                         Key ''status'' (Ne (VStr (TaskStatus_value COMPLETED)))]
                (tasks s)) (\<lambda>cursor.
         let daily = to_list 1000 cursor
         in bnd (find_docs [Key ''follow_up_needed'' (Equals (VBool True)),
                            Key ''follow_up_date'' (Lte today)]
                   (contact_logs s)) (\<lambda>cursor.
         let callback_logs = to_list 1000 cursor
         in bnd (plus_days (local_now e) 30) (\<lambda>t.
         let thirty_days = isoformat t
         in bnd (find_docs [Key ''tan_expiry_date'' (Lte thirty_days)] (patients s)) (\<lambda>cursor.
         let expiring = to_list 1000 cursor
         in bnd (map_all (Task_init e) daily) (\<lambda>ts.
            bnd (map_all (ContactLog_init e) callback_logs) (\<lambda>ls.
            bnd (map_all (Patient_init e) expiring) (\<lambda>ps.
            Inr \<lparr>daily_tasks = ts, callbacks_needed = ls, expiring_tans = ps,
                 total_items = length daily + length callback_logs + length expiring\<rparr>))))))))"

text \<open>
  \<^verbatim>\<open>GET /reports/monthly-summary\<close> (lines 312 to 349): five counts; three of them
  match the current month as a prefix pattern, \<^verbatim>\<open>medicaid_issues\<close> has no date
  condition.
\<close>

record monthly_summary =
  total_patients :: nat
  new_patients :: nat
  billed_patients :: nat
  unable_to_contact :: nat
  medicaid_issues :: nat
  summary_month :: string

definition get_monthly_summary :: "env \<Rightarrow> store \<Rightarrow> error + monthly_summary" where
  "get_monthly_summary e s =
     (let current_month = strftime_Ym (local_now e)
      in bnd (count_documents [] (patients s)) (\<lambda>total.
         bnd (count_documents [Key ''created_at'' (Regex (CHR ''^'' # current_month) [])]
                (patients s)) (\<lambda>new.
         bnd (count_documents
                [Key ''last_billing_date'' (Regex (CHR ''^'' # current_month) [])]
                (patients s)) (\<lambda>billed.
         bnd (count_documents
                [Key ''outcome''
                   (In [VStr (ContactOutcome_value NO_ANSWER),
                        VStr (ContactOutcome_value DISCONNECTED)]),
                 Key ''contact_date'' (Regex (CHR ''^'' # current_month) [])]
                (contact_logs s)) (\<lambda>unable.
         bnd (count_documents [Key ''medicaid_eligible'' (Equals (VBool False))]
                (patients s)) (\<lambda>issues.
         Inr \<lparr>total_patients = total, new_patients = new, billed_patients = billed,
              unable_to_contact = unable, medicaid_issues = issues,
              summary_month = current_month\<rparr>))))))"

section \<open>Notions used in the statements\<close>

text \<open>
  The \<^verbatim>\<open>$set\<close> document that \<^verbatim>\<open>update_patient\<close> builds from a partial update.
\<close>

definition update_dict_of :: "env \<Rightarrow> PatientUpdate \<Rightarrow> doc" where
  "update_dict_of e u =
     prepare_for_mongo
       (AList.update ''updated_at'' (VStr (isoformat_utc (utc_now e)))
          (filter (\<lambda>(k, v). v \<noteq> VNull) (PatientUpdate_dict u)))"

text \<open>The patient that a stored patient becomes under a partial update.\<close>

definition merged_patient :: "Patient \<Rightarrow> PatientUpdate \<Rightarrow> string \<Rightarrow> Patient" where
  "merged_patient prev u now =
     \<lparr>p_id = p_id prev,
      p_first_name = (case pu_first_name u of None \<Rightarrow> p_first_name prev | Some v \<Rightarrow> v),
      p_last_name = (case pu_last_name u of None \<Rightarrow> p_last_name prev | Some v \<Rightarrow> v),
      p_phone = (case pu_phone u of None \<Rightarrow> p_phone prev | Some v \<Rightarrow> v),
      p_address = (case pu_address u of None \<Rightarrow> p_address prev | Some v \<Rightarrow> v),
      p_height = (case pu_height u of None \<Rightarrow> p_height prev | Some v \<Rightarrow> Some v),
      p_weight = (case pu_weight u of None \<Rightarrow> p_weight prev | Some v \<Rightarrow> Some v),
      p_icd10_codes = (case pu_icd10_codes u of None \<Rightarrow> p_icd10_codes prev | Some v \<Rightarrow> v),
      p_doctor = (case pu_doctor u of None \<Rightarrow> p_doctor prev | Some v \<Rightarrow> v),
      p_current_tan = (case pu_current_tan u of None \<Rightarrow> p_current_tan prev | Some v \<Rightarrow> v),
      p_tan_expiry_date =
        (case pu_tan_expiry_date u of None \<Rightarrow> p_tan_expiry_date prev | Some v \<Rightarrow> v),
      p_medicaid_id = (case pu_medicaid_id u of None \<Rightarrow> p_medicaid_id prev | Some v \<Rightarrow> v),
      p_medicaid_eligible =
        (case pu_medicaid_eligible u of None \<Rightarrow> p_medicaid_eligible prev | Some v \<Rightarrow> v),
      p_last_billing_date =
        (case pu_last_billing_date u of None \<Rightarrow> p_last_billing_date prev | Some v \<Rightarrow> Some v),
      p_products = (case pu_products u of None \<Rightarrow> p_products prev | Some v \<Rightarrow> v),
      p_notes = (case pu_notes u of None \<Rightarrow> p_notes prev | Some v \<Rightarrow> v),
      p_created_at = p_created_at prev,
      p_updated_at = now\<rparr>"

text \<open>
  The substring test of the search: \<open>t\<close> occurs in \<open>s\<close> as a contiguous
  substring once ASCII letters are folded to lower case (Python's
  \<^verbatim>\<open>t.lower() in s.lower()\<close>), and a patient is hit when it occurs in the first name,
  the last name or the phone.
\<close>

definition contains_ci :: "string \<Rightarrow> string \<Rightarrow> bool" where
  "contains_ci t s = sublist (lower t) (lower s)"

definition search_hit :: "string option \<Rightarrow> Patient \<Rightarrow> bool" where
  "search_hit search p =
     (case search of
        None \<Rightarrow> True
      | Some t \<Rightarrow>
          contains_ci t (p_first_name p) \<or> contains_ci t (p_last_name p) \<or>
          contains_ci t (p_phone p))"

text \<open>The month and the day of a date are in range.\<close>

definition month_day_ok :: "date \<Rightarrow> bool" where
  "month_day_ok d =
     (1 \<le> month d \<and> month d \<le> 12 \<and> 1 \<le> day d \<and> day d \<le> days_in_month (year d) (month d))"

text \<open>The tasks and the contact logs that the daily report asks for.\<close>

definition task_due :: "string \<Rightarrow> Task \<Rightarrow> bool" where
  "task_due today t = (t_due_date t = Some today \<and> t_status t \<noteq> COMPLETED)"

definition callback_due :: "string \<Rightarrow> ContactLog \<Rightarrow> bool" where
  "callback_due today c =
     (cl_follow_up_needed c \<and>
      (case cl_follow_up_date c of None \<Rightarrow> False | Some f \<Rightarrow> f \<le> today))"

text \<open>
  The stores the program can reach from the empty one through its writing endpoints,
  and what holds of them: every stored document loads as its model, whatever the
  environment of the request that loads it.
\<close>

inductive reachable :: "store \<Rightarrow> bool" where
  empty: "reachable \<lparr>patients = [], tasks = [], contact_logs = []\<rparr>"
| create_patient: "reachable s \<Longrightarrow> reachable (snd (create_patient e x s))"
| update_patient: "reachable s \<Longrightarrow> reachable (snd (update_patient e i u s))"
| delete_patient: "reachable s \<Longrightarrow> reachable (snd (delete_patient e i s))"
| create_task: "reachable s \<Longrightarrow> reachable (snd (create_task e y s))"
| complete_task: "reachable s \<Longrightarrow> reachable (snd (complete_task e i s))"
| create_contact_log: "reachable s \<Longrightarrow> reachable (snd (create_contact_log e z s))"

definition patient_doc :: "doc \<Rightarrow> bool" where
  "patient_doc d = (\<exists>p. \<forall>e. Patient_init e d = Inr p)"

definition task_doc :: "doc \<Rightarrow> bool" where
  "task_doc d = (\<exists>t. \<forall>e. Task_init e d = Inr t)"

definition log_doc :: "doc \<Rightarrow> bool" where
  "log_doc d = (\<exists>c. \<forall>e. ContactLog_init e d = Inr c)"

definition stored_ok :: "store \<Rightarrow> bool" where
  "stored_ok s =
     (list_all patient_doc (patients s) \<and> list_all task_doc (tasks s) \<and>
      list_all log_doc (contact_logs s))"

section \<open>Sample data\<close>

text \<open>A clock reading, a patient and a store, used where a statement is run on an input.\<close>

definition ex_now :: datetime where
  "ex_now = \<lparr>dt_date = \<lparr>year = 2026, month = 11, day = 6\<rparr>,
             hour = 12, minute = 30, second = 0, microsecond = 0\<rparr>"

definition ex_env :: env where
  "ex_env = \<lparr>utc_now = ex_now, local_now = ex_now, rand = 0, object_id = 1\<rparr>"

definition ex_doctor :: Doctor where
  "ex_doctor = \<lparr>d_name = ''Dr. Lee'', d_phone = ''601-555-0100'', d_fax = ''601-555-0101'',
                d_address = None\<rparr>"

definition ex_patient :: Patient where
  "ex_patient =
     \<lparr>p_id = ''p-1'', p_first_name = ''Ann'', p_last_name = ''Smith'',
      p_phone = ''601-555-0199'', p_address = ''1 Main St'', p_height = Some ''5ft 4in'',
      p_weight = None, p_icd10_codes = [''R32''], p_doctor = ex_doctor,
      p_current_tan = ''TAN-1'', p_tan_expiry_date = ''2026-11-26'',
      p_medicaid_id = ''M-1'', p_medicaid_eligible = False,
      p_last_billing_date = Some ''2026-10-01'', p_products = [''diapers''], p_notes = [],
      p_created_at = ''2025-01-15T09:00:00+00:00'',
      p_updated_at = ''2025-01-15T09:00:00+00:00''\<rparr>"

definition ex_store :: store where
  "ex_store =
     \<lparr>patients = [(''_id'', VObjectId 0) # Patient_dict ex_patient], tasks = [],
      contact_logs = []\<rparr>"

definition ex_create :: PatientCreate where
  "ex_create =
     \<lparr>pc_first_name = ''Bo'', pc_last_name = ''Jones'', pc_phone = ''601-555-0142'',
      pc_address = ''2 Oak Ave'', pc_height = None, pc_weight = Some ''150 lb'',
      pc_icd10_codes = [], pc_doctor = ex_doctor, pc_current_tan = ''TAN-2'',
      pc_tan_expiry_date = ''2026-12-16'', pc_medicaid_id = ''M-2'',
      pc_medicaid_eligible = True, pc_products = [''underpads''], pc_notes = []\<rparr>"

definition ex_update :: PatientUpdate where
  "ex_update =
     \<lparr>pu_first_name = None, pu_last_name = None, pu_phone = Some ''601-555-0000'',
      pu_address = None, pu_height = None, pu_weight = None, pu_icd10_codes = None,
      pu_doctor = None, pu_current_tan = None, pu_tan_expiry_date = None,
      pu_medicaid_id = None, pu_medicaid_eligible = None, pu_last_billing_date = None,
      pu_products = None, pu_notes = None\<rparr>"

definition ex_task :: Task where
  "ex_task =
     \<lparr>t_id = ''t-1'', t_patient_id = ''p-1'', t_task_type = CALL_PATIENT,
      t_title = ''Call about renewal'', t_description = [], t_assigned_to = ''admin'',
      t_status = COMPLETED, t_due_date = Some ''2026-11-06'',
      t_created_at = ''2026-11-01T08:00:00+00:00'',
      t_completed_at = Some ''2026-11-06T12:30:00+00:00''\<rparr>"

definition ex_task_store :: store where
  "ex_task_store =
     \<lparr>patients = [], tasks = [(''_id'', VObjectId 2) # Task_dict ex_task], contact_logs = []\<rparr>"

definition ex_patient2 :: Patient where
  "ex_patient2 = ex_patient\<lparr>p_id := ''p-2'', p_first_name := ''A$AP''\<rparr>"

definition ex_store2 :: store where
  "ex_store2 =
     \<lparr>patients = [(''_id'', VObjectId 3) # Patient_dict ex_patient2], tasks = [],
      contact_logs = []\<rparr>"

definition ex_numbered :: "nat \<Rightarrow> Patient" where
  "ex_numbered n = ex_patient\<lparr>p_id := ''p-'' @ pad4 n\<rparr>"

definition ex_big_store :: store where
  "ex_big_store =
     \<lparr>patients = map (\<lambda>n. (''_id'', VObjectId n) # Patient_dict (ex_numbered n)) [0..<1001],
      tasks = [], contact_logs = []\<rparr>"

definition ex_task_due :: Task where
  "ex_task_due =
     \<lparr>t_id = ''t-2'', t_patient_id = ''p-1'', t_task_type = TAN_RENEWAL,
      t_title = ''Renew TAN'', t_description = [], t_assigned_to = ''admin'',
      t_status = PENDING, t_due_date = Some ''2026-11-06'',
      t_created_at = ''2026-11-01T08:00:00+00:00'', t_completed_at = None\<rparr>"

definition ex_log :: ContactLog where
  "ex_log =
     \<lparr>cl_id = ''c-1'', cl_patient_id = ''p-1'', cl_contact_date = ''2026-11-03T10:00:00+00:00'',
      cl_outcome = NO_ANSWER, cl_notes = [], cl_follow_up_needed = True,
      cl_follow_up_date = Some ''2026-11-05''\<rparr>"

definition ex_report_store :: store where
  "ex_report_store =
     \<lparr>patients = [(''_id'', VObjectId 0) # Patient_dict ex_patient],
      tasks = [(''_id'', VObjectId 1) # Task_dict ex_task_due,
               (''_id'', VObjectId 2) # Task_dict ex_task],
      contact_logs = [(''_id'', VObjectId 3) # ContactLog_dict ex_log]\<rparr>"

definition ex_numbered_task :: "nat \<Rightarrow> Task" where
  "ex_numbered_task n = ex_task_due\<lparr>t_id := ''t-'' @ pad4 n\<rparr>"

definition ex_busy_store :: store where
  "ex_busy_store =
     \<lparr>patients = [],
      tasks = map (\<lambda>n. (''_id'', VObjectId n) # Task_dict (ex_numbered_task n)) [0..<1001],
      contact_logs = []\<rparr>"

text \<open>
  A store with a task that is not due today, and a patient whose doctor has an address,
  with an update that carries a doctor without one.
\<close>

definition ex_task_later :: Task where
  "ex_task_later =
     \<lparr>t_id = ''t-3'', t_patient_id = ''p-1'', t_task_type = BILLING_FOLLOW_UP,
      t_title = ''Billing follow-up'', t_description = [], t_assigned_to = ''admin'',
      t_status = IN_PROGRESS, t_due_date = Some ''2026-11-07'',
      t_created_at = ''2026-11-02T08:00:00+00:00'', t_completed_at = None\<rparr>"

definition ex_later_store :: store where
  "ex_later_store =
     \<lparr>patients = [(''_id'', VObjectId 0) # Patient_dict ex_patient],
      tasks = [(''_id'', VObjectId 1) # Task_dict ex_task_due,
               (''_id'', VObjectId 4) # Task_dict ex_task_later],
      contact_logs = []\<rparr>"

definition ex_doctor_addr :: Doctor where
  "ex_doctor_addr = ex_doctor\<lparr>d_address := Some ''12 Elm St''\<rparr>"

definition ex_patient3 :: Patient where
  "ex_patient3 = ex_patient\<lparr>p_id := ''p-3'', p_doctor := ex_doctor_addr\<rparr>"

definition ex_store3 :: store where
  "ex_store3 =
     \<lparr>patients = [(''_id'', VObjectId 5) # Patient_dict ex_patient3], tasks = [],
      contact_logs = []\<rparr>"

definition ex_update_doctor :: PatientUpdate where
  "ex_update_doctor = ex_update\<lparr>pu_phone := None, pu_doctor := Some ex_doctor\<rparr>"

section \<open>Auxiliary facts\<close>

subsection \<open>Sequencing, lists of results, patterns\<close>


lemma bnd_Inr [simp]: "bnd (Inr x) f = f x" by (simp add: bnd_def)
lemma bnd_Inl [simp]: "bnd (Inl e) f = Inl e" by (simp add: bnd_def)

lemma parse_pieces_literal:
  "list_all plain_char t \<Longrightarrow> parse_pieces t = Some (map (\<lambda>c. Once (RChar c)) t)"
proof (induction t rule: parse_pieces.induct)
  case 1
  then show ?case by simp
next
  case (2 c)
  then show ?case by (auto simp: rx_atom_def plain_char_def is_meta_def)
next
  case (3 c d cs)
  then have c: "rx_atom c = Some (RChar c)" and d: "d \<noteq> CHR ''*''"
    by (auto simp: rx_atom_def plain_char_def is_meta_def)
  from 3 c d show ?case by simp
qed

lemma rx_compile_literal:
  assumes "list_all plain_char t"
  shows "rx_compile t =
    Some \<lparr>anchored_start = False, pieces = map (\<lambda>c. Once (RChar c)) t, anchored_end = False\<rparr>"
proof -
  have h: "t \<noteq> [] \<Longrightarrow> hd t \<noteq> CHR ''^''" using assms by (cases t) (auto simp: plain_char_def is_meta_def)
  have l: "t \<noteq> [] \<Longrightarrow> last t \<noteq> CHR ''$''"
  proof
    assume ne: "t \<noteq> []" and "last t = CHR ''$''"
    then have "CHR ''$'' \<in> set t" using last_in_set by metis
    with assms show False by (auto simp: list_all_iff plain_char_def is_meta_def)
  qed
  show ?thesis using h l parse_pieces_literal[OF assms] by (auto simp: rx_compile_def Let_def)
qed

lemma rx_compile_prefix:
  assumes "list_all plain_char t"
  shows "rx_compile (CHR ''^'' # t) =
    Some \<lparr>anchored_start = True, pieces = map (\<lambda>c. Once (RChar c)) t, anchored_end = False\<rparr>"
proof -
  have l: "t \<noteq> [] \<Longrightarrow> last t \<noteq> CHR ''$''"
  proof
    assume ne: "t \<noteq> []" and "last t = CHR ''$''"
    then have "CHR ''$'' \<in> set t" using last_in_set by metis
    with assms show False by (auto simp: list_all_iff plain_char_def is_meta_def)
  qed
  show ?thesis using l parse_pieces_literal[OF assms] by (auto simp: rx_compile_def Let_def)
qed

lemma lt10_cases:
  "(k::nat) < 10 \<Longrightarrow>
   k = 0 \<or> k = 1 \<or> k = 2 \<or> k = 3 \<or> k = 4 \<or> k = 5 \<or> k = 6 \<or> k = 7 \<or> k = 8 \<or> k = 9"
  by arith

lemma digit_plain: "plain_char (digit (n mod 10))"
proof -
  have "n mod 10 < 10" by simp
  from lt10_cases[OF this] show ?thesis by (auto simp: digit_def plain_char_def is_meta_def)
qed

lemma strftime_Ym_literal: "list_all plain_char (strftime_Ym t)"
  by (simp add: strftime_Ym_def pad4_def pad2_def digit_plain)
    (simp add: plain_char_def is_meta_def)

lemma month_pattern_ok: "regex_ok (CHR ''^'' # strftime_Ym t) []"
  by (simp add: regex_ok_def rx_compile_prefix[OF strftime_Ym_literal])

lemma bndE:
  assumes "bnd m f = Inr y"
  obtains x where "m = Inr x" and "f x = Inr y"
  using assms by (cases m) (auto simp: bnd_def)

lemma map_all_list_all2:
  "list_all2 (\<lambda>d p. f d = Inr p) ds ps \<Longrightarrow> map_all f ds = Inr ps"
  by (induction ds ps rule: list_all2_induct) auto

lemma list_all2_filter_same:
  assumes "list_all2 R ds ps" and "\<And>d p. R d p \<Longrightarrow> P d = Q p"
  shows "list_all2 R (filter P ds) (filter Q ps)"
  using assms by (induction ds ps rule: list_all2_induct) auto

lemma Patient_init_fields:
  assumes "Patient_init e d = Inr p"
  shows "def_str d ''id'' (uuid4 (rand e)) = Inr (p_id p)"
    and "req_str d ''first_name'' = Inr (p_first_name p)"
    and "req_str d ''last_name'' = Inr (p_last_name p)"
    and "req_str d ''phone'' = Inr (p_phone p)"
    and "req_str d ''address'' = Inr (p_address p)"
    and "opt_str d ''height'' = Inr (p_height p)"
    and "opt_str d ''weight'' = Inr (p_weight p)"
    and "def_str_list d ''icd10_codes'' [] = Inr (p_icd10_codes p)"
    and "req_doctor d ''doctor'' = Inr (p_doctor p)"
    and "req_str d ''current_tan'' = Inr (p_current_tan p)"
    and "req_str d ''tan_expiry_date'' = Inr (p_tan_expiry_date p)"
    and "req_str d ''medicaid_id'' = Inr (p_medicaid_id p)"
    and "def_bool d ''medicaid_eligible'' True = Inr (p_medicaid_eligible p)"
    and "opt_str d ''last_billing_date'' = Inr (p_last_billing_date p)"
    and "def_str_list d ''products'' [] = Inr (p_products p)"
    and "def_str d ''notes'' [] = Inr (p_notes p)"
    and "def_str d ''created_at'' (isoformat_utc (utc_now e)) = Inr (p_created_at p)"
    and "def_str d ''updated_at'' (isoformat_utc (utc_now e)) = Inr (p_updated_at p)"
  using assms unfolding Patient_init_def by (auto elim!: bndE)

lemma medicaid_false_matches:
  assumes "Patient_init e d = Inr p"
  shows "matches [Key ''medicaid_eligible'' (Equals (VBool False))] d = (\<not> p_medicaid_eligible p)"
  using Patient_init_fields(13)[OF assms]
  by (auto simp: matches_def def_bool_def split: option.splits val.splits)

lemma map_all_str_item: "map_all str_item (map VStr xs) = Inr xs"
  by (induction xs) (simp_all add: str_item_def)

lemma Doctor_init_dict: "Doctor_init (Doctor_dict x) = Inr x"
  by (cases "d_address x") (simp_all add: Doctor_init_def Doctor_dict_def req_str_def opt_str_def ostr_def)

lemma opt_str_ostr: "map_of d k = Some (ostr x) \<Longrightarrow> opt_str d k = Inr x"
  by (cases x) (simp_all add: opt_str_def ostr_def)

lemma Patient_init_dict: "Patient_init e (Patient_dict p) = Inr p"
  by (simp add: Patient_init_def Patient_dict_def req_str_def def_str_def opt_str_ostr
      def_str_list_def strs_def map_all_str_item req_doctor_def Doctor_init_dict def_bool_def)

lemma Patient_init_stored: "Patient_init e ((''_id'', v) # Patient_dict p) = Inr p"
  by (simp add: Patient_init_def Patient_dict_def req_str_def def_str_def opt_str_ostr
      def_str_list_def strs_def map_all_str_item req_doctor_def Doctor_init_dict def_bool_def)

subsection \<open>Documents of the models\<close>

lemma mongo_value_simps [simp]:
  "mongo_value (VStr s) = VStr s"
  "mongo_value (VBool b) = VBool b"
  "mongo_value VNull = VNull"
  "mongo_value (VDoc x) = VDoc x"
  "mongo_value (VList vs) = VList vs"
  "mongo_value (ostr o1) = ostr o1"
  "mongo_value (strs xs) = strs xs"
  by (simp_all add: mongo_value_def ostr_def strs_def split: option.splits)

lemma mongo_value_oval:
  "(\<And>y. mongo_value (f y) = f y) \<Longrightarrow> mongo_value (oval f x) = oval f x"
  by (cases x) (simp_all add: oval_def)

lemma opt_str_missing: "map_of d k = None \<Longrightarrow> opt_str d k = Inr None"
  by (simp add: opt_str_def)

lemma uuid4_nonempty: "uuid4 r \<noteq> []"
  by (simp add: uuid4_def uuid_str_def Let_def)

lemma uuid4_length: "length (uuid4 r) = 36"
  by (simp add: uuid4_def uuid_str_def Let_def hex32_def)

lemma Patient_init_create:
  "Patient_init e (prepare_for_mongo (PatientCreate_dict x)) =
   Inr \<lparr>p_id = uuid4 (rand e), p_first_name = pc_first_name x, p_last_name = pc_last_name x,
        p_phone = pc_phone x, p_address = pc_address x, p_height = pc_height x,
        p_weight = pc_weight x, p_icd10_codes = pc_icd10_codes x, p_doctor = pc_doctor x,
        p_current_tan = pc_current_tan x, p_tan_expiry_date = pc_tan_expiry_date x,
        p_medicaid_id = pc_medicaid_id x, p_medicaid_eligible = pc_medicaid_eligible x,
        p_last_billing_date = None, p_products = pc_products x, p_notes = pc_notes x,
        p_created_at = isoformat_utc (utc_now e), p_updated_at = isoformat_utc (utc_now e)\<rparr>"
  by (simp add: Patient_init_def PatientCreate_dict_def prepare_for_mongo_def req_str_def
      def_str_def opt_str_ostr def_str_list_def strs_def map_all_str_item req_doctor_def
      Doctor_init_dict def_bool_def opt_str_missing)

lemma find_one_None: "find_one q c = Inr None \<Longrightarrow> filter (matches q) c = []"
  by (auto simp: find_one_def find_docs_def split: if_splits list.splits)

lemma id_query_ok [simp]: "query_ok [Key k (Equals v)]"
  by (simp add: query_ok_def)

lemma stored_matches_id: "matches [Key ''id'' (Equals (VStr i))] ((''_id'', v) # Patient_dict p) = (p_id p = i)"
  by (simp add: matches_def Patient_dict_def)

lemma uuid4_neq: "length t \<noteq> 36 \<Longrightarrow> uuid4 r \<noteq> t"
  using uuid4_length by auto

lemma ex_store_find_one:
  "find_one [Key ''id'' (Equals (VStr ''p-1''))] (patients ex_store) =
   Inr (Some ((''_id'', VObjectId 0) # Patient_dict ex_patient))"
  by (simp add: find_one_def find_docs_def ex_store_def stored_matches_id)
    (simp add: ex_patient_def)

subsection \<open>The merge of a partial update\<close>

lemma map_of_filter_nonnull:
  "distinct (map fst xs) \<Longrightarrow>
   map_of (filter (\<lambda>(k, v). v \<noteq> VNull) xs) k =
   (case map_of xs k of None \<Rightarrow> None | Some v \<Rightarrow> if v \<noteq> VNull then Some v else None)"
proof (induction xs)
  case Nil
  then show ?case by simp
next
  case (Cons a xs)
  obtain k' v' where a: "a = (k', v')" by (cases a)
  from Cons.prems a have notin: "k' \<notin> fst ` set xs" by simp
  then have "map_of xs k' = None" by (simp add: map_of_eq_None_iff)
  with Cons a show ?case by (auto split: option.splits)
qed

lemma map_of_prepare_for_mongo:
  "map_of (prepare_for_mongo d) k = map_option mongo_value (map_of d k)"
  by (induction d) (auto simp: prepare_for_mongo_def)

lemma fst_prepare_for_mongo: "map fst (prepare_for_mongo d) = map fst d"
  by (induction d) (auto simp: prepare_for_mongo_def)

lemma map_of_fold_update:
  "map_of (fold (\<lambda>(k, v). AList.update k v) upd d) k =
   (case map_of (rev upd) k of None \<Rightarrow> map_of d k | Some v \<Rightarrow> Some v)"
proof (induction upd arbitrary: d)
  case Nil
  then show ?case by simp
next
  case (Cons a upd)
  obtain k' v' where a: "a = (k', v')" by (cases a)
  show ?case
    by (simp add: a Cons.IH update_conv' map_add_def split: option.splits)
qed

lemma map_of_rev_distinct:
  "distinct (map fst xs) \<Longrightarrow> map_of (rev xs) k = map_of xs k"
proof (induction xs)
  case Nil
  then show ?case by simp
next
  case (Cons a xs)
  obtain k' v' where a: "a = (k', v')" by (cases a)
  from Cons.prems a have "k' \<notin> fst ` set xs" by simp
  then have "map_of xs k' = None" by (simp add: map_of_eq_None_iff)
  with Cons a show ?case by (auto simp: map_add_def split: option.splits)
qed

lemma map_of_apply_set:
  "distinct (map fst upd) \<Longrightarrow>
   map_of (apply_set d upd) k = (case map_of upd k of None \<Rightarrow> map_of d k | Some v \<Rightarrow> Some v)"
  by (simp add: apply_set_def map_of_fold_update map_of_rev_distinct)

lemma distinct_update_dict_of: "distinct (map fst (update_dict_of e u))"
proof -
  have "distinct (map fst (PatientUpdate_dict u))"
    by (simp add: PatientUpdate_dict_def)
  then have "distinct (map fst (filter (\<lambda>(k, v). v \<noteq> VNull) (PatientUpdate_dict u)))"
    by (rule distinct_map_filter)
  then show ?thesis
    by (simp add: update_dict_of_def fst_prepare_for_mongo distinct_update)
qed

lemma map_of_update_dict_of:
  "map_of (update_dict_of e u) k =
   (if k = ''updated_at'' then Some (VStr (isoformat_utc (utc_now e)))
    else case map_of (PatientUpdate_dict u) k of
           None \<Rightarrow> None
         | Some v \<Rightarrow> if v \<noteq> VNull then Some (mongo_value v) else None)"
proof -
  have "distinct (map fst (PatientUpdate_dict u))"
    by (simp add: PatientUpdate_dict_def)
  then show ?thesis
    by (simp add: update_dict_of_def map_of_prepare_for_mongo update_conv'
        map_of_filter_nonnull split: option.splits)
qed

lemma map_of_merged:
  "map_of (apply_set d (update_dict_of e u)) k =
   (if k = ''updated_at'' then Some (VStr (isoformat_utc (utc_now e)))
    else case map_of (PatientUpdate_dict u) k of
           None \<Rightarrow> map_of d k
         | Some v \<Rightarrow> if v \<noteq> VNull then Some (mongo_value v) else map_of d k)"
  by (simp add: map_of_apply_set[OF distinct_update_dict_of] map_of_update_dict_of
      split: option.splits)

lemma PatientUpdate_lookup:
  "map_of (PatientUpdate_dict u) ''id'' = None"
  "map_of (PatientUpdate_dict u) ''first_name'' = Some (ostr (pu_first_name u))"
  "map_of (PatientUpdate_dict u) ''last_name'' = Some (ostr (pu_last_name u))"
  "map_of (PatientUpdate_dict u) ''phone'' = Some (ostr (pu_phone u))"
  "map_of (PatientUpdate_dict u) ''address'' = Some (ostr (pu_address u))"
  "map_of (PatientUpdate_dict u) ''height'' = Some (ostr (pu_height u))"
  "map_of (PatientUpdate_dict u) ''weight'' = Some (ostr (pu_weight u))"
  "map_of (PatientUpdate_dict u) ''icd10_codes'' = Some (oval strs (pu_icd10_codes u))"
  "map_of (PatientUpdate_dict u) ''doctor'' = Some (oval (\<lambda>y. VDoc (Doctor_dict y)) (pu_doctor u))"
  "map_of (PatientUpdate_dict u) ''current_tan'' = Some (ostr (pu_current_tan u))"
  "map_of (PatientUpdate_dict u) ''tan_expiry_date'' = Some (ostr (pu_tan_expiry_date u))"
  "map_of (PatientUpdate_dict u) ''medicaid_id'' = Some (ostr (pu_medicaid_id u))"
  "map_of (PatientUpdate_dict u) ''medicaid_eligible'' = Some (oval VBool (pu_medicaid_eligible u))"
  "map_of (PatientUpdate_dict u) ''last_billing_date'' = Some (ostr (pu_last_billing_date u))"
  "map_of (PatientUpdate_dict u) ''products'' = Some (oval strs (pu_products u))"
  "map_of (PatientUpdate_dict u) ''notes'' = Some (ostr (pu_notes u))"
  "map_of (PatientUpdate_dict u) ''created_at'' = None"
  by (simp_all add: PatientUpdate_dict_def)

lemma merged_lookups:
  fixes d e u
  defines "m \<equiv> map_of (apply_set d (update_dict_of e u))"
  shows "m ''id'' = map_of d ''id''"
    and "m ''first_name'' = (case pu_first_name u of None \<Rightarrow> map_of d ''first_name'' | Some v \<Rightarrow> Some (VStr v))"
    and "m ''last_name'' = (case pu_last_name u of None \<Rightarrow> map_of d ''last_name'' | Some v \<Rightarrow> Some (VStr v))"
    and "m ''phone'' = (case pu_phone u of None \<Rightarrow> map_of d ''phone'' | Some v \<Rightarrow> Some (VStr v))"
    and "m ''address'' = (case pu_address u of None \<Rightarrow> map_of d ''address'' | Some v \<Rightarrow> Some (VStr v))"
    and "m ''height'' = (case pu_height u of None \<Rightarrow> map_of d ''height'' | Some v \<Rightarrow> Some (VStr v))"
    and "m ''weight'' = (case pu_weight u of None \<Rightarrow> map_of d ''weight'' | Some v \<Rightarrow> Some (VStr v))"
    and "m ''icd10_codes'' = (case pu_icd10_codes u of None \<Rightarrow> map_of d ''icd10_codes'' | Some v \<Rightarrow> Some (strs v))"
    and "m ''doctor'' = (case pu_doctor u of None \<Rightarrow> map_of d ''doctor'' | Some v \<Rightarrow> Some (VDoc (Doctor_dict v)))"
    and "m ''current_tan'' = (case pu_current_tan u of None \<Rightarrow> map_of d ''current_tan'' | Some v \<Rightarrow> Some (VStr v))"
    and "m ''tan_expiry_date'' = (case pu_tan_expiry_date u of None \<Rightarrow> map_of d ''tan_expiry_date'' | Some v \<Rightarrow> Some (VStr v))"
    and "m ''medicaid_id'' = (case pu_medicaid_id u of None \<Rightarrow> map_of d ''medicaid_id'' | Some v \<Rightarrow> Some (VStr v))"
    and "m ''medicaid_eligible'' = (case pu_medicaid_eligible u of None \<Rightarrow> map_of d ''medicaid_eligible'' | Some v \<Rightarrow> Some (VBool v))"
    and "m ''last_billing_date'' = (case pu_last_billing_date u of None \<Rightarrow> map_of d ''last_billing_date'' | Some v \<Rightarrow> Some (VStr v))"
    and "m ''products'' = (case pu_products u of None \<Rightarrow> map_of d ''products'' | Some v \<Rightarrow> Some (strs v))"
    and "m ''notes'' = (case pu_notes u of None \<Rightarrow> map_of d ''notes'' | Some v \<Rightarrow> Some (VStr v))"
    and "m ''created_at'' = map_of d ''created_at''"
    and "m ''updated_at'' = Some (VStr (isoformat_utc (utc_now e)))"
  unfolding m_def
  by (simp_all add: map_of_merged PatientUpdate_lookup ostr_def oval_def strs_def
      split: option.splits)


lemma req_str_merged:
  assumes "map_of d' k = (case x of None \<Rightarrow> map_of d k | Some v \<Rightarrow> Some (VStr v))"
    and "req_str d k = Inr a"
  shows "req_str d' k = Inr (case x of None \<Rightarrow> a | Some v \<Rightarrow> v)"
  using assms by (cases x) (simp_all add: req_str_def)

lemma def_str_merged:
  assumes "map_of d' k = (case x of None \<Rightarrow> map_of d k | Some v \<Rightarrow> Some (VStr v))"
    and "def_str d k dflt = Inr a"
  shows "def_str d' k dflt = Inr (case x of None \<Rightarrow> a | Some v \<Rightarrow> v)"
  using assms by (cases x) (simp_all add: def_str_def)

lemma opt_str_merged:
  assumes "map_of d' k = (case x of None \<Rightarrow> map_of d k | Some v \<Rightarrow> Some (VStr v))"
    and "opt_str d k = Inr a"
  shows "opt_str d' k = Inr (case x of None \<Rightarrow> a | Some v \<Rightarrow> Some v)"
  using assms by (cases x) (simp_all add: opt_str_def)

lemma def_bool_merged:
  assumes "map_of d' k = (case x of None \<Rightarrow> map_of d k | Some v \<Rightarrow> Some (VBool v))"
    and "def_bool d k dflt = Inr a"
  shows "def_bool d' k dflt = Inr (case x of None \<Rightarrow> a | Some v \<Rightarrow> v)"
  using assms by (cases x) (simp_all add: def_bool_def)

lemma def_str_list_merged:
  assumes "map_of d' k = (case x of None \<Rightarrow> map_of d k | Some v \<Rightarrow> Some (strs v))"
    and "def_str_list d k dflt = Inr a"
  shows "def_str_list d' k dflt = Inr (case x of None \<Rightarrow> a | Some v \<Rightarrow> v)"
  using assms by (cases x) (simp_all add: def_str_list_def strs_def map_all_str_item)

lemma req_doctor_merged:
  assumes "map_of d' k = (case x of None \<Rightarrow> map_of d k | Some v \<Rightarrow> Some (VDoc (Doctor_dict v)))"
    and "req_doctor d k = Inr a"
  shows "req_doctor d' k = Inr (case x of None \<Rightarrow> a | Some v \<Rightarrow> v)"
  using assms by (cases x) (simp_all add: req_doctor_def Doctor_init_dict)

lemma def_str_same:
  "map_of d' k = map_of d k \<Longrightarrow> def_str d' k dflt = def_str d k dflt"
  by (simp add: def_str_def)

lemma def_str_present: "map_of d' k = Some (VStr a) \<Longrightarrow> def_str d' k dflt = Inr a"
  by (simp add: def_str_def)

lemma Patient_init_merged_fields:
  fixes u :: PatientUpdate and e :: env
  assumes "Patient_init e' d = Inr prev"
  defines "d' \<equiv> apply_set d (update_dict_of e u)"
  shows "def_str d' ''id'' (uuid4 (rand e')) = Inr (p_id prev)"
    and "req_str d' ''first_name'' = Inr (case pu_first_name u of None \<Rightarrow> p_first_name prev | Some v \<Rightarrow> v)"
    and "req_str d' ''last_name'' = Inr (case pu_last_name u of None \<Rightarrow> p_last_name prev | Some v \<Rightarrow> v)"
    and "req_str d' ''phone'' = Inr (case pu_phone u of None \<Rightarrow> p_phone prev | Some v \<Rightarrow> v)"
    and "req_str d' ''address'' = Inr (case pu_address u of None \<Rightarrow> p_address prev | Some v \<Rightarrow> v)"
    and "opt_str d' ''height'' = Inr (case pu_height u of None \<Rightarrow> p_height prev | Some v \<Rightarrow> Some v)"
    and "opt_str d' ''weight'' = Inr (case pu_weight u of None \<Rightarrow> p_weight prev | Some v \<Rightarrow> Some v)"
    and "def_str_list d' ''icd10_codes'' [] = Inr (case pu_icd10_codes u of None \<Rightarrow> p_icd10_codes prev | Some v \<Rightarrow> v)"
    and "req_doctor d' ''doctor'' = Inr (case pu_doctor u of None \<Rightarrow> p_doctor prev | Some v \<Rightarrow> v)"
    and "req_str d' ''current_tan'' = Inr (case pu_current_tan u of None \<Rightarrow> p_current_tan prev | Some v \<Rightarrow> v)"
    and "req_str d' ''tan_expiry_date'' = Inr (case pu_tan_expiry_date u of None \<Rightarrow> p_tan_expiry_date prev | Some v \<Rightarrow> v)"
    and "req_str d' ''medicaid_id'' = Inr (case pu_medicaid_id u of None \<Rightarrow> p_medicaid_id prev | Some v \<Rightarrow> v)"
    and "def_bool d' ''medicaid_eligible'' True = Inr (case pu_medicaid_eligible u of None \<Rightarrow> p_medicaid_eligible prev | Some v \<Rightarrow> v)"
    and "opt_str d' ''last_billing_date'' = Inr (case pu_last_billing_date u of None \<Rightarrow> p_last_billing_date prev | Some v \<Rightarrow> Some v)"
    and "def_str_list d' ''products'' [] = Inr (case pu_products u of None \<Rightarrow> p_products prev | Some v \<Rightarrow> v)"
    and "def_str d' ''notes'' [] = Inr (case pu_notes u of None \<Rightarrow> p_notes prev | Some v \<Rightarrow> v)"
    and "def_str d' ''created_at'' (isoformat_utc (utc_now e')) = Inr (p_created_at prev)"
    and "def_str d' ''updated_at'' (isoformat_utc (utc_now e')) = Inr (isoformat_utc (utc_now e))"
proof -
  note f = Patient_init_fields[OF assms(1)]
  note l = merged_lookups[of d e u, folded d'_def]
  show "def_str d' ''id'' (uuid4 (rand e')) = Inr (p_id prev)"
    using f(1) by (simp only: def_str_same[OF l(1)])
  show "req_str d' ''first_name'' = Inr (case pu_first_name u of None \<Rightarrow> p_first_name prev | Some v \<Rightarrow> v)"
    by (rule req_str_merged[OF l(2) f(2)])
  show "req_str d' ''last_name'' = Inr (case pu_last_name u of None \<Rightarrow> p_last_name prev | Some v \<Rightarrow> v)"
    by (rule req_str_merged[OF l(3) f(3)])
  show "req_str d' ''phone'' = Inr (case pu_phone u of None \<Rightarrow> p_phone prev | Some v \<Rightarrow> v)"
    by (rule req_str_merged[OF l(4) f(4)])
  show "req_str d' ''address'' = Inr (case pu_address u of None \<Rightarrow> p_address prev | Some v \<Rightarrow> v)"
    by (rule req_str_merged[OF l(5) f(5)])
  show "opt_str d' ''height'' = Inr (case pu_height u of None \<Rightarrow> p_height prev | Some v \<Rightarrow> Some v)"
    by (rule opt_str_merged[OF l(6) f(6)])
  show "opt_str d' ''weight'' = Inr (case pu_weight u of None \<Rightarrow> p_weight prev | Some v \<Rightarrow> Some v)"
    by (rule opt_str_merged[OF l(7) f(7)])
  show "def_str_list d' ''icd10_codes'' [] = Inr (case pu_icd10_codes u of None \<Rightarrow> p_icd10_codes prev | Some v \<Rightarrow> v)"
    by (rule def_str_list_merged[OF l(8) f(8)])
  show "req_doctor d' ''doctor'' = Inr (case pu_doctor u of None \<Rightarrow> p_doctor prev | Some v \<Rightarrow> v)"
    by (rule req_doctor_merged[OF l(9) f(9)])
  show "req_str d' ''current_tan'' = Inr (case pu_current_tan u of None \<Rightarrow> p_current_tan prev | Some v \<Rightarrow> v)"
    by (rule req_str_merged[OF l(10) f(10)])
  show "req_str d' ''tan_expiry_date'' = Inr (case pu_tan_expiry_date u of None \<Rightarrow> p_tan_expiry_date prev | Some v \<Rightarrow> v)"
    by (rule req_str_merged[OF l(11) f(11)])
  show "req_str d' ''medicaid_id'' = Inr (case pu_medicaid_id u of None \<Rightarrow> p_medicaid_id prev | Some v \<Rightarrow> v)"
    by (rule req_str_merged[OF l(12) f(12)])
  show "def_bool d' ''medicaid_eligible'' True = Inr (case pu_medicaid_eligible u of None \<Rightarrow> p_medicaid_eligible prev | Some v \<Rightarrow> v)"
    by (rule def_bool_merged[OF l(13) f(13)])
  show "opt_str d' ''last_billing_date'' = Inr (case pu_last_billing_date u of None \<Rightarrow> p_last_billing_date prev | Some v \<Rightarrow> Some v)"
    by (rule opt_str_merged[OF l(14) f(14)])
  show "def_str_list d' ''products'' [] = Inr (case pu_products u of None \<Rightarrow> p_products prev | Some v \<Rightarrow> v)"
    by (rule def_str_list_merged[OF l(15) f(15)])
  show "def_str d' ''notes'' [] = Inr (case pu_notes u of None \<Rightarrow> p_notes prev | Some v \<Rightarrow> v)"
    by (rule def_str_merged[OF l(16) f(16)])
  show "def_str d' ''created_at'' (isoformat_utc (utc_now e')) = Inr (p_created_at prev)"
    using f(17) by (simp only: def_str_same[OF l(17)])
  show "def_str d' ''updated_at'' (isoformat_utc (utc_now e')) = Inr (isoformat_utc (utc_now e))"
    by (rule def_str_present[OF l(18)])
qed

lemma Patient_init_merged:
  assumes "Patient_init e' d = Inr prev"
  shows "Patient_init e' (apply_set d (update_dict_of e u)) =
         Inr (merged_patient prev u (isoformat_utc (utc_now e)))"
  unfolding Patient_init_def merged_patient_def
  by (simp only: Patient_init_merged_fields[OF assms] bnd_Inr)


lemma find_one_Some:
  assumes "find_one q c = Inr (Some d)"
  shows "query_ok q" and "\<exists>rest. filter (matches q) c = d # rest" and "matches q d"
proof -
  show ok: "query_ok q" using assms by (auto simp: find_one_def find_docs_def split: if_splits)
  show ex: "\<exists>rest. filter (matches q) c = d # rest"
    using assms by (auto simp: find_one_def find_docs_def split: if_splits list.splits)
  then obtain rest where "filter (matches q) c = d # rest" ..
  then have "d \<in> set (filter (matches q) c)" by simp
  then show "matches q d" by simp
qed

lemma update_first_filter:
  assumes "filter (matches q) c = d # rest" and "matches q (apply_set d upd)"
  shows "filter (matches q) (fst (update_first q upd c)) = apply_set d upd # rest"
  using assms
proof (induction c)
  case Nil
  then show ?case by simp
next
  case (Cons x xs)
  show ?case
  proof (cases "matches q x")
    case True
    with Cons.prems show ?thesis by simp
  next
    case False
    with Cons show ?thesis by (cases "update_first q upd xs") simp
  qed
qed

lemma id_match_merged:
  "matches [Key ''id'' c] (apply_set d (update_dict_of e u)) = matches [Key ''id'' c] d"
  by (simp add: matches_def merged_lookups(1))

lemma id_match_loaded:
  assumes "matches [Key ''id'' (Equals (VStr i))] d" and "Patient_init e d = Inr p"
  shows "p_id p = i" and "d \<noteq> []"
proof -
  from assms(1) show "d \<noteq> []" by (auto simp: matches_def)
  from assms(1) Patient_init_fields(1)[OF assms(2)] show "p_id p = i"
    by (auto simp: matches_def def_str_def split: option.splits val.splits)
qed

lemma update_patient_result:
  fixes u :: PatientUpdate
  assumes found: "find_one [Key ''id'' (Equals (VStr i))] (patients s) = Inr (Some d)"
    and loaded: "Patient_init e d = Inr prev"
  defines "ps \<equiv> fst (update_first [Key ''id'' (Equals (VStr i))] (update_dict_of e u) (patients s))"
  shows "update_patient e i u s =
           (Inr (merged_patient prev u (isoformat_utc (utc_now e))), s\<lparr>patients := ps\<rparr>)"
    and "find_one [Key ''id'' (Equals (VStr i))] ps =
           Inr (Some (apply_set d (update_dict_of e u)))"
proof -
  let ?q = "[Key ''id'' (Equals (VStr i))]"
  note fo = find_one_Some[OF found]
  from fo(2) obtain rest where rest: "filter (matches ?q) (patients s) = d # rest" ..
  have m': "matches ?q (apply_set d (update_dict_of e u))"
    using fo(3) by (simp only: id_match_merged)
  have flt: "filter (matches ?q) ps = apply_set d (update_dict_of e u) # rest"
    unfolding ps_def by (rule update_first_filter[OF rest m'])
  show reread: "find_one ?q ps = Inr (Some (apply_set d (update_dict_of e u)))"
    by (simp add: find_one_def find_docs_def flt)
  have ne: "d \<noteq> []" by (rule id_match_loaded(2)[OF fo(3) loaded])
  have upd: "update_one ?q (update_dict_of e u) (patients s) =
      Inr (ps, snd (update_first ?q (update_dict_of e u) (patients s)))"
    by (simp add: update_one_def ps_def)
  show "update_patient e i u s =
           (Inr (merged_patient prev u (isoformat_utc (utc_now e))), s\<lparr>patients := ps\<rparr>)"
    unfolding update_patient_def
    by (simp add: found truthy_doc_def ne Let_def update_dict_of_def[symmetric] upd reread
        Patient_init_merged[OF loaded])
qed

subsection \<open>Completing a task\<close>

lemma ex_iso: "isoformat_utc (utc_now ex_env) = ''2026-11-06T12:30:00+00:00''"
    by (simp add: isoformat_utc_def isoformat_def date_isoformat_def time_isoformat_def
        ex_env_def ex_now_def pad2_def pad4_def digit_def)

lemma Task_init_stored: "Task_init e ((''_id'', v) # Task_dict t) = Inr t"
  apply (cases "t_task_type t"; cases "t_status t")
  apply (simp_all add: Task_init_def Task_dict_def req_str_def def_str_def opt_str_ostr
      req_enum_def def_enum_def TaskType_of_def TaskStatus_of_def enum_of_def)
  done

lemma update_first_none:
  "filter (matches q) c = [] \<Longrightarrow>
   update_first q upd c = (c, \<lparr>matched_count = 0, modified_count = 0\<rparr>)"
  by (induction c) (auto split: if_splits)

lemma update_first_some:
  "filter (matches q) c = d # rest \<Longrightarrow>
   snd (update_first q upd c) =
     \<lparr>matched_count = 1, modified_count = (if apply_set d upd = d then 0 else 1)\<rparr>"
proof (induction c)
  case Nil
  then show ?case by simp
next
  case (Cons x xs)
  then show ?case by (cases "update_first q upd xs") (auto split: if_splits)
qed

lemma update_eq_iff: "AList.update k v al = al \<longleftrightarrow> map_of al k = Some v"
proof
  assume "AList.update k v al = al"
  then have "map_of (AList.update k v al) k = map_of al k" by simp
  then show "map_of al k = Some v" by (simp add: update_conv')
next
  assume "map_of al k = Some v"
  then show "AList.update k v al = al" by (rule update_triv)
qed

lemma apply_set2_same:
  "k \<noteq> k' \<Longrightarrow>
   apply_set d [(k, v), (k', v')] = d \<longleftrightarrow> map_of d k = Some v \<and> map_of d k' = Some v'"
proof
  assume ne: "k \<noteq> k'" and eq: "apply_set d [(k, v), (k', v')] = d"
  then have "map_of (AList.update k' v' (AList.update k v d)) = map_of d"
    by (simp add: apply_set_def)
  then have "\<And>x. ((map_of d)(k \<mapsto> v, k' \<mapsto> v')) x = map_of d x"
    by (simp add: update_conv')
  from this[of k] this[of k'] ne show "map_of d k = Some v \<and> map_of d k' = Some v'"
    by (auto split: if_splits)
next
  assume "k \<noteq> k'" and "map_of d k = Some v \<and> map_of d k' = Some v'"
  then show "apply_set d [(k, v), (k', v')] = d"
    by (simp add: apply_set_def update_triv)
qed

text \<open>When \<^verbatim>\<open>complete_task\<close> answers 404.\<close>

lemma complete_task_not_found_iff:
  "fst (complete_task e i s) = Inl (HTTPException 404 ''Task not found'') \<longleftrightarrow>
   (case find_one [Key ''id'' (Equals (VStr i))] (tasks s) of
      Inr None \<Rightarrow> True
    | Inr (Some d) \<Rightarrow>
        map_of d ''status'' = Some (VStr ''completed'') \<and>
        map_of d ''completed_at'' = Some (VStr (isoformat_utc (utc_now e)))
    | Inl err \<Rightarrow> False)"
proof (cases "filter (matches [Key ''id'' (Equals (VStr i))]) (tasks s)")
  case Nil
  then show ?thesis
    by (simp add: complete_task_def update_one_def update_first_none find_one_def find_docs_def)
next
  case (Cons d rest)
  obtain ts r where u: "update_first [Key ''id'' (Equals (VStr i))]
             [(''status'', VStr (TaskStatus_value COMPLETED)),
              (''completed_at'', VStr (isoformat_utc (utc_now e)))] (tasks s) = (ts, r)"
    by (cases "update_first [Key ''id'' (Equals (VStr i))]
             [(''status'', VStr (TaskStatus_value COMPLETED)),
              (''completed_at'', VStr (isoformat_utc (utc_now e)))] (tasks s)")
  from update_first_some[OF Cons, of "[(''status'', VStr (TaskStatus_value COMPLETED)),
              (''completed_at'', VStr (isoformat_utc (utc_now e)))]"] u
  have r: "r = \<lparr>matched_count = 1, modified_count =
      (if apply_set d [(''status'', VStr (TaskStatus_value COMPLETED)),
              (''completed_at'', VStr (isoformat_utc (utc_now e)))] = d then 0 else 1)\<rparr>"
    by simp
  note u' = u[simplified]
  show ?thesis
    by (simp add: complete_task_def update_one_def u' r find_one_def find_docs_def Cons
        apply_set2_same)
qed

text \<open>When it succeeds, and what it leaves in the store.\<close>

lemma complete_task_success:
  assumes found: "find_one [Key ''id'' (Equals (VStr i))] (tasks s) = Inr (Some d)"
    and fresh: "\<not> (map_of d ''status'' = Some (VStr ''completed'') \<and>
                map_of d ''completed_at'' = Some (VStr (isoformat_utc (utc_now e))))"
  shows "\<exists>s' d'.
    complete_task e i s = (Inr ''Task completed successfully'', s') \<and>
    patients s' = patients s \<and> contact_logs s' = contact_logs s \<and>
    find_one [Key ''id'' (Equals (VStr i))] (tasks s') = Inr (Some d') \<and>
    map_of d' ''status'' = Some (VStr ''completed'') \<and>
    map_of d' ''completed_at'' = Some (VStr (isoformat_utc (utc_now e))) \<and>
    (\<forall>k. k \<noteq> ''status'' \<and> k \<noteq> ''completed_at'' \<longrightarrow> map_of d' k = map_of d k)"
proof -
  let ?q = "[Key ''id'' (Equals (VStr i))]"
  let ?u = "[(''status'', VStr ''completed''),
             (''completed_at'', VStr (isoformat_utc (utc_now e)))]"
  note fo = find_one_Some[OF found]
  from fo(2) obtain rest where rest: "filter (matches ?q) (tasks s) = d # rest" ..
  have lk: "map_of (apply_set d ?u) k =
      (if k = ''completed_at'' then Some (VStr (isoformat_utc (utc_now e)))
       else if k = ''status'' then Some (VStr ''completed'') else map_of d k)" for k
    by (simp add: apply_set_def update_conv')
  have m': "matches ?q (apply_set d ?u)"
    using fo(3) by (simp add: matches_def lk)
  obtain ts r where u: "update_first ?q ?u (tasks s) = (ts, r)"
    by (cases "update_first ?q ?u (tasks s)")
  have flt: "filter (matches ?q) ts = apply_set d ?u # rest"
    using update_first_filter[OF rest m'] u by simp
  have r: "r = \<lparr>matched_count = 1, modified_count = (if apply_set d ?u = d then 0 else 1)\<rparr>"
    using update_first_some[OF rest, of ?u] u by simp
  have ne: "apply_set d ?u \<noteq> d"
    using fresh by (simp add: apply_set2_same)
  have 1: "complete_task e i s = (Inr ''Task completed successfully'', s\<lparr>tasks := ts\<rparr>)"
    by (simp add: complete_task_def update_one_def u r ne)
  have 2: "find_one ?q (tasks (s\<lparr>tasks := ts\<rparr>)) = Inr (Some (apply_set d ?u))"
    by (simp add: find_one_def find_docs_def flt)
  show ?thesis
    apply (rule exI[of _ "s\<lparr>tasks := ts\<rparr>"], rule exI[of _ "apply_set d ?u"])
    apply (simp only: 1 2 simp_thms)
    apply (simp add: lk)
    done
qed

subsection \<open>The search filter\<close>

lemma match_here_literal:
  "match_here True False (map (\<lambda>c. Once (RChar c)) t) s = prefix (lower t) (lower s)"
proof (induction t arbitrary: s)
  case Nil
  then show ?case by (simp add: lower_def)
next
  case (Cons c cs)
  then show ?case by (cases s) (auto simp: lower_def)
qed

lemma match_from_literal:
  "match_from True False (map (\<lambda>c. Once (RChar c)) t) s = sublist (lower t) (lower s)"
proof (induction s)
  case Nil
  then show ?case by (simp add: match_here_literal lower_def)
next
  case (Cons x xs)
  have "sublist (lower t) (lower (x # xs)) =
        (prefix (lower t) (lower (x # xs)) \<or> sublist (lower t) (lower xs))"
    by (simp add: lower_def sublist_Cons_right)
  with Cons show ?case by (simp add: match_here_literal)
qed

lemma regex_search_literal:
  assumes "list_all plain_char t"
  shows "regex_search t ''i'' s = contains_ci t s"
  by (simp add: regex_search_def rx_compile_literal[OF assms] rx_exec_def match_from_literal
      contains_ci_def)

lemma regex_ok_literal: "list_all plain_char t \<Longrightarrow> regex_ok t ''i''"
  by (simp add: regex_ok_def rx_compile_literal)

lemma req_str_lookup: "req_str d k = Inr a \<Longrightarrow> map_of d k = Some (VStr a)"
  by (auto simp: req_str_def split: option.splits val.splits)

lemma search_clause_matches:
  assumes "Patient_init e d = Inr p" and "list_all plain_char t"
  shows "clause_matches
           (Or [[(''first_name'', Regex t ''i'')], [(''last_name'', Regex t ''i'')],
                [(''phone'', Regex t ''i'')]]) d =
         search_hit (Some t) p"
proof -
  note f = Patient_init_fields[OF assms(1)]
  show ?thesis
    by (simp add: fields_match_def req_str_lookup[OF f(2)] req_str_lookup[OF f(3)]
        req_str_lookup[OF f(4)] regex_search_literal[OF assms(2)] search_hit_def)
qed

lemma tan_clause_matches:
  assumes "Patient_init e d = Inr p"
  shows "clause_matches (Key ''tan_expiry_date'' (Lte b)) d = (p_tan_expiry_date p \<le> b)"
  by (simp add: req_str_lookup[OF Patient_init_fields(11)[OF assms]])

lemma load_filtered:
  assumes "list_all2 (\<lambda>d p. f d = Inr p) ds ps"
    and "\<And>d p. f d = Inr p \<Longrightarrow> M d = P p"
  shows "map_all f (take n (filter M ds)) = Inr (take n (filter P ps))"
proof -
  have "list_all2 (\<lambda>d p. f d = Inr p) (filter M ds) (filter P ps)"
    using assms(1) by (rule list_all2_filter_same) (rule assms(2))
  then have "list_all2 (\<lambda>d p. f d = Inr p) (take n (filter M ds)) (take n (filter P ps))"
    by (rule list_all2_takeI)
  then show ?thesis by (rule map_all_list_all2)
qed

lemma get_patients_result:
  assumes wf: "list_all2 (\<lambda>d p. Patient_init e d = Inr p) (patients s) ps"
    and lit: "\<And>t. search = Some t \<Longrightarrow> list_all plain_char t"
    and bound: "truthy_bool tan \<Longrightarrow> plus_days (local_now e) 30 = Inr t30"
  shows "get_patients e search tan s =
         Inr (take 1000 (filter (\<lambda>p. search_hit search p \<and>
                                     (truthy_bool tan \<longrightarrow> p_tan_expiry_date p \<le> isoformat t30))
                           ps))"
proof -
  define q1 :: query where "q1 =
    (case search of
       None \<Rightarrow> []
     | Some t \<Rightarrow>
         if t \<noteq> [] then
           [Or [[(''first_name'', Regex t ''i'')], [(''last_name'', Regex t ''i'')],
                [(''phone'', Regex t ''i'')]]]
         else [])"
  define q where "q = (if truthy_bool tan then q1 @ [Key ''tan_expiry_date'' (Lte (isoformat t30))] else q1)"
  have ok1: "query_ok q1"
    using lit by (auto simp: q1_def query_ok_def regex_ok_literal split: option.splits)
  have ok: "query_ok q" using ok1 by (simp add: q_def query_ok_def)
  have m1: "matches q1 d = search_hit search p" if "Patient_init e d = Inr p" for d p
  proof (cases search)
    case None
    then show ?thesis by (simp add: q1_def matches_def search_hit_def)
  next
    case (Some t)
    show ?thesis
    proof (cases "t = []")
      case True
      with Some show ?thesis
        by (simp add: q1_def matches_def search_hit_def contains_ci_def lower_def)
    next
      case False
      with Some search_clause_matches[OF that lit[OF Some]] show ?thesis
        by (simp add: q1_def matches_def)
    qed
  qed
  have m: "matches q d = (search_hit search p \<and>
             (truthy_bool tan \<longrightarrow> p_tan_expiry_date p \<le> isoformat t30))"
    if "Patient_init e d = Inr p" for d p
    using m1[OF that] tan_clause_matches[OF that, of "isoformat t30"]
    by (simp add: q_def matches_def)
  have "get_patients e search tan s =
        bnd (find_docs q (patients s)) (\<lambda>cursor. map_all (Patient_init e) (to_list 1000 cursor))"
    using bound by (cases search) (simp_all add: get_patients_def q_def q1_def Let_def)
  also have "\<dots> = map_all (Patient_init e) (take 1000 (filter (matches q) (patients s)))"
    by (simp add: find_docs_def ok to_list_def)
  also have "\<dots> = Inr (take 1000 (filter (\<lambda>p. search_hit search p \<and>
                 (truthy_bool tan \<longrightarrow> p_tan_expiry_date p \<le> isoformat t30)) ps))"
    using wf by (rule load_filtered) (rule m)
  finally show ?thesis .
qed

subsection \<open>Patterns with metacharacters\<close>

lemma ex_store_loads:
  "list_all2 (\<lambda>d p. Patient_init e d = Inr p) (patients ex_store) [ex_patient]"
  by (simp add: ex_store_def Patient_init_stored)

lemma ex_store2_loads:
  "list_all2 (\<lambda>d p. Patient_init e d = Inr p) (patients ex_store2) [ex_patient2]"
  by (simp add: ex_store2_def Patient_init_stored)

lemma match_here_dot_star: "match_here ci False [Star a] s = True"
  by (cases s) simp_all

lemma regex_search_dot_star: "regex_search ''.*'' opts s"
proof -
  have "rx_compile ''.*'' = Some \<lparr>anchored_start = False, pieces = [Star RAny], anchored_end = False\<rparr>"
    by (simp add: rx_compile_def rx_atom_def)
  moreover have "match_from ci False [Star a] s" for ci a
    by (cases s) (simp_all add: match_here_dot_star)
  ultimately show ?thesis by (simp add: regex_search_def rx_exec_def)
qed

lemma dot_star_query_ok:
  "query_ok [Or [[(''first_name'', Regex ''.*'' ''i'')], [(''last_name'', Regex ''.*'' ''i'')],
                 [(''phone'', Regex ''.*'' ''i'')]]]"
  by (simp add: query_ok_def regex_ok_def rx_compile_def rx_atom_def)

lemma dot_star_matches:
  assumes "Patient_init e d = Inr p"
  shows "matches [Or [[(''first_name'', Regex ''.*'' ''i'')], [(''last_name'', Regex ''.*'' ''i'')],
                 [(''phone'', Regex ''.*'' ''i'')]]] d"
  by (simp add: matches_def fields_match_def regex_search_dot_star
      req_str_lookup[OF Patient_init_fields(2)[OF assms]])

lemma get_patients_dot_star:
  assumes wf: "list_all2 (\<lambda>d p. Patient_init e d = Inr p) (patients s) ps"
  shows "get_patients e (Some ''.*'') None s = Inr (take 1000 ps)"
proof -
  have "map_all (Patient_init e) (take 1000 (filter (matches [Or [[(''first_name'', Regex ''.*'' ''i'')], [(''last_name'', Regex ''.*'' ''i'')],
                 [(''phone'', Regex ''.*'' ''i'')]]]) (patients s))) = Inr (take 1000 (filter (\<lambda>p. True) ps))"
    using wf by (rule load_filtered) (simp add: dot_star_matches)
  then show ?thesis
    by (simp add: get_patients_def truthy_bool_def find_docs_def dot_star_query_ok to_list_def)
qed

subsection \<open>Order of ISO-8601 text\<close>

lemma of_char_digit: "a < 10 \<Longrightarrow> of_char (digit a) = 48 + a"
  by (drule lt10_cases) (elim disjE; simp add: digit_def)

lemma digit_less: "a < 10 \<Longrightarrow> b < 10 \<Longrightarrow> (digit a < digit b) = (a < b)"
  by (simp add: less_char_def of_char_digit)

lemma digit_eq:
  assumes "a < 10" and "b < 10"
  shows "(digit a = digit b) = (a = b)"
proof
  assume "digit a = digit b"
  then have "(of_char (digit a) :: nat) = of_char (digit b)" by simp
  then show "a = b" using assms by (simp add: of_char_digit)
qed simp

lemma less_div_mod:
  fixes a b k :: nat
  shows "(a < b) = (a div k < b div k \<or> (a div k = b div k \<and> a mod k < b mod k))"
proof -
  consider "a div k < b div k" | "a div k = b div k" | "b div k < a div k"
    by (rule linorder_cases)
  then show ?thesis
  proof cases
    case 1
    have "\<not> b \<le> a"
    proof
      assume "b \<le> a"
      then have "b div k \<le> a div k" by (rule div_le_mono)
      with 1 show False by simp
    qed
    with 1 show ?thesis by simp
  next
    case 2
    have "a = a div k * k + a mod k" "b = a div k * k + b mod k"
      using div_mult_mod_eq[of a k] div_mult_mod_eq[of b k] 2 by simp_all
    then have "(a < b) = (a mod k < b mod k)"
      by (metis add_less_cancel_left)
    with 2 show ?thesis by simp
  next
    case 3
    have "\<not> a < b"
    proof
      assume "a < b"
      then have "a div k \<le> b div k" by (simp add: div_le_mono)
      with 3 show False by simp
    qed
    with 3 show ?thesis by simp
  qed
qed

lemma eq_div_mod:
  fixes a b k :: nat
  shows "(a = b) = (a div k = b div k \<and> a mod k = b mod k)"
  by (metis div_mult_mod_eq)

lemma pad2_less:
  assumes "a < 100" and "b < 100"
  shows "(pad2 a < pad2 b) = (a < b)"
proof -
  have d: "a div 10 < 10" "b div 10 < 10" "a mod 10 < 10" "b mod 10 < 10"
    using assms by simp_all
  have "(pad2 a < pad2 b) =
        (a div 10 < b div 10 \<or> (a div 10 = b div 10 \<and> a mod 10 < b mod 10))"
    by (simp add: pad2_def digit_less[OF d(1) d(2)] digit_eq[OF d(1) d(2)]
        digit_less[OF d(3) d(4)] mod_less[OF d(1)] mod_less[OF d(2)])
  then show ?thesis by (simp only: less_div_mod[of a b 10])
qed

lemma pad2_eq:
  assumes "a < 100" and "b < 100"
  shows "(pad2 a = pad2 b) = (a = b)"
proof -
  have d: "a div 10 < 10" "b div 10 < 10" "a mod 10 < 10" "b mod 10 < 10"
    using assms by simp_all
  have "(pad2 a = pad2 b) = (a div 10 = b div 10 \<and> a mod 10 = b mod 10)"
    by (simp add: pad2_def digit_eq[OF d(1) d(2)] digit_eq[OF d(3) d(4)]
        mod_less[OF d(1)] mod_less[OF d(2)])
  then show ?thesis by (simp only: eq_div_mod[of a b 10])
qed

lemma lex_append_less:
  "length a = length b \<Longrightarrow> (a @ x < b @ y) = (a < b \<or> (a = b \<and> x < y))"
  for a b x y :: string
  by (induction a b rule: list_induct2) auto

lemma lex_append_le:
  "length a = length b \<Longrightarrow> (a @ x \<le> b @ y) = (a < b \<or> (a = b \<and> x \<le> y))"
  for a b x y :: string
  by (induction a b rule: list_induct2) auto

lemma pad4_split: "n < 10000 \<Longrightarrow> pad4 n = pad2 (n div 100) @ pad2 (n mod 100)"
proof -
  assume "n < 10000"
  have 1: "n div 1000 mod 10 = n div 100 div 10 mod 10"
    using div_mult2_eq[of n 100 10] by simp
  have 2: "n div 10 mod 10 = n mod 100 div 10 mod 10"
    using mod_mult2_eq[of n 10 10] by simp
  have 3: "n mod 10 = n mod 100 mod 10"
    using mod_mod_cancel[of 10 100 n] by simp
  show ?thesis unfolding pad4_def pad2_def using 1 2 3 by simp
qed

lemma length_pad2 [simp]: "length (pad2 n) = 2" by (simp add: pad2_def)

lemma length_pad4 [simp]: "length (pad4 n) = 4" by (simp add: pad4_def)

lemma pad4_less:
  assumes "a < 10000" and "b < 10000"
  shows "(pad4 a < pad4 b) = (a < b)"
proof -
  have d: "a div 100 < 100" "b div 100 < 100" "a mod 100 < 100" "b mod 100 < 100"
    using assms by simp_all
  have "(pad4 a < pad4 b) =
        (a div 100 < b div 100 \<or> (a div 100 = b div 100 \<and> a mod 100 < b mod 100))"
    by (simp add: pad4_split assms lex_append_less pad2_less[OF d(1) d(2)]
        pad2_eq[OF d(1) d(2)] pad2_less[OF d(3) d(4)])
  then show ?thesis by (simp only: less_div_mod[of a b 100])
qed

lemma pad4_eq:
  assumes "a < 10000" and "b < 10000"
  shows "(pad4 a = pad4 b) = (a = b)"
proof -
  have d: "a div 100 < 100" "b div 100 < 100" "a mod 100 < 100" "b mod 100 < 100"
    using assms by simp_all
  have "(pad4 a = pad4 b) = (a div 100 = b div 100 \<and> a mod 100 = b mod 100)"
    by (simp add: pad4_split assms pad2_eq[OF d(1) d(2)] pad2_eq[OF d(3) d(4)])
  then show ?thesis by (simp only: eq_div_mod[of a b 100])
qed

lemma days_in_month_le: "days_in_month y m \<le> 31"
  by (simp add: days_in_month_def)

lemma days_in_month_ge: "28 \<le> days_in_month y m"
  by (simp add: days_in_month_def)

lemma date_isoformat_le:
  assumes "valid_date a" and "valid_date b"
  shows "(date_isoformat a \<le> date_isoformat b) = date_le a b"
proof -
  have ra: "year a < 10000" "month a < 100" "day a < 100"
    using assms(1) days_in_month_le[of "year a" "month a"] by (auto simp: valid_date_def)
  have rb: "year b < 10000" "month b < 100" "day b < 100"
    using assms(2) days_in_month_le[of "year b" "month b"] by (auto simp: valid_date_def)
  have le2: "(pad2 (day a) \<le> pad2 (day b)) = (day a \<le> day b)"
    using pad2_less[OF ra(3) rb(3)] pad2_eq[OF ra(3) rb(3)] by (auto simp: le_less)
  have "(date_isoformat a \<le> date_isoformat b) =
        (pad4 (year a) < pad4 (year b) \<or>
         (pad4 (year a) = pad4 (year b) \<and>
          (pad2 (month a) < pad2 (month b) \<or>
           (pad2 (month a) = pad2 (month b) \<and> pad2 (day a) \<le> pad2 (day b)))))"
    by (simp add: date_isoformat_def lex_append_le)
  then show ?thesis
    by (simp add: pad4_less[OF ra(1) rb(1)] pad4_eq[OF ra(1) rb(1)]
        pad2_less[OF ra(2) rb(2)] pad2_eq[OF ra(2) rb(2)] le2 date_le_def)
qed

lemma length_date_isoformat [simp]: "length (date_isoformat d) = 10"
  by (simp add: date_isoformat_def)

lemma date_text_le_timestamp:
  assumes "valid_date a" and "valid_date (dt_date t)"
  shows "(date_isoformat a \<le> isoformat t) = date_le a (dt_date t)"
proof -
  have "(date_isoformat a @ [] \<le> date_isoformat (dt_date t) @ (''T'' @ time_isoformat t)) =
        (date_isoformat a < date_isoformat (dt_date t) \<or>
         (date_isoformat a = date_isoformat (dt_date t) \<and> [] \<le> ''T'' @ time_isoformat t))"
    by (rule lex_append_le) simp
  then have "(date_isoformat a \<le> isoformat t) =
             (date_isoformat a \<le> date_isoformat (dt_date t))"
    by (auto simp: isoformat_def le_less)
  then show ?thesis by (simp add: date_isoformat_le[OF assms])
qed

subsection \<open>Days added to a date\<close>

lemma valid_date_alt: "valid_date d = (1 \<le> year d \<and> year d \<le> 9999 \<and> month_day_ok d)"
  by (auto simp: valid_date_def month_day_ok_def)

lemma date_le_refl: "date_le a a"
  by (simp add: date_le_def)

lemma date_le_trans: "date_le a b \<Longrightarrow> date_le b c \<Longrightarrow> date_le a c"
  by (auto simp: date_le_def)

lemma date_le_year: "date_le a b \<Longrightarrow> year a \<le> year b"
  by (auto simp: date_le_def)

lemma next_day_ok: "month_day_ok d \<Longrightarrow> month_day_ok (next_day d)"
  using days_in_month_ge[of "year d" "Suc (month d)"] days_in_month_ge[of "Suc (year d)" 1]
  by (auto simp: month_day_ok_def next_day_def)

lemma next_day_later: "month_day_ok d \<Longrightarrow> date_le d (next_day d) \<and> \<not> date_le (next_day d) d"
  by (auto simp: month_day_ok_def next_day_def date_le_def)

lemma funpow_next_day_ok: "month_day_ok d \<Longrightarrow> month_day_ok ((next_day ^^ n) d)"
  by (induction n) (simp_all add: next_day_ok)

lemma funpow_next_day_le:
  "month_day_ok d \<Longrightarrow> m \<le> n \<Longrightarrow> date_le ((next_day ^^ m) d) ((next_day ^^ n) d)"
proof (induction n)
  case 0
  then show ?case by (simp add: date_le_refl)
next
  case (Suc n)
  show ?case
  proof (cases "m = Suc n")
    case True
    then show ?thesis by (simp add: date_le_refl)
  next
    case False
    with Suc.prems have "m \<le> n" by simp
    then have "date_le ((next_day ^^ m) d) ((next_day ^^ n) d)" using Suc by simp
    moreover have "date_le ((next_day ^^ n) d) ((next_day ^^ Suc n) d)"
      using next_day_later[OF funpow_next_day_ok[OF Suc.prems(1), of n]] by simp
    ultimately show ?thesis by (rule date_le_trans)
  qed
qed

lemma funpow_next_day_less:
  assumes "month_day_ok d" and "m < n"
  shows "\<not> date_le ((next_day ^^ n) d) ((next_day ^^ m) d)"
proof
  assume le: "date_le ((next_day ^^ n) d) ((next_day ^^ m) d)"
  from assms(2) have "Suc m \<le> n" by simp
  then have "date_le ((next_day ^^ Suc m) d) ((next_day ^^ n) d)"
    by (rule funpow_next_day_le[OF assms(1)])
  then have "date_le ((next_day ^^ Suc m) d) ((next_day ^^ m) d)"
    using le by (rule date_le_trans)
  moreover have "\<not> date_le ((next_day ^^ Suc m) d) ((next_day ^^ m) d)"
    using next_day_later[OF funpow_next_day_ok[OF assms(1), of m]] by simp
  ultimately show False by simp
qed

lemma add_days_Inr:
  assumes "add_days n d = Inr x"
  shows "x = (next_day ^^ n) d" and "year x \<le> 9999"
  using assms by (auto simp: add_days_def Let_def split: if_splits)

lemma add_days_valid:
  assumes "valid_date d" and "add_days n d = Inr x"
  shows "valid_date x"
proof -
  note x = add_days_Inr[OF assms(2)]
  from assms(1) have ok: "month_day_ok d" and y: "1 \<le> year d"
    by (simp_all add: valid_date_alt)
  have "date_le ((next_day ^^ 0) d) ((next_day ^^ n) d)"
    by (rule funpow_next_day_le[OF ok]) simp
  then have "year d \<le> year x" using date_le_year x(1) by simp
  with y x(2) funpow_next_day_ok[OF ok, of n] x(1) show ?thesis
    by (simp add: valid_date_alt)
qed

lemma add_days_mono:
  assumes "valid_date d" and "add_days m d = Inr x" and "add_days n d = Inr y"
  shows "m \<le> n \<Longrightarrow> date_le x y" and "n < m \<Longrightarrow> \<not> date_le x y"
proof -
  from assms(1) have ok: "month_day_ok d" by (simp add: valid_date_alt)
  note x = add_days_Inr(1)[OF assms(2)] and y = add_days_Inr(1)[OF assms(3)]
  show "m \<le> n \<Longrightarrow> date_le x y" unfolding x y by (rule funpow_next_day_le[OF ok])
  show "n < m \<Longrightarrow> \<not> date_le x y" unfolding x y by (rule funpow_next_day_less[OF ok])
qed

lemma plus_days_Inr:
  assumes "plus_days t n = Inr t'"
  shows "add_days n (dt_date t) = Inr (dt_date t')"
  using assms by (auto simp: plus_days_def elim!: bndE)

lemma ex_plus_30:
  "plus_days (local_now ex_env) 30 =
   Inr \<lparr>dt_date = \<lparr>year = 2026, month = 12, day = 6\<rparr>,
        hour = 12, minute = 30, second = 0, microsecond = 0\<rparr>"
  by (simp add: plus_days_def add_days_def ex_env_def ex_now_def eval_nat_numeral
      next_day_def days_in_month_def is_leap_def)

subsection \<open>A store of 1001 patients\<close>

lemma list_all2_map_same:
  "(\<And>x. x \<in> set xs \<Longrightarrow> R (f x) (g x)) \<Longrightarrow> list_all2 R (map f xs) (map g xs)"
  by (induction xs) simp_all

lemma ex_big_store_loads:
  "list_all2 (\<lambda>d p. Patient_init e d = Inr p) (patients ex_big_store)
     (map ex_numbered [0..<1001])"
  unfolding ex_big_store_def by (simp del: upt_Suc) (rule list_all2_map_same, rule Patient_init_stored)

lemma ex_expiry_20: "add_days 20 (dt_date (local_now ex_env)) = Inr \<lparr>year = 2026, month = 11, day = 26\<rparr>"
  by (simp add: add_days_def ex_env_def ex_now_def eval_nat_numeral
      next_day_def days_in_month_def is_leap_def)

lemma ex_numbered_expiry:
  "p_tan_expiry_date (ex_numbered n) = date_isoformat \<lparr>year = 2026, month = 11, day = 26\<rparr>"
  by (simp add: ex_numbered_def ex_patient_def date_isoformat_def pad4_def pad2_def digit_def)

lemma ex_today_valid: "valid_date (dt_date (local_now ex_env))"
  by (simp add: valid_date_def ex_env_def ex_now_def days_in_month_def)

subsection \<open>The queries of the daily report\<close>

lemma Task_init_fields:
  assumes "Task_init e d = Inr t"
  shows "opt_str d ''due_date'' = Inr (t_due_date t)"
    and "def_enum TaskStatus_of d ''status'' PENDING = Inr (t_status t)"
  using assms unfolding Task_init_def by (auto elim!: bndE)

lemma ContactLog_init_fields:
  assumes "ContactLog_init e d = Inr c"
  shows "def_bool d ''follow_up_needed'' False = Inr (cl_follow_up_needed c)"
    and "opt_str d ''follow_up_date'' = Inr (cl_follow_up_date c)"
  using assms unfolding ContactLog_init_def by (auto elim!: bndE)

lemma TaskStatus_of_completed: "TaskStatus_of s = Some st \<Longrightarrow> (s = ''completed'') = (st = COMPLETED)"
  by (cases st) (auto simp: TaskStatus_of_def enum_of_def split: if_splits)

lemma opt_str_eq_matches:
  "opt_str d k = Inr x \<Longrightarrow> eq_matches (VStr a) (map_of d k) = (x = Some a)"
  by (auto simp: opt_str_def split: option.splits val.splits)

lemma opt_str_strings:
  "opt_str d k = Inr x \<Longrightarrow> strings_of (map_of d k) = (case x of None \<Rightarrow> [] | Some f \<Rightarrow> [f])"
  by (auto simp: opt_str_def split: option.splits val.splits)

lemma status_not_completed:
  "def_enum TaskStatus_of d ''status'' PENDING = Inr st \<Longrightarrow>
   eq_matches (VStr ''completed'') (map_of d ''status'') = (st = COMPLETED)"
  by (auto simp: def_enum_def req_enum_def TaskStatus_of_completed
      split: option.splits val.splits)

lemma def_bool_eq_matches:
  "def_bool d k False = Inr b \<Longrightarrow> eq_matches (VBool True) (map_of d k) = b"
  by (auto simp: def_bool_def split: option.splits val.splits)

lemma daily_query_matches:
  assumes "Task_init e d = Inr t"
  shows "matches [Key ''due_date'' (Equals (VStr today)),
                  Key ''status'' (Ne (VStr (TaskStatus_value COMPLETED)))] d = task_due today t"
  using opt_str_eq_matches[OF Task_init_fields(1)[OF assms], of today]
    status_not_completed[OF Task_init_fields(2)[OF assms]]
  by (simp add: matches_def task_due_def)

lemma callback_query_matches:
  assumes "ContactLog_init e d = Inr c"
  shows "matches [Key ''follow_up_needed'' (Equals (VBool True)),
                  Key ''follow_up_date'' (Lte today)] d = callback_due today c"
  using def_bool_eq_matches[OF ContactLog_init_fields(1)[OF assms]]
    opt_str_strings[OF ContactLog_init_fields(2)[OF assms]]
  by (simp add: matches_def callback_due_def split: option.splits)

lemma expiring_query_matches:
  assumes "Patient_init e d = Inr p"
  shows "matches [Key ''tan_expiry_date'' (Lte b)] d = (p_tan_expiry_date p \<le> b)"
  using tan_clause_matches[OF assms, of b] by (simp add: matches_def)

lemma list_all2_take_filter:
  assumes "list_all2 (\<lambda>d p. f d = Inr p) ds ps"
    and "\<And>d p. f d = Inr p \<Longrightarrow> M d = P p"
  shows "length (take n (filter M ds)) = length (take n (filter P ps))"
proof -
  have "list_all2 (\<lambda>d p. f d = Inr p) (filter M ds) (filter P ps)"
    using assms(1) by (rule list_all2_filter_same) (rule assms(2))
  then have "length (filter M ds) = length (filter P ps)" by (rule list_all2_lengthD)
  then show ?thesis by simp
qed

lemma get_daily_call_report_result:
  assumes wfp: "list_all2 (\<lambda>d p. Patient_init e d = Inr p) (patients s) ps"
    and wft: "list_all2 (\<lambda>d t. Task_init e d = Inr t) (tasks s) ts"
    and wfc: "list_all2 (\<lambda>d c. ContactLog_init e d = Inr c) (contact_logs s) cs"
    and bound: "plus_days (local_now e) 30 = Inr t30"
  defines "today \<equiv> date_isoformat (dt_date (utc_now e))"
  shows "get_daily_call_report e s =
         Inr \<lparr>daily_tasks = take 1000 (filter (task_due today) ts),
              callbacks_needed = take 1000 (filter (callback_due today) cs),
              expiring_tans = take 1000 (filter (\<lambda>p. p_tan_expiry_date p \<le> isoformat t30) ps),
              total_items =
                length (take 1000 (filter (task_due today) ts)) +
                length (take 1000 (filter (callback_due today) cs)) +
                length (take 1000 (filter (\<lambda>p. p_tan_expiry_date p \<le> isoformat t30) ps))\<rparr>"
proof -
  let ?qt = "[Key ''due_date'' (Equals (VStr today)),
              Key ''status'' (Ne (VStr (TaskStatus_value COMPLETED)))]"
  let ?qc = "[Key ''follow_up_needed'' (Equals (VBool True)), Key ''follow_up_date'' (Lte today)]"
  let ?qp = "[Key ''tan_expiry_date'' (Lte (isoformat t30))]"
  have t: "map_all (Task_init e) (take 1000 (filter (matches ?qt) (tasks s))) =
           Inr (take 1000 (filter (task_due today) ts))"
    using wft by (rule load_filtered) (rule daily_query_matches)
  have c: "map_all (ContactLog_init e) (take 1000 (filter (matches ?qc) (contact_logs s))) =
           Inr (take 1000 (filter (callback_due today) cs))"
    using wfc by (rule load_filtered) (rule callback_query_matches)
  have p: "map_all (Patient_init e) (take 1000 (filter (matches ?qp) (patients s))) =
           Inr (take 1000 (filter (\<lambda>p. p_tan_expiry_date p \<le> isoformat t30) ps))"
    using wfp by (rule load_filtered) (rule expiring_query_matches)
  have lt: "length (take 1000 (filter (matches ?qt) (tasks s))) =
            length (take 1000 (filter (task_due today) ts))"
    using wft by (rule list_all2_take_filter) (rule daily_query_matches)
  have lc: "length (take 1000 (filter (matches ?qc) (contact_logs s))) =
            length (take 1000 (filter (callback_due today) cs))"
    using wfc by (rule list_all2_take_filter) (rule callback_query_matches)
  have lp: "length (take 1000 (filter (matches ?qp) (patients s))) =
            length (take 1000 (filter (\<lambda>p. p_tan_expiry_date p \<le> isoformat t30) ps))"
    using wfp by (rule list_all2_take_filter) (rule expiring_query_matches)
  have ok: "query_ok ?qt" "query_ok ?qc" "query_ok ?qp" by (simp_all add: query_ok_def)
  show ?thesis
    unfolding get_daily_call_report_def today_def[symmetric]
    by (simp only: Let_def find_docs_def ok if_True bnd_Inr to_list_def bound t c p lt lc lp)
qed

subsection \<open>Sample tasks and contact logs\<close>

lemma ContactLog_init_stored: "ContactLog_init e ((''_id'', v) # ContactLog_dict c) = Inr c"
  apply (cases "cl_outcome c")
  apply (simp_all add: ContactLog_init_def ContactLog_dict_def req_str_def def_str_def
      opt_str_ostr req_enum_def def_bool_def ContactOutcome_of_def enum_of_def)
  done

lemma ex_today: "date_isoformat (dt_date (utc_now ex_env)) = ''2026-11-06''"
  by (simp add: date_isoformat_def ex_env_def ex_now_def pad4_def pad2_def digit_def)

lemma ex_busy_store_loads:
  "list_all2 (\<lambda>d t. Task_init e d = Inr t) (tasks ex_busy_store) (map ex_numbered_task [0..<1001])"
  unfolding ex_busy_store_def by (simp del: upt_Suc) (rule list_all2_map_same, rule Task_init_stored)

section \<open>Every reachable store loads\<close>

text \<open>
  The statements below about lists and reports assume that the stored documents load.
  The writing endpoints keep that true: the documents they insert are dicts of
  validated models, and the fields they assign are well typed.
\<close>

lemma patient_doc_stored: "patient_doc ((''_id'', v) # Patient_dict p)"
  unfolding patient_doc_def by (rule exI[of _ p]) (simp add: Patient_init_stored)

lemma task_doc_stored: "task_doc ((''_id'', v) # Task_dict t)"
  unfolding task_doc_def by (rule exI[of _ t]) (simp add: Task_init_stored)

lemma log_doc_stored: "log_doc ((''_id'', v) # ContactLog_dict c)"
  unfolding log_doc_def by (rule exI[of _ c]) (simp add: ContactLog_init_stored)

lemma no_id_Patient_dict: "map_of (Patient_dict p) ''_id'' = None"
  by (simp add: Patient_dict_def)

lemma no_id_Task_dict: "map_of (Task_dict p) ''_id'' = None"
  by (simp add: Task_dict_def)

lemma no_id_ContactLog_dict: "map_of (ContactLog_dict p) ''_id'' = None"
  by (simp add: ContactLog_dict_def)

lemma create_patient_ok: "stored_ok s \<Longrightarrow> stored_ok (snd (create_patient e x s))"
  by (simp add: create_patient_def Patient_init_create stored_ok_def insert_one_def
      no_id_Patient_dict patient_doc_stored)

lemma create_task_ok: "stored_ok s \<Longrightarrow> stored_ok (snd (create_task e x s))"
  by (auto simp: create_task_def stored_ok_def insert_one_def no_id_Task_dict task_doc_stored
      Let_def split: sum.splits)

lemma create_contact_log_ok: "stored_ok s \<Longrightarrow> stored_ok (snd (create_contact_log e x s))"
  by (auto simp: create_contact_log_def stored_ok_def insert_one_def no_id_ContactLog_dict
      log_doc_stored Let_def split: sum.splits)

lemma delete_first_subset: "set (fst (delete_first q c)) \<subseteq> set c"
  by (induction c) (auto split: prod.splits)

lemma delete_patient_ok: "stored_ok s \<Longrightarrow> stored_ok (snd (delete_patient e i s))"
  using delete_first_subset[of "[Key ''id'' (Equals (VStr i))]" "patients s"]
  by (auto simp: delete_patient_def delete_one_def stored_ok_def list_all_iff
      split: prod.splits)

lemma update_first_all:
  assumes "list_all P c" and "\<And>d. P d \<Longrightarrow> P (apply_set d upd)"
  shows "list_all P (fst (update_first q upd c))"
  using assms(1)
proof (induction c)
  case Nil
  then show ?case by simp
next
  case (Cons x xs)
  then show ?case by (cases "update_first q upd xs") (auto simp: assms(2))
qed

lemma patient_doc_merged: "patient_doc d \<Longrightarrow> patient_doc (apply_set d (update_dict_of e u))"
proof -
  assume "patient_doc d"
  then obtain prev where prev: "\<And>e'. Patient_init e' d = Inr prev"
    by (auto simp: patient_doc_def)
  show ?thesis
    unfolding patient_doc_def
    by (rule exI[of _ "merged_patient prev u (isoformat_utc (utc_now e))"])
      (simp add: Patient_init_merged[OF prev])
qed

lemma update_patient_ok: "stored_ok s \<Longrightarrow> stored_ok (snd (update_patient e i u s))"
proof -
  assume ok: "stored_ok s"
  let ?q = "[Key ''id'' (Equals (VStr i))]"
  have all: "list_all patient_doc (fst (update_first ?q (update_dict_of e u) (patients s)))"
    by (rule update_first_all) (use ok in \<open>simp_all add: stored_ok_def patient_doc_merged\<close>)
  obtain ps r where u: "update_first ?q (update_dict_of e u) (patients s) = (ps, r)"
    by (cases "update_first ?q (update_dict_of e u) (patients s)")
  with all have ps: "list_all patient_doc ps" by simp
  have "stored_ok (s\<lparr>patients := ps\<rparr>)" using ok ps by (simp add: stored_ok_def)
  then show ?thesis
    using ok
    by (auto simp: update_patient_def Let_def update_dict_of_def[symmetric] update_one_def u
        split: sum.splits option.splits if_splits)
qed

lemma Task_init_all_fields:
  assumes "Task_init e d = Inr t"
  shows "def_str d ''id'' (uuid4 (rand e)) = Inr (t_id t)"
    and "req_str d ''patient_id'' = Inr (t_patient_id t)"
    and "req_enum TaskType_of d ''task_type'' = Inr (t_task_type t)"
    and "req_str d ''title'' = Inr (t_title t)"
    and "def_str d ''description'' [] = Inr (t_description t)"
    and "def_str d ''assigned_to'' ''admin'' = Inr (t_assigned_to t)"
    and "opt_str d ''due_date'' = Inr (t_due_date t)"
    and "def_str d ''created_at'' (isoformat_utc (utc_now e)) = Inr (t_created_at t)"
  using assms unfolding Task_init_def by (auto elim!: bndE)

lemma validators_same:
  assumes "map_of d' k = map_of d k"
  shows "req_str d' k = req_str d k"
    and "opt_str d' k = opt_str d k"
    and "req_enum f d' k = req_enum f d k"
  using assms by (simp_all add: req_str_def opt_str_def req_enum_def)

lemma Task_init_completed:
  assumes "Task_init e' d = Inr t"
  shows "Task_init e'
           (apply_set d [(''status'', VStr (TaskStatus_value COMPLETED)), (''completed_at'', VStr now)]) =
         Inr (t\<lparr>t_status := COMPLETED, t_completed_at := Some now\<rparr>)"
proof -
  define d' where
    "d' = apply_set d [(''status'', VStr (TaskStatus_value COMPLETED)), (''completed_at'', VStr now)]"
  have lk: "map_of d' k =
      (if k = ''completed_at'' then Some (VStr now)
       else if k = ''status'' then Some (VStr ''completed'') else map_of d k)" for k
    by (simp add: d'_def apply_set_def update_conv')
  note f = Task_init_all_fields[OF assms]
  have v: "def_str d' ''id'' (uuid4 (rand e')) = Inr (t_id t)"
    "req_str d' ''patient_id'' = Inr (t_patient_id t)"
    "req_enum TaskType_of d' ''task_type'' = Inr (t_task_type t)"
    "req_str d' ''title'' = Inr (t_title t)"
    "def_str d' ''description'' [] = Inr (t_description t)"
    "def_str d' ''assigned_to'' ''admin'' = Inr (t_assigned_to t)"
    "def_enum TaskStatus_of d' ''status'' PENDING = Inr COMPLETED"
    "opt_str d' ''due_date'' = Inr (t_due_date t)"
    "def_str d' ''created_at'' (isoformat_utc (utc_now e')) = Inr (t_created_at t)"
    "opt_str d' ''completed_at'' = Inr (Some now)"
    using f
    by (simp_all add: def_str_def req_str_def req_enum_def def_enum_def opt_str_def lk
        TaskStatus_of_def enum_of_def)
  have "Task_init e' d' = Inr (t\<lparr>t_status := COMPLETED, t_completed_at := Some now\<rparr>)"
    unfolding Task_init_def by (simp only: v bnd_Inr) simp
  then show ?thesis by (simp only: d'_def)
qed

lemma task_doc_completed:
  "task_doc d \<Longrightarrow>
   task_doc (apply_set d [(''status'', VStr (TaskStatus_value COMPLETED)), (''completed_at'', VStr now)])"
proof -
  assume "task_doc d"
  then obtain t where t: "\<And>e'. Task_init e' d = Inr t"
    by (auto simp: task_doc_def)
  show ?thesis
    unfolding task_doc_def
    by (rule exI[of _ "t\<lparr>t_status := COMPLETED, t_completed_at := Some now\<rparr>"])
      (simp only: Task_init_completed[OF t] simp_thms)
qed

lemma complete_task_ok: "stored_ok s \<Longrightarrow> stored_ok (snd (complete_task e i s))"
proof -
  assume ok: "stored_ok s"
  let ?q = "[Key ''id'' (Equals (VStr i))]"
  let ?u = "[(''status'', VStr (TaskStatus_value COMPLETED)),
             (''completed_at'', VStr (isoformat_utc (utc_now e)))]"
  have all: "list_all task_doc (fst (update_first ?q ?u (tasks s)))"
    by (rule update_first_all) (use ok in \<open>simp_all only: stored_ok_def task_doc_completed\<close>)
  obtain ts r where u: "update_first ?q ?u (tasks s) = (ts, r)"
    by (cases "update_first ?q ?u (tasks s)")
  with all have "list_all task_doc ts" by simp
  then have "stored_ok (s\<lparr>tasks := ts\<rparr>)" using ok by (simp add: stored_ok_def)
  then show ?thesis
    using u by (simp add: complete_task_def update_one_def)
qed

theorem reachable_stored_ok: "reachable s \<Longrightarrow> stored_ok s"
proof (induction rule: reachable.induct)
  case empty
  show ?case by (simp add: stored_ok_def)
next
  case (create_patient s e x)
  then show ?case by (simp add: create_patient_ok)
next
  case (update_patient s e i u)
  then show ?case by (simp add: update_patient_ok)
next
  case (delete_patient s e i)
  then show ?case by (simp add: delete_patient_ok)
next
  case (create_task s e y)
  then show ?case by (simp add: create_task_ok)
next
  case (complete_task s e i)
  then show ?case by (simp add: complete_task_ok)
next
  case (create_contact_log s e z)
  then show ?case by (simp add: create_contact_log_ok)
qed

lemma list_all_ex_list_all2:
  "list_all (\<lambda>d. \<exists>p. R d p) ds \<Longrightarrow> \<exists>ps. list_all2 R ds ps"
proof (induction ds)
  case Nil
  then show ?case by simp
next
  case (Cons d ds)
  then obtain p ps where "R d p" "list_all2 R ds ps" by auto
  then have "list_all2 R (d # ds) (p # ps)" by simp
  then show ?case ..
qed

theorem reachable_store_loads:
  assumes "reachable s"
  shows "\<exists>ps ts cs.
           list_all2 (\<lambda>d p. Patient_init e d = Inr p) (patients s) ps \<and>
           list_all2 (\<lambda>d t. Task_init e d = Inr t) (tasks s) ts \<and>
           list_all2 (\<lambda>d c. ContactLog_init e d = Inr c) (contact_logs s) cs"
proof -
  from reachable_stored_ok[OF assms]
  have p: "list_all (\<lambda>d. \<exists>p. Patient_init e d = Inr p) (patients s)"
    and t: "list_all (\<lambda>d. \<exists>t. Task_init e d = Inr t) (tasks s)"
    and c: "list_all (\<lambda>d. \<exists>c. ContactLog_init e d = Inr c) (contact_logs s)"
    by (auto simp: stored_ok_def patient_doc_def task_doc_def log_doc_def list_all_iff)
  from list_all_ex_list_all2[OF p] list_all_ex_list_all2[OF t] list_all_ex_list_all2[OF c]
  show ?thesis by blast
qed

theorem reachable_store_loads_witness:
  "\<exists>ps ts cs.
     list_all2 (\<lambda>d p. Patient_init ex_env d = Inr p)
       (patients (snd (create_patient ex_env ex_create
          \<lparr>patients = [], tasks = [], contact_logs = []\<rparr>))) ps \<and>
     list_all2 (\<lambda>d t. Task_init ex_env d = Inr t)
       (tasks (snd (create_patient ex_env ex_create
          \<lparr>patients = [], tasks = [], contact_logs = []\<rparr>))) ts \<and>
     list_all2 (\<lambda>d c. ContactLog_init ex_env d = Inr c)
       (contact_logs (snd (create_patient ex_env ex_create
          \<lparr>patients = [], tasks = [], contact_logs = []\<rparr>))) cs"
  by (rule reachable_store_loads) (rule reachable.create_patient, rule reachable.empty)

section \<open>The query of the task list\<close>

text \<open>
  The task list builds its query from the parameters that are truthy, reads at most 1000
  matching documents and loads them. On a store whose task documents load, the result is
  the list of the loaded tasks, filtered by the same parameters. A status given as a
  parameter is compared with the stored text, so the document has to hold one: a
  document without \<^verbatim>\<open>status\<close> loads as pending and is matched by no status.
\<close>

lemma load_filtered_rel:
  assumes "list_all2 R ds ps"
    and "\<And>d p. R d p \<Longrightarrow> f d = Inr p"
    and "\<And>d p. R d p \<Longrightarrow> M d = P p"
  shows "map_all f (take n (filter M ds)) = Inr (take n (filter P ps))"
proof -
  have "list_all2 R (filter M ds) (filter P ps)"
    using assms(1) by (rule list_all2_filter_same) (rule assms(3))
  then have "list_all2 R (take n (filter M ds)) (take n (filter P ps))"
    by (rule list_all2_takeI)
  then have "list_all2 (\<lambda>d p. f d = Inr p) (take n (filter M ds)) (take n (filter P ps))"
    by (rule list_all2_mono) (rule assms(2))
  then show ?thesis by (rule map_all_list_all2)
qed

lemma matches_append: "matches (a @ b) d = (matches a d \<and> matches b d)"
  by (simp add: matches_def)

lemma TaskStatus_of_value: "TaskStatus_of s = Some y \<Longrightarrow> (s = TaskStatus_value x) = (y = x)"
  by (cases x; cases y) (auto simp: TaskStatus_of_def enum_of_def split: if_splits)

lemma status_clause_matches:
  assumes "def_enum TaskStatus_of d ''status'' PENDING = Inr y" and "map_of d ''status'' \<noteq> None"
  shows "eq_matches (VStr (TaskStatus_value x)) (map_of d ''status'') = (y = x)"
  using assms
  by (auto simp: def_enum_def req_enum_def TaskStatus_of_value
      split: option.splits val.splits)

lemma TaskStatus_value_nonempty: "TaskStatus_value x \<noteq> []"
  by (cases x) simp_all

lemma get_tasks_result:
  assumes wf: "list_all2 (\<lambda>d t. Task_init e d = Inr t \<and>
                 (st \<noteq> None \<longrightarrow> map_of d ''status'' \<noteq> None)) (tasks s) ts"
  shows "get_tasks e pid st due s =
         Inr (take 1000 (filter (\<lambda>t.
            (truthy_str pid \<longrightarrow> Some (t_patient_id t) = pid) \<and>
            (case st of None \<Rightarrow> True | Some x \<Rightarrow> t_status t = x) \<and>
            (truthy_bool due \<longrightarrow>
               t_due_date t = Some (date_isoformat (dt_date (utc_now e))))) ts))"
proof -
  define q1 :: query where
    "q1 = (if truthy_str pid then [Key ''patient_id'' (Equals (oval VStr pid))] else [])"
  define q2 :: query where
    "q2 = (case st of None \<Rightarrow> []
           | Some x \<Rightarrow> [Key ''status'' (Equals (VStr (TaskStatus_value x)))])"
  define q3 :: query where
    "q3 = (if truthy_bool due
           then [Key ''due_date'' (Equals (VStr (date_isoformat (dt_date (utc_now e)))))]
           else [])"
  have ok: "query_ok (q1 @ q2 @ q3)"
    by (simp add: q1_def q2_def q3_def query_ok_def split: option.splits)
  have m1: "matches q1 d = (truthy_str pid \<longrightarrow> Some (t_patient_id t) = pid)"
    if "Task_init e d = Inr t" for d t
    using req_str_lookup[OF Task_init_all_fields(2)[OF that]]
    by (cases pid) (auto simp: q1_def matches_def truthy_str_def oval_def)
  have m2: "matches q2 d = (case st of None \<Rightarrow> True | Some x \<Rightarrow> t_status t = x)"
    if "Task_init e d = Inr t" and "st \<noteq> None \<longrightarrow> map_of d ''status'' \<noteq> None" for d t
  proof (cases st)
    case None
    then show ?thesis by (simp add: q2_def matches_def)
  next
    case (Some x)
    then show ?thesis
      using status_clause_matches[OF Task_init_fields(2)[OF that(1)], of x] that(2)
      by (simp add: q2_def matches_def)
  qed
  have m3: "matches q3 d =
      (truthy_bool due \<longrightarrow> t_due_date t = Some (date_isoformat (dt_date (utc_now e))))"
    if "Task_init e d = Inr t" for d t
    using opt_str_eq_matches[OF Task_init_fields(1)[OF that],
        of "date_isoformat (dt_date (utc_now e))"]
    by (simp add: q3_def matches_def)
  have "get_tasks e pid st due s =
        bnd (find_docs (q1 @ q2 @ q3) (tasks s)) (\<lambda>cursor.
          map_all (Task_init e) (to_list 1000 cursor))"
    by (cases st) (simp_all add: get_tasks_def q1_def q2_def q3_def Let_def
        TaskStatus_value_nonempty)
  also have "\<dots> = map_all (Task_init e) (take 1000 (filter (matches (q1 @ q2 @ q3)) (tasks s)))"
    by (simp add: find_docs_def ok to_list_def)
  also have "\<dots> = Inr (take 1000 (filter (\<lambda>t.
            (truthy_str pid \<longrightarrow> Some (t_patient_id t) = pid) \<and>
            (case st of None \<Rightarrow> True | Some x \<Rightarrow> t_status t = x) \<and>
            (truthy_bool due \<longrightarrow>
               t_due_date t = Some (date_isoformat (dt_date (utc_now e))))) ts))"
    using wf
  proof (rule load_filtered_rel)
    fix d t
    assume r: "Task_init e d = Inr t \<and> (st \<noteq> None \<longrightarrow> map_of d ''status'' \<noteq> None)"
    then show "Task_init e d = Inr t" by simp
    from r have a: "Task_init e d = Inr t"
      and b: "st \<noteq> None \<longrightarrow> map_of d ''status'' \<noteq> None"
      by simp_all
    show "matches (q1 @ q2 @ q3) d =
      ((truthy_str pid \<longrightarrow> Some (t_patient_id t) = pid) \<and>
       (case st of None \<Rightarrow> True | Some x \<Rightarrow> t_status t = x) \<and>
       (truthy_bool due \<longrightarrow> t_due_date t = Some (date_isoformat (dt_date (utc_now e)))))"
      by (simp only: matches_append m1[OF a] m2[OF a b] m3[OF a])
  qed
  finally show ?thesis .
qed


lemma get_tasks_unfiltered:
  "get_tasks e None None (Some False) s = map_all (Task_init e) (take 1000 (tasks s))"
  "get_tasks e None None None s = map_all (Task_init e) (take 1000 (tasks s))"
  by (simp_all add: get_tasks_def truthy_bool_def truthy_str_def find_docs_def query_ok_def
      matches_def to_list_def)

lemma ex_later_store_loads:
  "list_all2 (\<lambda>d t. Task_init e d = Inr t \<and> map_of d ''status'' \<noteq> None)
     (tasks ex_later_store) [ex_task_due, ex_task_later]"
  by (simp add: ex_later_store_def Task_init_stored) (simp add: Task_dict_def)

lemma ex_store3_find_one:
  "find_one [Key ''id'' (Equals (VStr ''p-3''))] (patients ex_store3) =
   Inr (Some ((''_id'', VObjectId 5) # Patient_dict ex_patient3))"
  by (simp add: find_one_def find_docs_def ex_store3_def stored_matches_id)
    (simp add: ex_patient3_def)

section \<open>The monthly summary's eligibility count (C8)\<close>

text \<open>
  C8. Whatever the clock reads, the monthly summary is produced, and its
  \<^verbatim>\<open>medicaid_issues\<close> is the number of all stored patients whose
  \<^verbatim>\<open>medicaid_eligible\<close> is false: the count runs over the whole collection and looks
  at no date. The stored documents are assumed to load as the patients \<open>ps\<close>.
\<close>

theorem monthly_summary_medicaid_issues:
  assumes "list_all2 (\<lambda>d p. Patient_init e d = Inr p) (patients s) ps"
  shows "\<exists>r. get_monthly_summary e s = Inr r \<and>
             medicaid_issues r = length (filter (\<lambda>p. \<not> p_medicaid_eligible p) ps)"
proof -
  have "list_all2 (\<lambda>d p. Patient_init e d = Inr p)
          (filter (matches [Key ''medicaid_eligible'' (Equals (VBool False))]) (patients s))
          (filter (\<lambda>p. \<not> p_medicaid_eligible p) ps)"
    using assms by (rule list_all2_filter_same) (rule medicaid_false_matches)
  then have "length (filter (matches [Key ''medicaid_eligible'' (Equals (VBool False))]) (patients s))
      = length (filter (\<lambda>p. \<not> p_medicaid_eligible p) ps)"
    by (rule list_all2_lengthD)
  then show ?thesis
    by (simp add: get_monthly_summary_def count_documents_def find_docs_def query_ok_def
        month_pattern_ok Let_def)
qed

theorem monthly_summary_medicaid_issues_witness:
  "\<exists>r. get_monthly_summary ex_env ex_store = Inr r \<and> medicaid_issues r = 1"
  using monthly_summary_medicaid_issues[of ex_env ex_store "[ex_patient]"]
  by (simp add: ex_store_def Patient_init_stored) (simp add: ex_patient_def)

section \<open>Falsy filter parameters (C10)\<close>

text \<open>
  C10. A falsy filter parameter is an absent one. The patient list with the empty search
  string, or with \<^verbatim>\<open>tan_expiring\<close> false, is the list without that parameter, and
  with both it is the unfiltered list (the first 1000 documents, loaded). The task list
  with \<^verbatim>\<open>due_today\<close> false is the task list without it, and it applies no due-date
  filter: without other parameters it is the first 1000 task documents, loaded, and on a
  store whose task documents load it is the first 1000 tasks that pass the patient and
  status filters, whatever their due date. With \<^verbatim>\<open>due_today\<close> true the same list
  is narrowed to the tasks due today.
\<close>

theorem falsy_filter_is_absent:
  "get_patients e (Some []) tan s = get_patients e None tan s \<and>
   get_patients e search (Some False) s = get_patients e search None s \<and>
   get_patients e (Some []) (Some False) s = map_all (Patient_init e) (take 1000 (patients s)) \<and>
   get_patients e None None s = map_all (Patient_init e) (take 1000 (patients s)) \<and>
   get_tasks e pid st (Some False) s = get_tasks e pid st None s \<and>
   get_tasks e None None (Some False) s = map_all (Task_init e) (take 1000 (tasks s)) \<and>
   get_tasks e None None None s = map_all (Task_init e) (take 1000 (tasks s)) \<and>
   (list_all2 (\<lambda>d t. Task_init e d = Inr t) (tasks s) ts \<longrightarrow>
      get_tasks e None None (Some False) s = Inr (take 1000 ts) \<and>
      get_tasks e None None None s = Inr (take 1000 ts) \<and>
      get_tasks e pid None (Some False) s =
        Inr (take 1000 (filter (\<lambda>t. truthy_str pid \<longrightarrow> Some (t_patient_id t) = pid) ts))) \<and>
   (list_all2 (\<lambda>d t. Task_init e d = Inr t \<and> map_of d ''status'' \<noteq> None) (tasks s) ts' \<longrightarrow>
      get_tasks e pid st (Some False) s =
        Inr (take 1000 (filter (\<lambda>t.
          (truthy_str pid \<longrightarrow> Some (t_patient_id t) = pid) \<and>
          (case st of None \<Rightarrow> True | Some x \<Rightarrow> t_status t = x)) ts')) \<and>
      get_tasks e pid st (Some True) s =
        Inr (take 1000 (filter (\<lambda>t.
          (truthy_str pid \<longrightarrow> Some (t_patient_id t) = pid) \<and>
          (case st of None \<Rightarrow> True | Some x \<Rightarrow> t_status t = x) \<and>
          t_due_date t = Some (date_isoformat (dt_date (utc_now e)))) ts')))"
proof -
  have p: "get_patients e (Some []) tan s = get_patients e None tan s \<and>
   get_patients e search (Some False) s = get_patients e search None s \<and>
   get_patients e (Some []) (Some False) s = map_all (Patient_init e) (take 1000 (patients s)) \<and>
   get_patients e None None s = map_all (Patient_init e) (take 1000 (patients s)) \<and>
   get_tasks e pid st (Some False) s = get_tasks e pid st None s"
    by (simp add: get_patients_def get_tasks_def truthy_bool_def find_docs_def query_ok_def
        matches_def to_list_def)
  have a: "get_tasks e None None due s = Inr (take 1000 ts)"
    "get_tasks e pid None due s =
        Inr (take 1000 (filter (\<lambda>t. truthy_str pid \<longrightarrow> Some (t_patient_id t) = pid) ts))"
    if "list_all2 (\<lambda>d t. Task_init e d = Inr t) (tasks s) ts" and "\<not> truthy_bool due" for due
  proof -
    from that(1) have wf: "list_all2 (\<lambda>d t. Task_init e d = Inr t \<and>
        ((None :: TaskStatus option) \<noteq> None \<longrightarrow> map_of d ''status'' \<noteq> None)) (tasks s) ts"
      by simp
    show "get_tasks e None None due s = Inr (take 1000 ts)"
      using get_tasks_result[OF wf, of None due] that(2) by (simp add: truthy_str_def)
    show "get_tasks e pid None due s =
        Inr (take 1000 (filter (\<lambda>t. truthy_str pid \<longrightarrow> Some (t_patient_id t) = pid) ts))"
      using get_tasks_result[OF wf, of pid due] that(2) by simp
  qed
  have b: "get_tasks e pid st due s =
        Inr (take 1000 (filter (\<lambda>t.
          (truthy_str pid \<longrightarrow> Some (t_patient_id t) = pid) \<and>
          (case st of None \<Rightarrow> True | Some x \<Rightarrow> t_status t = x) \<and>
          (truthy_bool due \<longrightarrow>
             t_due_date t = Some (date_isoformat (dt_date (utc_now e))))) ts'))"
    if "list_all2 (\<lambda>d t. Task_init e d = Inr t \<and> map_of d ''status'' \<noteq> None) (tasks s) ts'"
    for due
  proof -
    from that have wf: "list_all2 (\<lambda>d t. Task_init e d = Inr t \<and>
        (st \<noteq> None \<longrightarrow> map_of d ''status'' \<noteq> None)) (tasks s) ts'"
      by (rule list_all2_mono) simp
    show ?thesis by (rule get_tasks_result[OF wf])
  qed
  have c1: "list_all2 (\<lambda>d t. Task_init e d = Inr t) (tasks s) ts \<longrightarrow>
      get_tasks e None None (Some False) s = Inr (take 1000 ts) \<and>
      get_tasks e None None None s = Inr (take 1000 ts) \<and>
      get_tasks e pid None (Some False) s =
        Inr (take 1000 (filter (\<lambda>t. truthy_str pid \<longrightarrow> Some (t_patient_id t) = pid) ts))"
    using a[of "Some False"] a[of None] by (simp add: truthy_bool_def)
  have c2: "list_all2 (\<lambda>d t. Task_init e d = Inr t \<and> map_of d ''status'' \<noteq> None) (tasks s) ts' \<longrightarrow>
      get_tasks e pid st (Some False) s =
        Inr (take 1000 (filter (\<lambda>t.
          (truthy_str pid \<longrightarrow> Some (t_patient_id t) = pid) \<and>
          (case st of None \<Rightarrow> True | Some x \<Rightarrow> t_status t = x)) ts')) \<and>
      get_tasks e pid st (Some True) s =
        Inr (take 1000 (filter (\<lambda>t.
          (truthy_str pid \<longrightarrow> Some (t_patient_id t) = pid) \<and>
          (case st of None \<Rightarrow> True | Some x \<Rightarrow> t_status t = x) \<and>
          t_due_date t = Some (date_isoformat (dt_date (utc_now e)))) ts'))"
    using b[of "Some False"] b[of "Some True"] by (simp add: truthy_bool_def)
  note u = get_tasks_unfiltered[of e s]
  from p u c1 c2 show ?thesis by blast
qed

theorem falsy_filter_is_absent_witness:
  "get_patients ex_env (Some []) (Some True) ex_later_store =
     get_patients ex_env None (Some True) ex_later_store \<and>
   get_patients ex_env (Some ''ann'') (Some False) ex_later_store =
     get_patients ex_env (Some ''ann'') None ex_later_store \<and>
   get_patients ex_env (Some []) (Some False) ex_later_store = Inr [ex_patient] \<and>
   get_patients ex_env None None ex_later_store = Inr [ex_patient] \<and>
   get_tasks ex_env None None (Some False) ex_later_store = Inr [ex_task_due, ex_task_later] \<and>
   get_tasks ex_env None None None ex_later_store = Inr [ex_task_due, ex_task_later] \<and>
   get_tasks ex_env (Some ''p-1'') (Some IN_PROGRESS) (Some False) ex_later_store =
     Inr [ex_task_later] \<and>
   get_tasks ex_env (Some ''p-1'') (Some IN_PROGRESS) None ex_later_store = Inr [ex_task_later] \<and>
   get_tasks ex_env (Some ''p-1'') (Some IN_PROGRESS) (Some True) ex_later_store = Inr []"
proof -
  let ?ts = "[ex_task_due, ex_task_later]"
  have l1: "list_all2 (\<lambda>d t. Task_init ex_env d = Inr t) (tasks ex_later_store) ?ts"
    by (simp add: ex_later_store_def Task_init_stored)
  note l2 = ex_later_store_loads[of ex_env]
  have pl: "map_all (Patient_init ex_env) (take 1000 (patients ex_later_store)) = Inr [ex_patient]"
    by (simp add: ex_later_store_def Patient_init_stored)
  note t = falsy_filter_is_absent[of ex_env "Some True" ex_later_store "Some ''ann''"
      "Some ''p-1''" "Some IN_PROGRESS" ?ts ?ts]
  from t have a1: "get_patients ex_env (Some []) (Some True) ex_later_store =
      get_patients ex_env None (Some True) ex_later_store"
    by (rule conjunct1)
  from t have a2: "get_patients ex_env (Some ''ann'') (Some False) ex_later_store =
      get_patients ex_env (Some ''ann'') None ex_later_store"
    by blast
  from t have a3: "get_patients ex_env (Some []) (Some False) ex_later_store =
      map_all (Patient_init ex_env) (take 1000 (patients ex_later_store))"
    by blast
  from t have a4: "get_patients ex_env None None ex_later_store =
      map_all (Patient_init ex_env) (take 1000 (patients ex_later_store))"
    by blast
  from t have a5: "get_tasks ex_env (Some ''p-1'') (Some IN_PROGRESS) (Some False) ex_later_store =
      get_tasks ex_env (Some ''p-1'') (Some IN_PROGRESS) None ex_later_store"
    by blast
  from t l1 have a6: "get_tasks ex_env None None (Some False) ex_later_store = Inr (take 1000 ?ts)"
    by blast
  from t l1 have a7: "get_tasks ex_env None None None ex_later_store = Inr (take 1000 ?ts)"
    by blast
  from t l2 have a8: "get_tasks ex_env (Some ''p-1'') (Some IN_PROGRESS) (Some False) ex_later_store =
      Inr (take 1000 (filter (\<lambda>t.
          (truthy_str (Some ''p-1'') \<longrightarrow> Some (t_patient_id t) = Some ''p-1'') \<and>
          (case Some IN_PROGRESS of None \<Rightarrow> True | Some x \<Rightarrow> t_status t = x)) ?ts))"
    by blast
  from t l2 have a9: "get_tasks ex_env (Some ''p-1'') (Some IN_PROGRESS) (Some True) ex_later_store =
      Inr (take 1000 (filter (\<lambda>t.
          (truthy_str (Some ''p-1'') \<longrightarrow> Some (t_patient_id t) = Some ''p-1'') \<and>
          (case Some IN_PROGRESS of None \<Rightarrow> True | Some x \<Rightarrow> t_status t = x) \<and>
          t_due_date t = Some (date_isoformat (dt_date (utc_now ex_env)))) ?ts))"
    by blast
  have b8: "get_tasks ex_env (Some ''p-1'') (Some IN_PROGRESS) (Some False) ex_later_store =
      Inr [ex_task_later]"
    by (simp add: a8 ex_task_due_def ex_task_later_def truthy_str_def)
  have b9: "get_tasks ex_env (Some ''p-1'') (Some IN_PROGRESS) (Some True) ex_later_store = Inr []"
    by (simp add: a9 ex_task_due_def ex_task_later_def truthy_str_def ex_today)
  show ?thesis
    apply (intro conjI)
            apply (rule a1)
           apply (rule a2)
          apply (simp only: a3 pl)
         apply (simp only: a4 pl)
        apply (simp add: a6)
       apply (simp add: a7)
      apply (rule b8)
     apply (simp only: a5[symmetric] b8)
    apply (rule b9)
    done
qed

section \<open>Partial update of a patient (C1)\<close>

text \<open>
  C1. When a patient with the given id is stored (and its document loads as \<open>prev\<close>),
  \<^verbatim>\<open>update_patient\<close> succeeds for every partial input. The entity it returns is the
  document read back from the store after the merge; its id is the given one and
  \<^verbatim>\<open>created_at\<close> is kept; \<^verbatim>\<open>updated_at\<close> is the current time; every field that
  is \<^verbatim>\<open>None\<close> in the input keeps its stored value and every other field takes the
  input's value. The other collections are untouched.
\<close>

theorem update_patient_merges_non_null_fields:
  fixes u :: PatientUpdate
  assumes "find_one [Key ''id'' (Equals (VStr i))] (patients s) = Inr (Some d)"
    and "Patient_init e d = Inr prev"
  shows "\<exists>p s' d'.
    update_patient e i u s = (Inr p, s') \<and>
    find_one [Key ''id'' (Equals (VStr i))] (patients s') = Inr (Some d') \<and>
    Patient_init e d' = Inr p \<and>
    tasks s' = tasks s \<and> contact_logs s' = contact_logs s \<and>
    p_id p = i \<and> p_id p = p_id prev \<and>
    p_created_at p = p_created_at prev \<and>
    p_updated_at p = isoformat_utc (utc_now e) \<and>
    p_first_name p = (case pu_first_name u of None \<Rightarrow> p_first_name prev | Some v \<Rightarrow> v) \<and>
    p_last_name p = (case pu_last_name u of None \<Rightarrow> p_last_name prev | Some v \<Rightarrow> v) \<and>
    p_phone p = (case pu_phone u of None \<Rightarrow> p_phone prev | Some v \<Rightarrow> v) \<and>
    p_address p = (case pu_address u of None \<Rightarrow> p_address prev | Some v \<Rightarrow> v) \<and>
    p_height p = (case pu_height u of None \<Rightarrow> p_height prev | Some v \<Rightarrow> Some v) \<and>
    p_weight p = (case pu_weight u of None \<Rightarrow> p_weight prev | Some v \<Rightarrow> Some v) \<and>
    p_icd10_codes p = (case pu_icd10_codes u of None \<Rightarrow> p_icd10_codes prev | Some v \<Rightarrow> v) \<and>
    p_doctor p = (case pu_doctor u of None \<Rightarrow> p_doctor prev | Some v \<Rightarrow> v) \<and>
    p_current_tan p = (case pu_current_tan u of None \<Rightarrow> p_current_tan prev | Some v \<Rightarrow> v) \<and>
    p_tan_expiry_date p =
      (case pu_tan_expiry_date u of None \<Rightarrow> p_tan_expiry_date prev | Some v \<Rightarrow> v) \<and>
    p_medicaid_id p = (case pu_medicaid_id u of None \<Rightarrow> p_medicaid_id prev | Some v \<Rightarrow> v) \<and>
    p_medicaid_eligible p =
      (case pu_medicaid_eligible u of None \<Rightarrow> p_medicaid_eligible prev | Some v \<Rightarrow> v) \<and>
    p_last_billing_date p =
      (case pu_last_billing_date u of None \<Rightarrow> p_last_billing_date prev | Some v \<Rightarrow> Some v) \<and>
    p_products p = (case pu_products u of None \<Rightarrow> p_products prev | Some v \<Rightarrow> v) \<and>
    p_notes p = (case pu_notes u of None \<Rightarrow> p_notes prev | Some v \<Rightarrow> v)"
proof -
  let ?q = "[Key ''id'' (Equals (VStr i))]"
  define p where "p = merged_patient prev u (isoformat_utc (utc_now e))"
  define s' where "s' = s\<lparr>patients := fst (update_first ?q (update_dict_of e u) (patients s))\<rparr>"
  define d' where "d' = apply_set d (update_dict_of e u)"
  note r = update_patient_result[OF assms, of u]
  have 1: "update_patient e i u s = (Inr p, s')"
    unfolding p_def s'_def by (rule r(1))
  have 2: "find_one ?q (patients s') = Inr (Some d')"
    unfolding s'_def d'_def using r(2) by simp
  have 3: "Patient_init e d' = Inr p"
    unfolding d'_def p_def by (rule Patient_init_merged[OF assms(2)])
  have 4: "p_id prev = i"
    by (rule id_match_loaded(1)[OF find_one_Some(3)[OF assms(1)] assms(2)])
  have 5: "tasks s' = tasks s \<and> contact_logs s' = contact_logs s" by (simp add: s'_def)
  show ?thesis
    apply (rule exI[of _ p], rule exI[of _ s'], rule exI[of _ d'])
    apply (simp only: 1 2 3 5 simp_thms)
    apply (simp add: p_def merged_patient_def 4)
    done
qed

theorem update_patient_merges_non_null_fields_witness:
  "\<exists>p s' d'.
    update_patient ex_env ''p-1'' ex_update ex_store = (Inr p, s') \<and>
    find_one [Key ''id'' (Equals (VStr ''p-1''))] (patients s') = Inr (Some d') \<and>
    Patient_init ex_env d' = Inr p \<and>
    p_id p = ''p-1'' \<and>
    p_updated_at p = ''2026-11-06T12:30:00+00:00'' \<and>
    p_first_name p = ''Ann'' \<and>
    p_phone p = ''601-555-0000'' \<and>
    p_height p = Some ''5ft 4in''"
proof -
  have iso: "isoformat_utc (utc_now ex_env) = ''2026-11-06T12:30:00+00:00''"
    by (simp add: isoformat_utc_def isoformat_def date_isoformat_def time_isoformat_def
        ex_env_def ex_now_def pad2_def pad4_def digit_def)
  from update_patient_merges_non_null_fields[OF ex_store_find_one Patient_init_stored, of ex_env ex_update]
  obtain p s' d' where
    "update_patient ex_env ''p-1'' ex_update ex_store = (Inr p, s')"
    "find_one [Key ''id'' (Equals (VStr ''p-1''))] (patients s') = Inr (Some d')"
    "Patient_init ex_env d' = Inr p"
    "p_id p = ''p-1''"
    "p_updated_at p = isoformat_utc (utc_now ex_env)"
    "p_first_name p = (case pu_first_name ex_update of None \<Rightarrow> p_first_name ex_patient | Some v \<Rightarrow> v)"
    "p_phone p = (case pu_phone ex_update of None \<Rightarrow> p_phone ex_patient | Some v \<Rightarrow> v)"
    "p_height p = (case pu_height ex_update of None \<Rightarrow> p_height ex_patient | Some v \<Rightarrow> Some v)"
    by blast
  then show ?thesis
    by (simp add: iso ex_update_def ex_patient_def)
qed

section \<open>Optional fields under an update (C9)\<close>

text \<open>
  C9, as stated, fails: the doctor's \<^verbatim>\<open>address\<close> is an optional field, and an update
  clears it. Only the top-level items of the update's dict that are \<^verbatim>\<open>None\<close> are
  dropped; a doctor in the update is written as a whole, its \<^verbatim>\<open>address\<close> of
  \<^verbatim>\<open>None\<close> included. The sample patient's doctor has the address
  \<^verbatim>\<open>12 Elm St\<close>; after an update that carries a doctor without address, the
  returned patient, and the patient read back from the store, have no doctor's address.
\<close>

theorem update_patient_clears_doctor_address:
  "get_patient ex_env ''p-3'' ex_store3 = Inr ex_patient3 \<and>
   d_address (p_doctor ex_patient3) = Some ''12 Elm St'' \<and>
   pu_doctor ex_update_doctor = Some ex_doctor \<and>
   d_address ex_doctor = None \<and>
   (\<exists>p s'. update_patient ex_env ''p-3'' ex_update_doctor ex_store3 = (Inr p, s') \<and>
      get_patient ex_env ''p-3'' s' = Inr p \<and>
      p = ex_patient3\<lparr>p_doctor := ex_doctor, p_updated_at := ''2026-11-06T12:30:00+00:00''\<rparr> \<and>
      d_address (p_doctor p) = None)"
proof -
  let ?q = "[Key ''id'' (Equals (VStr ''p-3''))]"
  let ?d = "(''_id'', VObjectId 5) # Patient_dict ex_patient3"
  define p where "p = merged_patient ex_patient3 ex_update_doctor (isoformat_utc (utc_now ex_env))"
  define s' where "s' = ex_store3\<lparr>patients :=
      fst (update_first ?q (update_dict_of ex_env ex_update_doctor) (patients ex_store3))\<rparr>"
  define d' where "d' = apply_set ?d (update_dict_of ex_env ex_update_doctor)"
  have l: "Patient_init ex_env ?d = Inr ex_patient3" by (rule Patient_init_stored)
  have g: "get_patient ex_env ''p-3'' ex_store3 = Inr ex_patient3"
    by (simp add: get_patient_def ex_store3_find_one l)
  note r = update_patient_result[OF ex_store3_find_one l, of ex_update_doctor]
  have 1: "update_patient ex_env ''p-3'' ex_update_doctor ex_store3 = (Inr p, s')"
    unfolding p_def s'_def by (rule r(1))
  have 2: "find_one ?q (patients s') = Inr (Some d')"
    unfolding s'_def d'_def using r(2) by simp
  have 3: "Patient_init ex_env d' = Inr p"
    unfolding d'_def p_def by (rule Patient_init_merged[OF l])
  have 4: "d' \<noteq> []"
    by (rule id_match_loaded(2)[OF find_one_Some(3)[OF 2] 3])
  have 5: "get_patient ex_env ''p-3'' s' = Inr p"
    by (simp add: get_patient_def 2 3 4)
  have 6: "p = ex_patient3\<lparr>p_doctor := ex_doctor, p_updated_at := ''2026-11-06T12:30:00+00:00''\<rparr>"
    by (simp add: p_def merged_patient_def ex_iso ex_update_doctor_def ex_update_def
        ex_patient3_def ex_patient_def)
  have 7: "d_address (p_doctor p) = None"
    by (simp add: 6 ex_doctor_def)
  have 8: "d_address (p_doctor ex_patient3) = Some ''12 Elm St''"
    by (simp add: ex_patient3_def ex_doctor_addr_def)
  have 9: "pu_doctor ex_update_doctor = Some ex_doctor \<and> d_address ex_doctor = None"
    by (simp add: ex_update_doctor_def ex_doctor_def)
  show ?thesis
    apply (simp only: g 8 9 simp_thms)
    apply (rule exI[of _ p], rule exI[of _ s'])
    apply (simp only: 1 5 7 simp_thms)
    apply (rule 6)
    done
qed

text \<open>
  C9, amended. For a stored patient and every partial input, each optional field of the
  patient itself (\<^verbatim>\<open>height\<close>, \<^verbatim>\<open>weight\<close>, \<^verbatim>\<open>last_billing_date\<close>) that holds
  a value before the update holds a value after it: no input sets it back to
  \<^verbatim>\<open>None\<close>. After the update the field is what it was, or the value, not
  \<^verbatim>\<open>None\<close>, that the input gives. The embedded doctor is kept when the input has no
  doctor and is replaced as a whole otherwise, so that the doctor's optional
  \<^verbatim>\<open>address\<close> becomes the one of the input's doctor, \<^verbatim>\<open>None\<close> when that doctor
  has none. The returned patient is the one a later read by id returns.
\<close>

theorem update_patient_cannot_clear_optional_field:
  fixes u :: PatientUpdate
  assumes "find_one [Key ''id'' (Equals (VStr i))] (patients s) = Inr (Some d)"
    and "Patient_init e d = Inr prev"
  shows "\<exists>p s'.
    update_patient e i u s = (Inr p, s') \<and>
    (p_height prev \<noteq> None \<longrightarrow> p_height p \<noteq> None) \<and>
    (p_weight prev \<noteq> None \<longrightarrow> p_weight p \<noteq> None) \<and>
    (p_last_billing_date prev \<noteq> None \<longrightarrow> p_last_billing_date p \<noteq> None) \<and>
    (p_height p = p_height prev \<or> (\<exists>v. pu_height u = Some v \<and> p_height p = Some v)) \<and>
    (p_weight p = p_weight prev \<or> (\<exists>v. pu_weight u = Some v \<and> p_weight p = Some v)) \<and>
    (p_last_billing_date p = p_last_billing_date prev \<or>
     (\<exists>v. pu_last_billing_date u = Some v \<and> p_last_billing_date p = Some v)) \<and>
    p_doctor p = (case pu_doctor u of None \<Rightarrow> p_doctor prev | Some dr \<Rightarrow> dr) \<and>
    d_address (p_doctor p) =
      (case pu_doctor u of None \<Rightarrow> d_address (p_doctor prev) | Some dr \<Rightarrow> d_address dr) \<and>
    get_patient e i s' = Inr p"
proof -
  let ?q = "[Key ''id'' (Equals (VStr i))]"
  define p where "p = merged_patient prev u (isoformat_utc (utc_now e))"
  define s' where "s' = s\<lparr>patients := fst (update_first ?q (update_dict_of e u) (patients s))\<rparr>"
  define d' where "d' = apply_set d (update_dict_of e u)"
  note r = update_patient_result[OF assms, of u]
  have 1: "update_patient e i u s = (Inr p, s')"
    unfolding p_def s'_def by (rule r(1))
  have 2: "find_one ?q (patients s') = Inr (Some d')"
    unfolding s'_def d'_def using r(2) by simp
  have 3: "Patient_init e d' = Inr p"
    unfolding d'_def p_def by (rule Patient_init_merged[OF assms(2)])
  have 4: "d' \<noteq> []"
    by (rule id_match_loaded(2)[OF find_one_Some(3)[OF 2] 3])
  have 5: "get_patient e i s' = Inr p"
    by (simp add: get_patient_def 2 3 4)
  show ?thesis
    apply (rule exI[of _ p], rule exI[of _ s'])
    apply (simp only: 1 5 simp_thms)
    apply (simp add: p_def merged_patient_def split: option.splits)
    done
qed

theorem update_patient_cannot_clear_optional_field_witness:
  "\<exists>p s'.
    update_patient ex_env ''p-1'' ex_update ex_store = (Inr p, s') \<and>
    p_height p \<noteq> None \<and> p_last_billing_date p \<noteq> None \<and>
    p_doctor p = ex_doctor \<and> get_patient ex_env ''p-1'' s' = Inr p"
proof -
  from update_patient_cannot_clear_optional_field[OF ex_store_find_one Patient_init_stored,
      of ex_env ex_update]
  obtain p s' where
    "update_patient ex_env ''p-1'' ex_update ex_store = (Inr p, s')"
    "p_height ex_patient \<noteq> None \<longrightarrow> p_height p \<noteq> None"
    "p_last_billing_date ex_patient \<noteq> None \<longrightarrow> p_last_billing_date p \<noteq> None"
    "p_doctor p = (case pu_doctor ex_update of None \<Rightarrow> p_doctor ex_patient | Some dr \<Rightarrow> dr)"
    "get_patient ex_env ''p-1'' s' = Inr p"
    by blast
  then show ?thesis
    by (simp add: ex_update_def ex_patient_def)
qed

section \<open>Create, then get by id (C4)\<close>

text \<open>
  C4. For every PatientCreate input, \<^verbatim>\<open>create_patient\<close> succeeds, and
  \<^verbatim>\<open>get_patient\<close> of the returned id, in any later request on the resulting store,
  returns the very entity that \<^verbatim>\<open>create_patient\<close> returned; the id is the generated
  UUID text and is not empty. The generated id is assumed not to be the id of a patient
  already stored.
\<close>

theorem create_patient_then_get_patient:
  assumes fresh: "find_one [Key ''id'' (Equals (VStr (uuid4 (rand e))))] (patients s) = Inr None"
  shows "\<exists>p s'. create_patient e x s = (Inr p, s') \<and>
           get_patient e' (p_id p) s' = Inr p \<and>
           p_id p \<noteq> [] \<and>
           p_id p = uuid4 (rand e)"
proof -
  define p where "p = \<lparr>p_id = uuid4 (rand e), p_first_name = pc_first_name x, p_last_name = pc_last_name x,
        p_phone = pc_phone x, p_address = pc_address x, p_height = pc_height x,
        p_weight = pc_weight x, p_icd10_codes = pc_icd10_codes x, p_doctor = pc_doctor x,
        p_current_tan = pc_current_tan x, p_tan_expiry_date = pc_tan_expiry_date x,
        p_medicaid_id = pc_medicaid_id x, p_medicaid_eligible = pc_medicaid_eligible x,
        p_last_billing_date = None, p_products = pc_products x, p_notes = pc_notes x,
        p_created_at = isoformat_utc (utc_now e), p_updated_at = isoformat_utc (utc_now e)\<rparr>"
  define s' where "s' = s\<lparr>patients := patients s @ [(''_id'', VObjectId (object_id e)) # Patient_dict p]\<rparr>"
  have init: "Patient_init e (prepare_for_mongo (PatientCreate_dict x)) = Inr p"
    unfolding p_def by (rule Patient_init_create)
  have noid: "map_of (Patient_dict p) ''_id'' = None"
    by (simp add: Patient_dict_def)
  have create: "create_patient e x s = (Inr p, s')"
    by (simp add: create_patient_def init insert_one_def noid s'_def)
  have pid: "p_id p = uuid4 (rand e)" by (simp add: p_def)
  have none: "filter (matches [Key ''id'' (Equals (VStr (p_id p)))]) (patients s) = []"
    using find_one_None[OF fresh] by (simp add: pid)
  have get: "get_patient e' (p_id p) s' = Inr p"
    by (simp add: get_patient_def find_one_def find_docs_def s'_def none stored_matches_id
        Patient_init_stored)
  show ?thesis using create get pid uuid4_nonempty by auto
qed

theorem create_patient_then_get_patient_witness: "\<exists>p s'. create_patient ex_env ex_create ex_store = (Inr p, s') \<and>
           get_patient ex_env (p_id p) s' = Inr p \<and>
           p_id p \<noteq> [] \<and>
           p_id p = uuid4 (rand ex_env)"
proof (rule create_patient_then_get_patient)
  have "uuid4 (rand ex_env) \<noteq> ''p-1''" by (rule uuid4_neq) simp
  then show "find_one [Key ''id'' (Equals (VStr (uuid4 (rand ex_env))))] (patients ex_store) = Inr None"
    by (simp add: find_one_def find_docs_def ex_store_def stored_matches_id)
      (simp add: ex_patient_def)
qed

section \<open>Completing a task (C2)\<close>

text \<open>
  C2 says that \<^verbatim>\<open>complete_task\<close> answers "Task not found" only when no task has the
  id. The code tests \<^verbatim>\<open>modified_count\<close>, which is also 0 when the task is found and
  the assignment changes nothing (\<open>complete_task_not_found_iff\<close>; in every other case
  the call succeeds and sets both fields, \<open>complete_task_success\<close>). Here the stored task
  \<^verbatim>\<open>t-1\<close> is completed with the very timestamp the clock reads: it is found by its
  id and loads, yet the request ends in 404 "Task not found".
\<close>

theorem complete_task_rejects_stored_task:
  "find_one [Key ''id'' (Equals (VStr ''t-1''))] (tasks ex_task_store) =
     Inr (Some ((''_id'', VObjectId 2) # Task_dict ex_task)) \<and>
   Task_init ex_env ((''_id'', VObjectId 2) # Task_dict ex_task) = Inr ex_task \<and>
   complete_task ex_env ''t-1'' ex_task_store =
     (Inl (HTTPException 404 ''Task not found''), ex_task_store)"
  by (simp add: Task_init_stored)
   (simp add: find_one_def find_docs_def matches_def complete_task_def update_one_def
      ex_task_store_def Task_dict_def ex_task_def apply_set_def ex_iso ostr_def)

section \<open>The search text is a pattern (C3)\<close>

text \<open>
  C3, as stated, fails: the search text is not escaped. The search \<^verbatim>\<open>.*\<close> returns
  the sample patient, whose first name, last name and phone do not contain the two
  characters \<^verbatim>\<open>.*\<close>.
\<close>

theorem search_dot_star_matches_other_patients:
  "get_patients ex_env (Some ''.*'') None ex_store = Inr [ex_patient] \<and>
   \<not> sublist ''.*'' (p_first_name ex_patient) \<and>
   \<not> sublist ''.*'' (p_last_name ex_patient) \<and>
   \<not> sublist ''.*'' (p_phone ex_patient)"
  by (simp add: get_patients_dot_star[OF ex_store_loads])
    (simp add: ex_patient_def sublist_Cons_right)

text \<open>
  C3, amended. The patient list hands the search text to the store unescaped, as a
  case-insensitive pattern. A text of ASCII characters without metacharacters is
  therefore matched literally: the list holds the first 1000 stored patients in whose
  first name, last name or phone the text occurs, ASCII case ignored. Metacharacters
  keep their meaning: the search \<^verbatim>\<open>.*\<close> returns the first 1000 patients, whatever
  their fields hold.
\<close>

theorem search_text_is_an_unescaped_pattern:
  assumes wf: "list_all2 (\<lambda>d p. Patient_init e d = Inr p) (patients s) ps"
    and lit: "list_all plain_char t"
  shows "get_patients e (Some t) None s =
           Inr (take 1000 (filter (\<lambda>p. contains_ci t (p_first_name p) \<or>
                                       contains_ci t (p_last_name p) \<or>
                                       contains_ci t (p_phone p)) ps)) \<and>
         get_patients e (Some ''.*'') None s = Inr (take 1000 ps)"
proof -
  have "get_patients e (Some t) None s =
        Inr (take 1000 (filter (\<lambda>p. search_hit (Some t) p \<and>
              (truthy_bool None \<longrightarrow> p_tan_expiry_date p \<le> isoformat (local_now e))) ps))"
    by (rule get_patients_result[OF wf]) (simp_all add: lit truthy_bool_def)
  then show ?thesis
    by (simp add: search_hit_def truthy_bool_def get_patients_dot_star[OF wf])
qed

theorem search_text_is_an_unescaped_pattern_witness:
  "get_patients ex_env (Some ''smi'') None ex_store = Inr [ex_patient] \<and>
   get_patients ex_env (Some ''0198'') None ex_store = Inr [] \<and>
   get_patients ex_env (Some ''.*'') None ex_store = Inr [ex_patient]"
proof -
  have 1: "list_all plain_char ''smi''" by (simp add: plain_char_def is_meta_def)
  have 2: "list_all plain_char ''0198''" by (simp add: plain_char_def is_meta_def)
  show ?thesis
    using search_text_is_an_unescaped_pattern[OF ex_store_loads 1, of ex_env] search_text_is_an_unescaped_pattern[OF ex_store_loads 2, of ex_env]
    by (simp add: contains_ci_def lower_def to_lower_def ex_patient_def sublist_Cons_right)
qed

section \<open>Case-insensitive search over three fields, composed with the expiry filter (C7)\<close>

text \<open>
  C7, as stated for every search text, fails: the text \<^verbatim>\<open>A$\<close> occurs literally in
  the first name \<^verbatim>\<open>A$AP\<close>, yet as a pattern it asks for a field that ends in
  \<^verbatim>\<open>a\<close>, and the patient is not listed.
\<close>

theorem search_text_with_anchor_misses_literal_occurrence:
  "sublist ''A$'' (p_first_name ex_patient2) \<and>
   get_patients ex_env (Some ''A$'') None ex_store2 = Inr []"
proof -
  have c: "rx_compile ''A$'' =
     Some \<lparr>anchored_start = False, pieces = [Once (RChar CHR ''A'')], anchored_end = True\<rparr>"
    by (simp add: rx_compile_def rx_atom_def plain_char_def is_meta_def)
  have "\<not> matches [Or [[(''first_name'', Regex ''A$'' ''i'')], [(''last_name'', Regex ''A$'' ''i'')],
                 [(''phone'', Regex ''A$'' ''i'')]]] ((''_id'', VObjectId 3) # Patient_dict ex_patient2)"
    by (simp add: matches_def fields_match_def Patient_dict_def ex_patient2_def ex_patient_def
        regex_search_def c rx_exec_def to_lower_def)
  then have "get_patients ex_env (Some ''A$'') None ex_store2 = Inr []"
    by (simp add: get_patients_def truthy_bool_def find_docs_def query_ok_def regex_ok_def c
        to_list_def ex_store2_def)
  moreover have "sublist ''A$'' (p_first_name ex_patient2)"
    by (simp add: ex_patient2_def sublist_Cons_right)
  ultimately show ?thesis by simp
qed

text \<open>
  C7, amended. For every search text of ASCII characters without regex
  metacharacters, the list holds the first 1000 stored patients for which the text
  occurs, ASCII case ignored, in the first name or in the last name or in the phone,
  and, when \<^verbatim>\<open>tan_expiring\<close> is set as well, whose \<^verbatim>\<open>tan_expiry_date\<close> is
  moreover at most the ISO text of now plus 30 days.
\<close>

theorem search_is_case_insensitive_or_and_composes:
  assumes wf: "list_all2 (\<lambda>d p. Patient_init e d = Inr p) (patients s) ps"
    and lit: "list_all plain_char t"
    and bound: "truthy_bool tan \<Longrightarrow> plus_days (local_now e) 30 = Inr t30"
  shows "get_patients e (Some t) tan s =
           Inr (take 1000 (filter (\<lambda>p.
              (contains_ci t (p_first_name p) \<or> contains_ci t (p_last_name p) \<or>
               contains_ci t (p_phone p)) \<and>
              (truthy_bool tan \<longrightarrow> p_tan_expiry_date p \<le> isoformat t30)) ps))"
  using get_patients_result[OF wf, of "Some t" tan t30] lit bound
  by (simp add: search_hit_def)

theorem search_is_case_insensitive_or_and_composes_witness:
  "get_patients ex_env (Some ''smith'') (Some True) ex_store = Inr [ex_patient] \<and>
   get_patients ex_env (Some ''SMITH'') None ex_store = Inr [ex_patient] \<and>
   get_patients ex_env (Some ''0199'') (Some True) ex_store = Inr [ex_patient] \<and>
   get_patients ex_env (Some ''jones'') (Some True) ex_store = Inr []"
proof -
  have iso: "isoformat \<lparr>dt_date = \<lparr>year = 2026, month = 12, day = 6\<rparr>,
        hour = 12, minute = 30, second = 0, microsecond = 0\<rparr> = ''2026-12-06T12:30:00''"
    by (simp add: isoformat_def date_isoformat_def time_isoformat_def pad2_def pad4_def digit_def)
  have l: "list_all plain_char ''smith''" "list_all plain_char ''SMITH''"
    "list_all plain_char ''0199''" "list_all plain_char ''jones''"
    by (simp_all add: plain_char_def is_meta_def)
  show ?thesis
    using search_is_case_insensitive_or_and_composes[OF ex_store_loads l(1) ex_plus_30, of "Some True"]
      search_is_case_insensitive_or_and_composes[OF ex_store_loads l(2), of None ex_env "local_now ex_env"]
      search_is_case_insensitive_or_and_composes[OF ex_store_loads l(3) ex_plus_30, of "Some True"]
      search_is_case_insensitive_or_and_composes[OF ex_store_loads l(4) ex_plus_30, of "Some True"]
    by (simp add: truthy_bool_def iso contains_ci_def lower_def to_lower_def ex_patient_def
        sublist_Cons_right)
qed

section \<open>The expiry filter (C5)\<close>

text \<open>
  C5, as stated, fails: the list is cut at 1000 documents. In a store of 1001 patients
  whose TAN expires 20 days from now, the last one is stored, loads, and is not listed.
\<close>

theorem tan_expiring_omits_patient_beyond_cap:
  "(''_id'', VObjectId 1000) # Patient_dict (ex_numbered 1000) \<in> set (patients ex_big_store) \<and>
   Patient_init ex_env ((''_id'', VObjectId 1000) # Patient_dict (ex_numbered 1000)) =
     Inr (ex_numbered 1000) \<and>
   add_days 20 (dt_date (local_now ex_env)) = Inr \<lparr>year = 2026, month = 11, day = 26\<rparr> \<and>
   p_tan_expiry_date (ex_numbered 1000) = date_isoformat \<lparr>year = 2026, month = 11, day = 26\<rparr> \<and>
   (\<exists>ps. get_patients ex_env None (Some True) ex_big_store = Inr ps \<and>
         ex_numbered 1000 \<notin> set ps)"
proof -
  let ?b = "\<lparr>dt_date = \<lparr>year = 2026, month = 12, day = 6\<rparr>,
        hour = 12, minute = 30, second = 0, microsecond = 0\<rparr>"
  have stored: "(''_id'', VObjectId 1000) # Patient_dict (ex_numbered 1000) \<in> set (patients ex_big_store)"
    unfolding ex_big_store_def by (simp del: upt_Suc)
  have all: "p_tan_expiry_date p \<le> isoformat ?b" if "p \<in> set (map ex_numbered [0..<1001])" for p
  proof -
    from that obtain n where "p = ex_numbered n" by auto
    then show ?thesis
      by (simp add: ex_numbered_def ex_patient_def isoformat_def date_isoformat_def pad4_def
          pad2_def digit_def)
  qed
  have "get_patients ex_env None (Some True) ex_big_store =
        Inr (take 1000 (filter (\<lambda>p. search_hit None p \<and>
              (truthy_bool (Some True) \<longrightarrow> p_tan_expiry_date p \<le> isoformat ?b))
              (map ex_numbered [0..<1001])))"
    by (rule get_patients_result[OF ex_big_store_loads]) (simp_all add: ex_plus_30)
  also have "filter (\<lambda>p. search_hit None p \<and>
              (truthy_bool (Some True) \<longrightarrow> p_tan_expiry_date p \<le> isoformat ?b))
              (map ex_numbered [0..<1001]) = map ex_numbered [0..<1001]"
    using all by (simp add: search_hit_def truthy_bool_def del: upt_Suc)
  also have "take 1000 (map ex_numbered [0..<1001]) = map ex_numbered [0..<1000]"
    by (simp add: take_map del: upt_Suc)
  finally have res: "get_patients ex_env None (Some True) ex_big_store =
      Inr (map ex_numbered [0..<1000])" .
  have "ex_numbered 1000 \<notin> set (map ex_numbered [0..<1000])"
  proof
    assume "ex_numbered 1000 \<in> set (map ex_numbered [0..<1000])"
    then obtain n where n: "n < 1000" "ex_numbered 1000 = ex_numbered n" by auto
    then have "p_id (ex_numbered 1000) = p_id (ex_numbered n)" by simp
    then have "pad4 1000 = pad4 n" by (simp add: ex_numbered_def)
    moreover have "(pad4 1000 = pad4 n) = (1000 = n)"
      by (rule pad4_eq) (use n(1) in simp_all)
    ultimately show False using n(1) by simp
  qed
  with res stored show ?thesis
    by (simp add: Patient_init_stored ex_expiry_20 ex_numbered_expiry del: upt_Suc)
qed

text \<open>
  C5, amended. With \<^verbatim>\<open>tan_expiring\<close> set, the list holds the first 1000 stored
  patients whose \<^verbatim>\<open>tan_expiry_date\<close> is, as text, at most the ISO timestamp of the
  local time plus 30 days (30 is fixed). For an expiry written as an ISO date this is
  the calendar comparison with today + 30 days: a date 20 days from now passes the
  filter, a date 40 days from now does not.
\<close>

theorem tan_expiring_lists_first_1000_within_30_days:
  assumes wf: "list_all2 (\<lambda>d p. Patient_init e d = Inr p) (patients s) ps"
    and today: "valid_date (dt_date (local_now e))"
    and bound: "plus_days (local_now e) 30 = Inr t30"
  shows "get_patients e None (Some True) s =
           Inr (take 1000 (filter (\<lambda>p. p_tan_expiry_date p \<le> isoformat t30) ps)) \<and>
         (\<forall>x. valid_date x \<longrightarrow>
              (date_isoformat x \<le> isoformat t30) = date_le x (dt_date t30)) \<and>
         (\<forall>x. add_days 20 (dt_date (local_now e)) = Inr x \<longrightarrow>
              date_isoformat x \<le> isoformat t30) \<and>
         (\<forall>x. add_days 40 (dt_date (local_now e)) = Inr x \<longrightarrow>
              \<not> date_isoformat x \<le> isoformat t30)"
proof -
  note b = plus_days_Inr[OF bound]
  have vb: "valid_date (dt_date t30)" by (rule add_days_valid[OF today b])
  have 1: "get_patients e None (Some True) s =
           Inr (take 1000 (filter (\<lambda>p. p_tan_expiry_date p \<le> isoformat t30) ps))"
    using get_patients_result[OF wf, of None "Some True" t30] bound
    by (simp add: search_hit_def truthy_bool_def)
  have 2: "(date_isoformat x \<le> isoformat t30) = date_le x (dt_date t30)" if "valid_date x" for x
    by (rule date_text_le_timestamp[OF that vb])
  have 3: "date_isoformat x \<le> isoformat t30"
    if "add_days 20 (dt_date (local_now e)) = Inr x" for x
    using 2[OF add_days_valid[OF today that]] add_days_mono(1)[OF today that b] by simp
  have 4: "\<not> date_isoformat x \<le> isoformat t30"
    if "add_days 40 (dt_date (local_now e)) = Inr x" for x
    using 2[OF add_days_valid[OF today that]] add_days_mono(2)[OF today that b] by simp
  show ?thesis using 1 2 3 4 by blast
qed

theorem tan_expiring_lists_first_1000_within_30_days_witness:
  "get_patients ex_env None (Some True) ex_store = Inr [ex_patient] \<and>
   date_isoformat \<lparr>year = 2026, month = 11, day = 26\<rparr> \<le> ''2026-12-06T12:30:00'' \<and>
   \<not> date_isoformat \<lparr>year = 2026, month = 12, day = 16\<rparr> \<le> ''2026-12-06T12:30:00''"
proof -
  have iso: "isoformat \<lparr>dt_date = \<lparr>year = 2026, month = 12, day = 6\<rparr>,
        hour = 12, minute = 30, second = 0, microsecond = 0\<rparr> = ''2026-12-06T12:30:00''"
    by (simp add: isoformat_def date_isoformat_def time_isoformat_def pad2_def pad4_def digit_def)
  have e40: "add_days 40 (dt_date (local_now ex_env)) = Inr \<lparr>year = 2026, month = 12, day = 16\<rparr>"
    by (simp add: add_days_def ex_env_def ex_now_def eval_nat_numeral
      next_day_def days_in_month_def is_leap_def)
  from tan_expiring_lists_first_1000_within_30_days[OF ex_store_loads ex_today_valid ex_plus_30] ex_expiry_20 e40
  show ?thesis
    by (simp add: iso) (simp add: ex_patient_def)
qed

section \<open>The daily call report (C6)\<close>

text \<open>
  C6, as stated, fails: each bucket is cut at 1000 documents. With 1001 stored tasks
  due today and not completed, \<^verbatim>\<open>daily_tasks\<close> holds 1000 of them and
  \<^verbatim>\<open>total_items\<close> is 1000.
\<close>

theorem daily_call_report_omits_tasks_beyond_cap:
  "list_all2 (\<lambda>d t. Task_init ex_env d = Inr t) (tasks ex_busy_store)
     (map ex_numbered_task [0..<1001]) \<and>
   length (filter (\<lambda>t. t_due_date t = Some (date_isoformat (dt_date (utc_now ex_env))) \<and>
                        t_status t \<noteq> COMPLETED) (map ex_numbered_task [0..<1001])) = 1001 \<and>
   (\<exists>r. get_daily_call_report ex_env ex_busy_store = Inr r \<and>
        length (daily_tasks r) = 1000 \<and> total_items r = 1000)"
proof -
  have due: "task_due (date_isoformat (dt_date (utc_now ex_env))) t"
    if "t \<in> set (map ex_numbered_task [0..<1001])" for t
  proof -
    from that obtain n where "t = ex_numbered_task n" by auto
    then show ?thesis by (simp add: task_due_def ex_today ex_numbered_task_def ex_task_due_def)
  qed
  then have f: "filter (task_due (date_isoformat (dt_date (utc_now ex_env))))
                  (map ex_numbered_task [0..<1001]) = map ex_numbered_task [0..<1001]"
    by (simp del: upt_Suc)
  have p: "list_all2 (\<lambda>d p. Patient_init ex_env d = Inr p) (patients ex_busy_store) []"
    and c: "list_all2 (\<lambda>d c. ContactLog_init ex_env d = Inr c) (contact_logs ex_busy_store) []"
    by (simp_all add: ex_busy_store_def)
  note r = get_daily_call_report_result[OF p ex_busy_store_loads c ex_plus_30, unfolded f]
  have n: "length (filter (\<lambda>t. t_due_date t = Some (date_isoformat (dt_date (utc_now ex_env))) \<and>
                        t_status t \<noteq> COMPLETED) (map ex_numbered_task [0..<1001])) = 1001"
    using f by (simp add: task_due_def[abs_def] del: upt_Suc)
  show ?thesis
    using ex_busy_store_loads[of ex_env] n by (simp add: r del: upt_Suc)
qed

text \<open>
  C6, amended. For every store whose documents load, the report's
  \<^verbatim>\<open>daily_tasks\<close> are the first 1000 tasks with due date equal to today's UTC date
  and status other than completed, \<^verbatim>\<open>callbacks_needed\<close> the first 1000 contact
  logs with \<^verbatim>\<open>follow_up_needed\<close> true and a follow-up date that is, as text, at
  most today's date, \<^verbatim>\<open>expiring_tans\<close> the first 1000 patients whose
  \<^verbatim>\<open>tan_expiry_date\<close> is at most the ISO timestamp of the local time plus 30 days,
  and \<^verbatim>\<open>total_items\<close> is the sum of the three lengths; nothing is deduplicated.
  For dates written as ISO dates the two comparisons of text are the calendar
  comparisons with today and with today + 30 days.
\<close>

theorem daily_call_report_buckets:
  assumes wfp: "list_all2 (\<lambda>d p. Patient_init e d = Inr p) (patients s) ps"
    and wft: "list_all2 (\<lambda>d t. Task_init e d = Inr t) (tasks s) ts"
    and wfc: "list_all2 (\<lambda>d c. ContactLog_init e d = Inr c) (contact_logs s) cs"
    and utc: "valid_date (dt_date (utc_now e))"
    and loc: "valid_date (dt_date (local_now e))"
    and bound: "plus_days (local_now e) 30 = Inr t30"
  shows "\<exists>r. get_daily_call_report e s = Inr r \<and>
    daily_tasks r =
      take 1000 (filter (\<lambda>t. t_due_date t = Some (date_isoformat (dt_date (utc_now e))) \<and>
                              t_status t \<noteq> COMPLETED) ts) \<and>
    callbacks_needed r =
      take 1000 (filter (\<lambda>c. cl_follow_up_needed c \<and>
                     (case cl_follow_up_date c of
                        None \<Rightarrow> False
                      | Some f \<Rightarrow> f \<le> date_isoformat (dt_date (utc_now e)))) cs) \<and>
    expiring_tans r = take 1000 (filter (\<lambda>p. p_tan_expiry_date p \<le> isoformat t30) ps) \<and>
    total_items r =
      length (daily_tasks r) + length (callbacks_needed r) + length (expiring_tans r) \<and>
    (\<forall>x. valid_date x \<longrightarrow>
         (date_isoformat x \<le> date_isoformat (dt_date (utc_now e))) =
         date_le x (dt_date (utc_now e))) \<and>
    (\<forall>x. valid_date x \<longrightarrow>
         (date_isoformat x \<le> isoformat t30) = date_le x (dt_date t30)) \<and>
    add_days 30 (dt_date (local_now e)) = Inr (dt_date t30)"
proof -
  note b = plus_days_Inr[OF bound]
  have vb: "valid_date (dt_date t30)" by (rule add_days_valid[OF loc b])
  have 1: "(date_isoformat x \<le> date_isoformat (dt_date (utc_now e))) =
           date_le x (dt_date (utc_now e))" if "valid_date x" for x
    by (rule date_isoformat_le[OF that utc])
  have 2: "(date_isoformat x \<le> isoformat t30) = date_le x (dt_date t30)"
    if "valid_date x" for x
    by (rule date_text_le_timestamp[OF that vb])
  show ?thesis
    using 1 2 b
    by (simp add: get_daily_call_report_result[OF wfp wft wfc bound] task_due_def[abs_def]
        callback_due_def[abs_def])
qed

theorem daily_call_report_buckets_witness:
  "\<exists>r. get_daily_call_report ex_env ex_report_store = Inr r \<and>
     daily_tasks r = [ex_task_due] \<and> callbacks_needed r = [ex_log] \<and>
     expiring_tans r = [ex_patient] \<and> total_items r = 3"
proof -
  have iso: "isoformat \<lparr>dt_date = \<lparr>year = 2026, month = 12, day = 6\<rparr>,
        hour = 12, minute = 30, second = 0, microsecond = 0\<rparr> = ''2026-12-06T12:30:00''"
    by (simp add: isoformat_def date_isoformat_def time_isoformat_def pad2_def pad4_def digit_def)
  have p: "list_all2 (\<lambda>d p. Patient_init ex_env d = Inr p) (patients ex_report_store) [ex_patient]"
    by (simp add: ex_report_store_def Patient_init_stored)
  have t: "list_all2 (\<lambda>d t. Task_init ex_env d = Inr t) (tasks ex_report_store) [ex_task_due, ex_task]"
    by (simp add: ex_report_store_def Task_init_stored)
  have c: "list_all2 (\<lambda>d c. ContactLog_init ex_env d = Inr c) (contact_logs ex_report_store) [ex_log]"
    by (simp add: ex_report_store_def ContactLog_init_stored)
  have v: "valid_date (dt_date (utc_now ex_env))"
    by (simp add: valid_date_def ex_env_def ex_now_def days_in_month_def)
  from daily_call_report_buckets[OF p t c v ex_today_valid ex_plus_30] obtain r where
    r: "get_daily_call_report ex_env ex_report_store = Inr r"
      "daily_tasks r =
         take 1000 (filter (\<lambda>t. t_due_date t = Some (date_isoformat (dt_date (utc_now ex_env))) \<and>
                              t_status t \<noteq> COMPLETED) [ex_task_due, ex_task])"
      "callbacks_needed r =
         take 1000 (filter (\<lambda>c. cl_follow_up_needed c \<and>
                     (case cl_follow_up_date c of
                        None \<Rightarrow> False
                      | Some f \<Rightarrow> f \<le> date_isoformat (dt_date (utc_now ex_env)))) [ex_log])"
      "expiring_tans r =
         take 1000 (filter (\<lambda>p. p_tan_expiry_date p \<le> isoformat
            \<lparr>dt_date = \<lparr>year = 2026, month = 12, day = 6\<rparr>,
             hour = 12, minute = 30, second = 0, microsecond = 0\<rparr>) [ex_patient])"
      "total_items r =
         length (daily_tasks r) + length (callbacks_needed r) + length (expiring_tans r)"
    by blast
  have d: "daily_tasks r = [ex_task_due]"
    unfolding r(2) ex_today by (simp add: ex_task_due_def ex_task_def)
  have c': "callbacks_needed r = [ex_log]"
    unfolding r(3) ex_today by (simp add: ex_log_def)
  have e: "expiring_tans r = [ex_patient]"
    unfolding r(4) iso by (simp add: ex_patient_def)
  have "total_items r = 3" unfolding r(5) d c' e by simp
  with r(1) d c' e show ?thesis by blast
qed

end
